(* ===== verification/Prelude.thy ===== *)
theory Prelude
  imports Main "HOL-Library.Word" "HOL-Library.Char_ord" "HOL-Library.List_Lexorder"
begin

text \<open>
  What every component of the development shares: the result types of the code
  (\<open>Result\<close> as a sum, \<open>&mut\<close> state as explicit state passing), the string helpers of
  \<open>lib.rs\<close> and of the Rust standard library that the validators use, and the lemmas
  about both. A \<open>string\<close> is the list of the UTF-8 bytes of a Rust \<open>String\<close> (an Isabelle
  character is exactly one byte), so \<open>length\<close> is \<open>str::len\<close> and the order on strings
  is the byte order of \<open>Ord for str\<close>.
\<close>

named_theorems result_simps \<open>unfolding the result combinators\<close>

section \<open>Results\<close>

text \<open>\<open>and_then r k\<close> is the operator \<open>?\<close>: an error returns early, a value goes on.\<close>

definition and_then :: "'e + 'a \<Rightarrow> ('a \<Rightarrow> 'e + 'b) \<Rightarrow> 'e + 'b" where
  "and_then r k = (case r of Inl e \<Rightarrow> Inl e | Inr x \<Rightarrow> k x)"

definition ensure :: "bool \<Rightarrow> 'e \<Rightarrow> 'e + unit" where
  "ensure b e = (if b then Inr () else Inl e)"

definition map_err :: "('e \<Rightarrow> 'f) \<Rightarrow> 'e + 'a \<Rightarrow> 'f + 'a" where
  "map_err f r = (case r of Inl e \<Rightarrow> Inl (f e) | Inr x \<Rightarrow> Inr x)"

definition ok_or :: "'a option \<Rightarrow> 'e \<Rightarrow> 'e + 'a" where
  "ok_or v e = (case v of None \<Rightarrow> Inl e | Some x \<Rightarrow> Inr x)"

definition if_some :: "'a option \<Rightarrow> ('a \<Rightarrow> 'e + unit) \<Rightarrow> 'e + unit" where
  "if_some v f = (case v of None \<Rightarrow> Inr () | Some x \<Rightarrow> f x)"

fun try_for_each :: "('a \<Rightarrow> 'e + unit) \<Rightarrow> 'a list \<Rightarrow> 'e + unit" where
  "try_for_each f [] = Inr ()"
| "try_for_each f (x # xs) = and_then (f x) (\<lambda>_. try_for_each f xs)"

lemma and_then_simps [simp, result_simps]:
  "and_then (Inl e) k = Inl e"
  "and_then (Inr x) k = k x"
  by (simp_all add: and_then_def)

lemma and_then_ok [simp]:
  "and_then r k = Inr y \<longleftrightarrow> (\<exists>x. r = Inr x \<and> k x = Inr y)"
  by (cases r) simp_all

lemma and_then_ok_sym [simp]:
  "Inr y = and_then r k \<longleftrightarrow> (\<exists>x. r = Inr x \<and> k x = Inr y)"
  by (cases r) auto

lemma and_then_err:
  "and_then r k = Inl e \<longleftrightarrow> r = Inl e \<or> (\<exists>x. r = Inr x \<and> k x = Inl e)"
  by (cases r) simp_all

lemma and_then_cong [fundef_cong]:
  "r = r' \<Longrightarrow> (\<And>x. r' = Inr x \<Longrightarrow> k x = k' x) \<Longrightarrow> and_then r k = and_then r' k'"
  by (cases r') simp_all

lemma ensure_ok [simp]: "ensure b e = Inr u \<longleftrightarrow> b"
  by (simp add: ensure_def)

lemma ensure_err [simp]: "ensure b e = Inl e' \<longleftrightarrow> \<not> b \<and> e' = e"
  by (auto simp: ensure_def)

lemma ensure_consts [simp]: "ensure True e = Inr ()" "ensure False e = Inl e"
  by (simp_all add: ensure_def)

lemma map_err_ok [simp]: "map_err f r = Inr x \<longleftrightarrow> r = Inr x"
  by (cases r) (simp_all add: map_err_def)

lemma map_err_consts [simp]: "map_err f (Inl e) = Inl (f e)" "map_err f (Inr x) = Inr x"
  by (simp_all add: map_err_def)

lemma ok_or_ok [simp]: "ok_or v e = Inr x \<longleftrightarrow> v = Some x"
  by (cases v) (simp_all add: ok_or_def)

lemma ok_or_consts [simp]: "ok_or None e = Inl e" "ok_or (Some x) e = Inr x"
  by (simp_all add: ok_or_def)

lemma if_some_ok [simp]: "if_some v f = Inr u \<longleftrightarrow> (\<forall>x. v = Some x \<longrightarrow> f x = Inr ())"
  by (cases v) (simp_all add: if_some_def)

lemma if_some_consts [simp]: "if_some None f = Inr ()" "if_some (Some x) f = f x"
  by (simp_all add: if_some_def)

lemma try_for_each_ok: "try_for_each f xs = Inr u \<longleftrightarrow> (\<forall>x\<in>set xs. f x = Inr ())"
  by (induction xs) auto

lemma try_for_each_err:
  "try_for_each f xs = Inl e \<Longrightarrow> \<exists>x\<in>set xs. f x = Inl e"
  by (induction xs) (auto simp: and_then_err)

section \<open>Results over a mutable state\<close>

type_synonym ('s, 'e, 'a) exec = "'s \<Rightarrow> ('e + 'a) \<times> 's"

text \<open>A call that mutates the state and may fail; the state is kept as the failure left it.\<close>

definition bind_exec :: "('s, 'e, 'a) exec \<Rightarrow> ('a \<Rightarrow> ('s, 'e, 'b) exec) \<Rightarrow> ('s, 'e, 'b) exec" where
  "bind_exec m k s = (case m s of (Inl e, t) \<Rightarrow> (Inl e, t) | (Inr x, t) \<Rightarrow> k x t)"

definition pure_exec :: "'e + 'a \<Rightarrow> ('s, 'e, 'a) exec" where
  "pure_exec r s = (r, s)"

lemma bind_exec_ok:
  "bind_exec m k s = (Inr y, t) \<longleftrightarrow> (\<exists>x u. m s = (Inr x, u) \<and> k x u = (Inr y, t))"
  by (auto simp: bind_exec_def split: prod.splits sum.splits)

lemma bind_exec_result:
  "bind_exec m k s = (r, t) \<longleftrightarrow>
     (\<exists>e. m s = (Inl e, t) \<and> r = Inl e) \<or> (\<exists>x u. m s = (Inr x, u) \<and> k x u = (r, t))"
  by (auto simp: bind_exec_def split: prod.splits sum.splits)

lemma bind_exec_run [simp]:
  "m s = (Inl e, t) \<Longrightarrow> bind_exec m k s = (Inl e, t)"
  "m s = (Inr x, t) \<Longrightarrow> bind_exec m k s = k x t"
  by (simp_all add: bind_exec_def)

lemma pure_exec_result [simp]: "pure_exec r s = (r', t) \<longleftrightarrow> r = r' \<and> s = t"
  by (auto simp: pure_exec_def)

lemma bind_exec_assoc: "bind_exec (bind_exec m f) g = bind_exec m (\<lambda>x. bind_exec (f x) g)"
  by (rule ext) (simp add: bind_exec_def split: prod.split sum.split)

lemma bind_exec_pure:
  "bind_exec (pure_exec p) k s = (r, t) \<longleftrightarrow>
     (\<exists>e. p = Inl e \<and> r = Inl e \<and> t = s) \<or> (\<exists>x. p = Inr x \<and> k x s = (r, t))"
  by (auto simp: bind_exec_result)

text \<open>A property of the state that every call keeps is kept by their composition.\<close>

lemma bind_exec_keeps:
  assumes "I s"
    and "\<And>r t. m s = (r, t) \<Longrightarrow> I t"
    and "\<And>x t. m s = (Inr x, t) \<Longrightarrow> I t \<Longrightarrow> I (snd (k x t))"
  shows "I (snd (bind_exec m k s))"
  using assms by (auto simp: bind_exec_def split: prod.splits sum.splits)

text \<open>
  Hoare triples of such calls: from a state with \<open>P\<close>, success with \<open>x\<close> ends in \<open>Q x\<close> and an
  error in \<open>R\<close>. The rules follow the shape of the program.
\<close>

definition triple ::
  "('s \<Rightarrow> bool) \<Rightarrow> ('s, 'e, 'a) exec \<Rightarrow> ('a \<Rightarrow> 's \<Rightarrow> bool) \<Rightarrow> ('s \<Rightarrow> bool) \<Rightarrow> bool" where
  "triple P m Q R \<longleftrightarrow>
     (\<forall>s r t. P s \<longrightarrow> m s = (r, t) \<longrightarrow> (case r of Inl _ \<Rightarrow> R t | Inr x \<Rightarrow> Q x t))"

lemma tripleI:
  assumes "\<And>s x t. P s \<Longrightarrow> m s = (Inr x, t) \<Longrightarrow> Q x t"
    and "\<And>s e t. P s \<Longrightarrow> m s = (Inl e, t) \<Longrightarrow> R t"
  shows "triple P m Q R"
  using assms by (auto simp: triple_def split: sum.splits)

lemma triple_ok: "triple P m Q R \<Longrightarrow> P s \<Longrightarrow> m s = (Inr x, t) \<Longrightarrow> Q x t"
  by (auto simp: triple_def)

lemma triple_err: "triple P m Q R \<Longrightarrow> P s \<Longrightarrow> m s = (Inl e, t) \<Longrightarrow> R t"
  by (auto simp: triple_def)

lemma triple_bind:
  assumes m: "triple P m Q R" and k: "\<And>x. triple (Q x) (k x) Q' R"
  shows "triple P (bind_exec m k) Q' R"
proof (rule tripleI)
  fix s x t
  assume s: "P s" and "bind_exec m k s = (Inr x, t)"
  then obtain y u where u: "m s = (Inr y, u)" "k y u = (Inr x, t)" by (auto simp: bind_exec_ok)
  show "Q' x t" using triple_ok [OF k triple_ok [OF m s u(1)] u(2)] .
next
  fix s e t
  assume s: "P s" and "bind_exec m k s = (Inl e, t)"
  then consider "m s = (Inl e, t)" | y u where "m s = (Inr y, u)" "k y u = (Inl e, t)"
    by (auto simp: bind_exec_result)
  then show "R t"
  proof cases
    case 1
    then show ?thesis by (rule triple_err [OF m s])
  next
    case (2 y u)
    show ?thesis using triple_err [OF k triple_ok [OF m s 2(1)] 2(2)] .
  qed
qed

lemma triple_pure:
  assumes "\<And>s x. P s \<Longrightarrow> r = Inr x \<Longrightarrow> Q x s" "\<And>s. P s \<Longrightarrow> R s"
  shows "triple P (pure_exec r) Q R"
proof (rule tripleI)
  show "Q x t" if "P s" "pure_exec r s = (Inr x, t)" for s x t using assms(1) that by simp
  show "R t" if "P s" "pure_exec r s = (Inl e, t)" for s e t using assms(2) that by simp
qed

lemma triple_pure_bind:
  assumes "\<And>x. r = Inr x \<Longrightarrow> triple P (k x) Q R" "\<And>s. P s \<Longrightarrow> R s"
  shows "triple P (bind_exec (pure_exec r) k) Q R"
  using assms by (auto simp: triple_def bind_exec_def pure_exec_def split: sum.splits)

lemma triple_pre: "triple P m Q R \<Longrightarrow> (\<And>s. P' s \<Longrightarrow> P s) \<Longrightarrow> triple P' m Q R"
  by (auto simp: triple_def)

lemma triple_weaken:
  assumes "triple P m Q R" "\<And>s. P' s \<Longrightarrow> P s" "\<And>x s. Q x s \<Longrightarrow> Q' x s" "\<And>s. R s \<Longrightarrow> R' s"
  shows "triple P' m Q' R'"
proof (rule tripleI)
  show "Q' x t" if "P' s" "m s = (Inr x, t)" for s x t
    using triple_ok [OF assms(1) _ that(2)] assms that by blast
  show "R' t" if "P' s" "m s = (Inl e, t)" for s e t
    using triple_err [OF assms(1) _ that(2)] assms that by blast
qed

lemma triple_assume: "(b \<Longrightarrow> triple P m Q R) \<Longrightarrow> triple (\<lambda>s. b \<and> P s) m Q R"
  by (auto simp: triple_def)

section \<open>Machine words\<close>

lemma word_plus_one_eq_0: "w + 1 = 0 \<longleftrightarrow> w = (-1 :: 'a::len word)"
  by (simp add: eq_neg_iff_add_eq_0)

lemma unat_plus_one: "w \<noteq> (-1 :: 'a::len word) \<Longrightarrow> unat (w + 1) = Suc (unat w)"
  using unatSuc [of w] word_plus_one_eq_0 [of w] by (simp add: add.commute)

section \<open>Lists\<close>

text \<open>\<open>slice::windows(2)\<close>: the adjacent pairs.\<close>

fun windows2 :: "'a list \<Rightarrow> ('a \<times> 'a) list" where
  "windows2 (x # y # zs) = (x, y) # windows2 (y # zs)"
| "windows2 _ = []"

lemma windows2_less_sorted:
  fixes xs :: "'a::linorder list"
  shows "(\<forall>p\<in>set (windows2 xs). fst p < snd p) \<longleftrightarrow> sorted_wrt (<) xs"
  by (induction xs rule: windows2.induct) (auto dest: less_trans)

lemma windows2_sorted_distinct:
  fixes f :: "'a \<Rightarrow> 'b::linorder"
  assumes "sorted (map f xs)"
  shows "(\<forall>p\<in>set (windows2 xs). f (fst p) \<noteq> f (snd p)) \<longleftrightarrow> distinct (map f xs)"
  using assms
proof (induction xs rule: windows2.induct)
  case (1 x y zs)
  then show ?case by (auto dest: order.antisym)
qed auto

text \<open>
  The loop \<open>for x in xs { if !seen.insert(key(x)) { return Err(..) } }\<close>: the first element
  whose key was seen before.
\<close>

fun first_duplicate :: "('a \<Rightarrow> 'k) \<Rightarrow> 'k list \<Rightarrow> 'a list \<Rightarrow> 'a option" where
  "first_duplicate key seen [] = None"
| "first_duplicate key seen (x # xs) =
     (if key x \<in> set seen then Some x else first_duplicate key (key x # seen) xs)"

lemma first_duplicate_None:
  "first_duplicate key seen xs = None \<longleftrightarrow>
     distinct (map key xs) \<and> set (map key xs) \<inter> set seen = {}"
  by (induction xs arbitrary: seen) auto

fun find_map :: "('a \<Rightarrow> 'b option) \<Rightarrow> 'a list \<Rightarrow> 'b option" where
  "find_map f [] = None"
| "find_map f (x # xs) = (case f x of None \<Rightarrow> find_map f xs | Some y \<Rightarrow> Some y)"

lemma find_map_append:
  "find_map f (xs @ ys) = (case find_map f xs of None \<Rightarrow> find_map f ys | Some y \<Rightarrow> Some y)"
  by (induction xs) (auto split: option.splits)

lemma find_map_None: "find_map f xs = None \<longleftrightarrow> (\<forall>x\<in>set xs. f x = None)"
  by (induction xs) (auto split: option.splits)

lemma find_map_Some:
  "find_map f xs = Some y \<Longrightarrow> \<exists>us x vs. xs = us @ x # vs \<and> f x = Some y \<and> (\<forall>u\<in>set us. f u = None)"
proof (induction xs)
  case (Cons x xs)
  show ?case
  proof (cases "f x")
    case None
    with Cons obtain us z vs where "xs = us @ z # vs" "f z = Some y" "\<forall>u\<in>set us. f u = None"
      by auto
    with None have "x # xs = (x # us) @ z # vs \<and> f z = Some y \<and> (\<forall>u\<in>set (x # us). f u = None)"
      by simp
    then show ?thesis by blast
  next
    case (Some b)
    with Cons.prems have "x # xs = [] @ x # xs \<and> f x = Some y \<and> (\<forall>u\<in>set []. f u = None)" by simp
    then show ?thesis by blast
  qed
qed simp

section \<open>Ordered maps\<close>

text \<open>
  A \<open>BTreeMap\<close> is its sequence of entries in key order: \<open>get\<close> is the library's \<open>map_of\<close>,
  iteration is the list itself, \<open>retain\<close> is \<open>filter\<close>.
\<close>

type_synonym ('k, 'v) btree = "('k \<times> 'v) list"

definition btree_ok :: "('k::linorder, 'v) btree \<Rightarrow> bool" where
  "btree_ok m \<longleftrightarrow> sorted_wrt (<) (map fst m)"

fun btree_insert :: "'k::linorder \<Rightarrow> 'v \<Rightarrow> ('k, 'v) btree \<Rightarrow> ('k, 'v) btree" where
  "btree_insert k v [] = [(k, v)]"
| "btree_insert k v (e # m) =
     (if fst e < k then e # btree_insert k v m
      else if fst e = k then (k, v) # m
      else (k, v) # e # m)"

definition btree_remove :: "'k \<Rightarrow> ('k, 'v) btree \<Rightarrow> ('k, 'v) btree" where
  "btree_remove k m = filter (\<lambda>e. fst e \<noteq> k) m"

definition btree_of :: "('k::linorder \<times> 'v) list \<Rightarrow> ('k, 'v) btree" where
  "btree_of es = fold (\<lambda>e. btree_insert (fst e) (snd e)) es []"

lemma btree_ok_Cons [simp]:
  "btree_ok (e # m) \<longleftrightarrow> (\<forall>k\<in>fst ` set m. fst e < k) \<and> btree_ok m"
  by (auto simp: btree_ok_def)

lemma btree_ok_Nil [simp]: "btree_ok []"
  by (simp add: btree_ok_def)

lemma keys_btree_insert [simp]: "fst ` set (btree_insert k v m) = insert k (fst ` set m)"
  by (induction m) auto

lemma btree_ok_insert [simp]: "btree_ok m \<Longrightarrow> btree_ok (btree_insert k v m)"
  by (induction m) (auto simp del: set_map)

lemma btree_ok_filter [simp]: "btree_ok m \<Longrightarrow> btree_ok (filter P m)"
  by (induction m) auto

lemma map_of_btree_insert [simp]:
  "btree_ok m \<Longrightarrow> map_of (btree_insert k v m) j = (if j = k then Some v else map_of m j)"
  by (induction m) (auto simp: map_of_eq_None_iff)

lemma map_of_btree_remove [simp]:
  "map_of (btree_remove k m) j = (if j = k then None else map_of m j)"
  by (induction m) (auto simp: btree_remove_def)

lemma btree_ok_distinct: "btree_ok m \<Longrightarrow> distinct (map fst m)"
  by (induction m) auto

lemma map_of_filter_btree:
  "btree_ok m \<Longrightarrow> map_of (filter P m) k =
     (case map_of m k of None \<Rightarrow> None | Some v \<Rightarrow> if P (k, v) then Some v else None)"
proof (induction m)
  case (Cons e m)
  have "map_of m (fst e) = None" using Cons.prems by (auto simp: map_of_eq_None_iff)
  with Cons show ?case by (cases e) (auto split: option.splits)
qed simp

lemma btree_ok_fold_insert [simp]:
  "btree_ok m \<Longrightarrow> btree_ok (fold (\<lambda>e. btree_insert (fst e) (snd e)) es m)"
  by (induction es arbitrary: m) auto

lemma btree_ok_of [simp]: "btree_ok (btree_of es)"
  by (simp add: btree_of_def)

lemma length_btree_insert:
  assumes "btree_ok m"
  shows "length (btree_insert k v m) =
     (case map_of m k of None \<Rightarrow> Suc (length m) | Some _ \<Rightarrow> length m)"
proof -
  have "length (btree_insert k v m) = (if k \<in> fst ` set m then length m else Suc (length m))"
    using assms by (induction m) auto
  moreover have "k \<in> fst ` set m \<longleftrightarrow> map_of m k \<noteq> None" by (simp add: map_of_eq_None_iff)
  ultimately show ?thesis by (auto split: option.splits)
qed

lemma filter_eq_length: "length (filter P xs) = length xs \<longleftrightarrow> filter P xs = xs"
  by (metis length_filter_less less_irrefl filter_True)

end
