(* ===== verification/Encoding.thy ===== *)
theory Encoding
  imports Prelude
begin

text \<open>
  The string helpers of \<open>lib.rs\<close> (hexadecimal digests, path segments), the tests of the
  standard library the validators call (\<open>trim\<close>, \<open>char::is_control\<close>), the identifier check
  that \<open>approval.rs\<close>, \<open>plan.rs\<close> and \<open>coordinator.rs\<close> each repeat, and the paths that
  \<open>config.rs\<close> derives from them. All work on UTF-8 bytes.
\<close>

type_synonym path = "string list"

abbreviation code :: "char \<Rightarrow> nat" where
  "code c \<equiv> of_char c"

section \<open>Hexadecimal digests\<close>

definition is_digit :: "char \<Rightarrow> bool" where
  "is_digit c \<longleftrightarrow> 48 \<le> code c \<and> code c \<le> 57"

definition is_lower :: "char \<Rightarrow> bool" where
  "is_lower c \<longleftrightarrow> 97 \<le> code c \<and> code c \<le> 122"

definition is_upper :: "char \<Rightarrow> bool" where
  "is_upper c \<longleftrightarrow> 65 \<le> code c \<and> code c \<le> 90"

definition is_lower_hex :: "char \<Rightarrow> bool" where
  "is_lower_hex c \<longleftrightarrow> is_digit c \<or> (97 \<le> code c \<and> code c \<le> 102)"

definition hex_digit :: "nat \<Rightarrow> char" where
  "hex_digit n = ''0123456789abcdef'' ! n"

fun encode_lower_hex :: "string \<Rightarrow> string" where
  "encode_lower_hex [] = []"
| "encode_lower_hex (b # bs) =
     hex_digit (code b div 16) # hex_digit (code b mod 16) # encode_lower_hex bs"

definition is_lower_hex_digest :: "string \<Rightarrow> bool" where
  "is_lower_hex_digest str \<longleftrightarrow> length str = 64 \<and> list_all is_lower_hex str"

definition hex_nibble :: "char \<Rightarrow> nat option" where
  "hex_nibble byte =
     (if is_digit byte then Some (code byte - 48)
      else if 97 \<le> code byte \<and> code byte \<le> 102 then Some (code byte - 97 + 10)
      else None)"

text \<open>\<open>decode_hex\<close> of \<open>approval.rs\<close>; \<open>None\<close> is its \<open>InvalidSignatureEncoding\<close>.\<close>

fun decode_hex_pairs :: "string \<Rightarrow> string option" where
  "decode_hex_pairs (a # b # rest) =
     (case hex_nibble a of None \<Rightarrow> None
      | Some high \<Rightarrow> (case hex_nibble b of None \<Rightarrow> None
        | Some low \<Rightarrow> map_option (Cons (char_of (16 * high + low))) (decode_hex_pairs rest)))"
| "decode_hex_pairs _ = Some []"

definition decode_hex :: "string \<Rightarrow> string option" where
  "decode_hex str = (if odd (length str) then None else decode_hex_pairs str)"

lemma less_16_cases:
  "(n :: nat) < 16 \<Longrightarrow> n \<in> {0,1,2,3,4,5,6,7,8,9,10,11,12,13,14,15}"
  by (simp; presburger)

lemma hex_digit_lower [simp]: "n < 16 \<Longrightarrow> is_lower_hex (hex_digit n)"
  by (drule less_16_cases) (auto simp: hex_digit_def is_lower_hex_def is_digit_def)

lemma hex_nibble_hex_digit [simp]: "n < 16 \<Longrightarrow> hex_nibble (hex_digit n) = Some n"
  by (drule less_16_cases) (auto simp: hex_digit_def hex_nibble_def is_digit_def)

lemma nibbles_below [simp]: "code b div 16 < 16" "code b mod 16 < 16"
  using nat_of_char_less_256 [of b] by (auto simp: less_mult_imp_div_less)

lemma length_encode_lower_hex [simp]: "length (encode_lower_hex bs) = 2 * length bs"
  by (induction bs) simp_all

lemma encode_lower_hex_is_hex: "list_all is_lower_hex (encode_lower_hex bs)"
  by (induction bs) simp_all

lemma encode_lower_hex_digest:
  "length bs = 32 \<Longrightarrow> is_lower_hex_digest (encode_lower_hex bs)"
  by (simp add: is_lower_hex_digest_def encode_lower_hex_is_hex)

lemma decode_encode_hex: "decode_hex (encode_lower_hex bs) = Some bs"
proof -
  have "decode_hex_pairs (encode_lower_hex bs) = Some bs"
    by (induction bs) (simp_all add: mult_div_mod_eq)
  then show ?thesis by (simp add: decode_hex_def)
qed

lemma encode_lower_hex_inject: "encode_lower_hex a = encode_lower_hex b \<longleftrightarrow> a = b"
  by (metis decode_encode_hex option.inject)

text \<open>SHA-256 is a library function: a parameter, with the 32 bytes it returns as its only law.\<close>

record hashing =
  sha256 :: "string \<Rightarrow> string"

definition sha256_digest :: "('z) hashing_scheme \<Rightarrow> string \<Rightarrow> string" where
  "sha256_digest H bytes = encode_lower_hex (sha256 H bytes)"

definition sha256_length :: "('z) hashing_scheme \<Rightarrow> bool" where
  "sha256_length H \<longleftrightarrow> (\<forall>bytes. length (sha256 H bytes) = 32)"

lemma sha256_digest_is_digest: "sha256_length H \<Longrightarrow> is_lower_hex_digest (sha256_digest H bytes)"
  by (simp add: sha256_digest_def sha256_length_def encode_lower_hex_digest)

section \<open>Path segments\<close>

definition upper_hex_digit :: "nat \<Rightarrow> char" where
  "upper_hex_digit n = ''0123456789ABCDEF'' ! n"

definition percent_byte :: "char \<Rightarrow> string" where
  "percent_byte b = [CHR ''%'', upper_hex_digit (code b div 16), upper_hex_digit (code b mod 16)]"

definition plain_segment_byte :: "bool \<Rightarrow> char \<Rightarrow> bool" where
  "plain_segment_byte at_start b \<longleftrightarrow>
     is_upper b \<or> is_lower b \<or> is_digit b \<or> b = CHR ''-'' \<or> b = CHR ''_'' \<or>
     (b = CHR ''.'' \<and> \<not> at_start)"

fun encode_segment_from :: "bool \<Rightarrow> string \<Rightarrow> string" where
  "encode_segment_from at_start [] = []"
| "encode_segment_from at_start (b # bs) =
     (if plain_segment_byte at_start b then [b] else percent_byte b) @ encode_segment_from False bs"

definition encode_path_segment :: "string \<Rightarrow> string" where
  "encode_path_segment str = encode_segment_from True str"

lemma upper_hex_digit_inject [simp]:
  "m < 16 \<Longrightarrow> n < 16 \<Longrightarrow> upper_hex_digit m = upper_hex_digit n \<longleftrightarrow> m = n"
  unfolding upper_hex_digit_def by (subst nth_eq_iff_index_eq) simp_all

lemma code_eq_iff: "code a = code b \<longleftrightarrow> a = b"
  by (simp add: of_char_eq_iff)

lemma percent_byte_inject [simp]: "percent_byte a = percent_byte b \<longleftrightarrow> a = b"
proof -
  have "code a div 16 = code b div 16 \<and> code a mod 16 = code b mod 16 \<longleftrightarrow> code a = code b"
    by (metis mult_div_mod_eq)
  then show ?thesis by (simp add: percent_byte_def code_eq_iff)
qed

lemma plain_not_percent [simp]: "\<not> plain_segment_byte s (CHR ''%'')"
  by (simp add: plain_segment_byte_def is_upper_def is_lower_def is_digit_def)

lemma encode_segment_from_inject:
  "encode_segment_from s a = encode_segment_from s b \<longleftrightarrow> a = b"
proof (induction a arbitrary: b s)
  case Nil
  then show ?case by (cases b) (auto simp: percent_byte_def)
next
  case (Cons x xs)
  show ?case
  proof (cases b)
    case Nil
    then show ?thesis by (auto simp: percent_byte_def)
  next
    case (Cons y ys)
    have "percent_byte x @ us = percent_byte y @ vs \<longleftrightarrow> x = y \<and> us = vs" for us vs
      by (metis append_eq_append_conv length_Cons percent_byte_def percent_byte_inject)
    moreover have "z # us \<noteq> percent_byte w @ vs" if "plain_segment_byte s z" for z w us vs
      using that by (auto simp: percent_byte_def)
    ultimately show ?thesis
      using Cons.IH Cons by (auto dest: sym)
  qed
qed

lemma encode_path_segment_inject:
  "encode_path_segment a = encode_path_segment b \<longleftrightarrow> a = b"
  by (simp add: encode_path_segment_def encode_segment_from_inject)

lemma upper_hex_digit_neq [simp]:
  "n < 16 \<Longrightarrow> upper_hex_digit n \<noteq> CHR ''.''" "n < 16 \<Longrightarrow> upper_hex_digit n \<noteq> CHR ''/''"
  by (drule less_16_cases, auto simp: upper_hex_digit_def)+

lemma encode_segment_no_slash: "CHR ''/'' \<notin> set (encode_segment_from s str)"
  by (induction str arbitrary: s)
    (auto simp: percent_byte_def plain_segment_byte_def is_upper_def is_lower_def is_digit_def
      dest: sym)

lemma encode_path_segment_hd:
  "encode_path_segment str = c # rest \<Longrightarrow> c \<noteq> CHR ''.''"
  by (cases str)
    (auto simp: encode_path_segment_def percent_byte_def plain_segment_byte_def is_upper_def
      is_lower_def is_digit_def split: if_splits)

section \<open>Trimming and control characters\<close>

text \<open>
  \<open>char::is_whitespace\<close> and \<open>char::is_control\<close> on the UTF-8 encoding: one byte for the
  ASCII members, two bytes for U+0080 to U+009F, U+0085 and U+00A0, three for the rest
  of \<open>White_Space\<close>.
\<close>

definition white1 :: "char \<Rightarrow> bool" where
  "white1 a \<longleftrightarrow> code a = 32 \<or> (9 \<le> code a \<and> code a \<le> 13)"

definition white2 :: "char \<Rightarrow> char \<Rightarrow> bool" where
  "white2 a b \<longleftrightarrow> code a = 194 \<and> (code b = 133 \<or> code b = 160)"

definition white3 :: "char \<Rightarrow> char \<Rightarrow> char \<Rightarrow> bool" where
  "white3 a b c \<longleftrightarrow>
     (code a = 225 \<and> code b = 154 \<and> code c = 128) \<or>
     (code a = 226 \<and> code b = 128 \<and>
       ((128 \<le> code c \<and> code c \<le> 138) \<or> code c = 168 \<or> code c = 169 \<or> code c = 175)) \<or>
     (code a = 226 \<and> code b = 129 \<and> code c = 159) \<or>
     (code a = 227 \<and> code b = 128 \<and> code c = 128)"

fun trim_start :: "string \<Rightarrow> string" where
  "trim_start [] = []"
| "trim_start [a] = (if white1 a then [] else [a])"
| "trim_start [a, b] =
     (if white1 a then trim_start [b] else if white2 a b then [] else [a, b])"
| "trim_start (a # b # c # s) =
     (if white1 a then trim_start (b # c # s)
      else if white2 a b then trim_start (c # s)
      else if white3 a b c then trim_start s
      else a # b # c # s)"

text \<open>The same from the end, on the reversed bytes.\<close>

fun trim_reversed :: "string \<Rightarrow> string" where
  "trim_reversed [] = []"
| "trim_reversed [a] = (if white1 a then [] else [a])"
| "trim_reversed [b, a] =
     (if white1 b then trim_reversed [a] else if white2 a b then [] else [b, a])"
| "trim_reversed (c # b # a # s) =
     (if white1 c then trim_reversed (b # a # s)
      else if white2 b c then trim_reversed (a # s)
      else if white3 a b c then trim_reversed s
      else c # b # a # s)"

definition trim_end :: "string \<Rightarrow> string" where
  "trim_end s = rev (trim_reversed (rev s))"

definition trim :: "string \<Rightarrow> string" where
  "trim s = trim_end (trim_start s)"

text \<open>\<open>s.trim().is_empty()\<close>: nothing but white space.\<close>

definition blank :: "string \<Rightarrow> bool" where
  "blank s \<longleftrightarrow> trim s = []"

fun has_control :: "string \<Rightarrow> bool" where
  "has_control [] \<longleftrightarrow> False"
| "has_control [a] \<longleftrightarrow> code a < 32 \<or> code a = 127"
| "has_control (a # b # s) \<longleftrightarrow>
     code a < 32 \<or> code a = 127 \<or> (code a = 194 \<and> 128 \<le> code b \<and> code b \<le> 159) \<or>
     has_control (b # s)"

section \<open>Identifiers and codes\<close>

text \<open>
  \<open>validate_identifier\<close> of \<open>approval.rs\<close>, \<open>transitions/plan.rs\<close> and
  \<open>transitions/coordinator.rs\<close>: one condition, three error types.
\<close>

definition valid_identifier :: "string \<Rightarrow> bool" where
  "valid_identifier str \<longleftrightarrow>
     \<not> (blank str \<or> length str > 512 \<or> has_control str \<or>
        CHR ''/'' \<in> set str \<or> CHR 0x5C \<in> set str)"

text \<open>\<open>validate_code\<close> of the coordinator and \<open>validate_event_code\<close> of the journal.\<close>

definition valid_code :: "string \<Rightarrow> bool" where
  "valid_code str \<longleftrightarrow>
     str \<noteq> [] \<and> length str \<le> 128 \<and>
     list_all (\<lambda>b. is_lower b \<or> is_digit b \<or> b = CHR ''-'') str"

section \<open>Paths under the application state root\<close>

definition json_file :: "string \<Rightarrow> string" where
  "json_file str = encode_path_segment str @ ''.json''"

definition get_transition_journal_path :: "path \<Rightarrow> string \<Rightarrow> path" where
  "get_transition_journal_path app_state_root operation_id =
     app_state_root @ [''transactions'', json_file operation_id]"

definition get_approval_nonce_path :: "path \<Rightarrow> string \<Rightarrow> path" where
  "get_approval_nonce_path app_state_root nonce_digest =
     app_state_root @ [''approvals'', ''nonces'', json_file nonce_digest]"

definition get_approval_nonce_ledger_path :: "path \<Rightarrow> path" where
  "get_approval_nonce_ledger_path app_state_root =
     app_state_root @ [''approvals'', ''nonces.json'']"

definition get_approval_nonce_ledger_shard_path :: "path \<Rightarrow> string \<Rightarrow> path" where
  "get_approval_nonce_ledger_shard_path app_state_root shard =
     app_state_root @ [''approvals'', ''nonce-ledgers'', json_file shard]"

lemma json_file_inject [simp]: "json_file a = json_file b \<longleftrightarrow> a = b"
  by (simp add: json_file_def encode_path_segment_inject)

lemma json_file_not_hidden: "json_file str = c # rest \<Longrightarrow> c \<noteq> CHR ''.'' \<or> str = []"
  by (cases "encode_path_segment str")
    (auto simp: json_file_def encode_path_segment_def percent_byte_def
      dest: encode_path_segment_hd [unfolded encode_path_segment_def]
      split: if_splits elim: encode_segment_from.elims)

lemma journal_path_inject [simp]:
  "get_transition_journal_path r a = get_transition_journal_path r b \<longleftrightarrow> a = b"
  by (simp add: get_transition_journal_path_def)

lemma nonce_paths_distinct [simp]:
  "get_approval_nonce_ledger_path r \<noteq> get_approval_nonce_path r n"
  "get_approval_nonce_ledger_path r \<noteq> get_approval_nonce_ledger_shard_path r s"
  "get_approval_nonce_ledger_shard_path r s \<noteq> get_approval_nonce_path r n"
  by (simp_all add: get_approval_nonce_ledger_path_def get_approval_nonce_path_def
      get_approval_nonce_ledger_shard_path_def)

lemma shard_path_inject [simp]:
  "get_approval_nonce_ledger_shard_path r a = get_approval_nonce_ledger_shard_path r b \<longleftrightarrow> a = b"
  "get_approval_nonce_path r a = get_approval_nonce_path r b \<longleftrightarrow> a = b"
  by (simp_all add: get_approval_nonce_ledger_shard_path_def get_approval_nonce_path_def)

text \<open>
  The file name of an identifier: different identifiers have different names, and no name
  contains a separator or is a relative directory, so an identifier never leaves its directory.
\<close>

theorem path_segment_is_safe:
  "(encode_path_segment a = encode_path_segment b \<longleftrightarrow> a = b) \<and>
   CHR ''/'' \<notin> set (encode_path_segment a) \<and>
   encode_path_segment a \<noteq> ''.'' \<and> encode_path_segment a \<noteq> ''..''"
proof (intro conjI)
  have "encode_path_segment a \<noteq> CHR ''.'' # rest" for rest
    using encode_path_segment_hd [of a] by (cases "encode_path_segment a") (auto dest: sym)
  then show "encode_path_segment a \<noteq> ''.''" "encode_path_segment a \<noteq> ''..''" by simp_all
  show "CHR ''/'' \<notin> set (encode_path_segment a)"
    by (simp add: encode_path_segment_def encode_segment_no_slash)
qed (rule encode_path_segment_inject)

end
