(* ===== verification/Providers.thy ===== *)
theory Providers
  imports Prelude
begin

text \<open>
  The six providers of \<open>providers/mod.rs\<close>, their names and their derived order (the order
  of the declaration), as an instance of the library's linear orders.
\<close>

datatype provider_id = Claude | Codex | Cursor | Pi | OpenCode | Zed

fun provider_str :: "provider_id \<Rightarrow> string" where
  "provider_str Claude = ''claude''"
| "provider_str Codex = ''codex''"
| "provider_str Cursor = ''cursor''"
| "provider_str Pi = ''pi''"
| "provider_str OpenCode = ''opencode''"
| "provider_str Zed = ''zed''"

definition all_providers :: "provider_id list" where
  "all_providers = [Claude, Codex, Cursor, Pi, OpenCode, Zed]"

fun provider_rank :: "provider_id \<Rightarrow> nat" where
  "provider_rank Claude = 0"
| "provider_rank Codex = 1"
| "provider_rank Cursor = 2"
| "provider_rank Pi = 3"
| "provider_rank OpenCode = 4"
| "provider_rank Zed = 5"

lemma provider_rank_inject [simp]: "provider_rank p = provider_rank q \<longleftrightarrow> p = q"
  by (cases p; cases q) simp_all

instantiation provider_id :: linorder
begin

definition less_eq_provider_id :: "provider_id \<Rightarrow> provider_id \<Rightarrow> bool" where
  "p \<le> q \<longleftrightarrow> provider_rank p \<le> provider_rank q"

definition less_provider_id :: "provider_id \<Rightarrow> provider_id \<Rightarrow> bool" where
  "p < q \<longleftrightarrow> provider_rank p < provider_rank q"

instance
  by standard (auto simp: less_eq_provider_id_def less_provider_id_def)

end

lemma provider_str_inject [simp]: "provider_str p = provider_str q \<longleftrightarrow> p = q"
  by (cases p; cases q) simp_all

lemma all_providers_set: "set all_providers = UNIV"
proof (intro set_eqI iffI)
  fix p :: provider_id
  show "p \<in> set all_providers" by (cases p) (simp_all add: all_providers_def)
qed simp

end
