(* ===== verification/Transition_Plan.thy ===== *)
theory Transition_Plan
  imports Encoding Providers
begin

text \<open>
  \<open>transitions/plan.rs\<close>: the immutable effect graph a human reviews. A plan is built
  and verified by the same shape check, and its digest covers every field. The JSON of the
  digest body comes from a library and is a parameter.
\<close>

datatype transition_kind =
    ApplyProfile | ApplyCapabilityPolicy | GatewayWorkflow | SessionEnd | AdoptCapability
  | RestoreNative | DetachGateway | TrustHook | Recover | NativeToggle | BulkToggle
  | InventoryGroupApply

fun transition_kind_str :: "transition_kind \<Rightarrow> string" where
  "transition_kind_str ApplyProfile = ''apply-profile''"
| "transition_kind_str ApplyCapabilityPolicy = ''apply-capability-policy''"
| "transition_kind_str GatewayWorkflow = ''gateway-workflow''"
| "transition_kind_str SessionEnd = ''session-end''"
| "transition_kind_str AdoptCapability = ''adopt-capability''"
| "transition_kind_str RestoreNative = ''restore-native''"
| "transition_kind_str DetachGateway = ''detach-gateway''"
| "transition_kind_str TrustHook = ''trust-hook''"
| "transition_kind_str Recover = ''recover''"
| "transition_kind_str NativeToggle = ''native-toggle''"
| "transition_kind_str BulkToggle = ''bulk-toggle''"
| "transition_kind_str InventoryGroupApply = ''inventory-group-apply''"

record transition_context =
  repository_key :: string
  workspace_key :: string
  session_id :: "string option"
  profile_digest :: "string option"

datatype transition_effect_kind =
    PublishView | WithdrawView | ReplaceProviderConfig | CopyCanonicalContent | RestoreView
  | InstallBridge | DetachBridge | RecordTrust

datatype effect_authority = UserManaged | ProviderManaged | AdministratorManaged | External

datatype effect_activation = Live | ReloadRequired | RestartRequired | NextSessionOnly

fun activation_rank :: "effect_activation \<Rightarrow> nat" where
  "activation_rank Live = 0"
| "activation_rank ReloadRequired = 1"
| "activation_rank RestartRequired = 2"
| "activation_rank NextSessionOnly = 3"

definition activation_max :: "effect_activation \<Rightarrow> effect_activation \<Rightarrow> effect_activation" where
  "activation_max a b = (if activation_rank a \<ge> activation_rank b then a else b)"

record transition_effect =
  effect_id :: string
  effect_kind :: transition_effect_kind
  resource_id :: string
  target_type :: string
  summary :: string
  authority :: effect_authority
  activation :: effect_activation
  expected_pre_fingerprint :: "string option"
  expected_post_fingerprint :: "string option"
  provider_views :: "provider_id list"

record transition_plan =
  schema_version :: "32 word"
  operation_id :: string
  plan_kind :: transition_kind
  plan_context :: transition_context
  effects :: "transition_effect list"
  effect_graph_digest :: string

datatype transition_plan_error =
    PlanUnsupportedVersion "32 word"
  | PlanInvalidIdentifier string
  | PlanInvalidDigest string
  | EmptyEffects
  | DuplicateEffect string
  | DuplicateResource string
  | InvalidSummary
  | NoStateChange string
  | ImmutableAuthority string effect_authority
  | NonCanonicalProviderViews string
  | PlanSerialization string
  | PlanDigestMismatch string string

record digest_body =
  body_schema_version :: "32 word"
  body_operation_id :: string
  body_kind :: transition_kind
  body_context :: transition_context
  body_effects :: "transition_effect list"

record plan_env = hashing +
  plan_json :: "digest_body \<Rightarrow> string + string"

section \<open>Validation\<close>

definition plan_identifier :: "string \<Rightarrow> string \<Rightarrow> transition_plan_error + unit" where
  "plan_identifier label str = ensure (valid_identifier str) (PlanInvalidIdentifier label)"

definition plan_digest :: "string \<Rightarrow> string \<Rightarrow> transition_plan_error + unit" where
  "plan_digest label str = ensure (is_lower_hex_digest str) (PlanInvalidDigest label)"

definition valid_summary :: "string \<Rightarrow> bool" where
  "valid_summary str \<longleftrightarrow> \<not> (blank str \<or> length str > 1024 \<or> has_control str)"

text \<open>One turn of the loop over the effects, with the identifiers met so far.\<close>

definition validate_effect ::
  "string list \<Rightarrow> string list \<Rightarrow> transition_effect \<Rightarrow> transition_plan_error + unit" where
  "validate_effect effect_ids resource_ids eff =
     and_then (plan_identifier ''effect id'' (effect_id eff)) (\<lambda>_.
     and_then (plan_identifier ''resource id'' (resource_id eff)) (\<lambda>_.
     and_then (plan_identifier ''target type'' (target_type eff)) (\<lambda>_.
     and_then (ensure (valid_summary (summary eff)) InvalidSummary) (\<lambda>_.
     and_then (ensure (authority eff = UserManaged)
                 (ImmutableAuthority (effect_id eff) (authority eff))) (\<lambda>_.
     and_then (ensure (effect_id eff \<notin> set effect_ids) (DuplicateEffect (effect_id eff))) (\<lambda>_.
     and_then (ensure (resource_id eff \<notin> set resource_ids)
                 (DuplicateResource (resource_id eff))) (\<lambda>_.
     and_then (if_some (expected_pre_fingerprint eff) (plan_digest ''pre-state'')) (\<lambda>_.
     and_then (if_some (expected_post_fingerprint eff) (plan_digest ''post-state'')) (\<lambda>_.
     and_then (ensure (expected_pre_fingerprint eff \<noteq> expected_post_fingerprint eff)
                 (NoStateChange (effect_id eff))) (\<lambda>_.
     try_for_each (\<lambda>pair. ensure (fst pair < snd pair)
                            (NonCanonicalProviderViews (effect_id eff)))
       (windows2 (provider_views eff))))))))))))"

fun validate_effects ::
  "string list \<Rightarrow> string list \<Rightarrow> transition_effect list \<Rightarrow> transition_plan_error + unit" where
  "validate_effects effect_ids resource_ids [] = Inr ()"
| "validate_effects effect_ids resource_ids (eff # rest) =
     and_then (validate_effect effect_ids resource_ids eff) (\<lambda>_.
     validate_effects (effect_id eff # effect_ids) (resource_id eff # resource_ids) rest)"

definition validate_shape :: "transition_plan \<Rightarrow> transition_plan_error + unit" where
  "validate_shape plan =
     and_then (ensure (schema_version plan = 1) (PlanUnsupportedVersion (schema_version plan))) (\<lambda>_.
     and_then (plan_identifier ''operation id'' (operation_id plan)) (\<lambda>_.
     and_then (plan_identifier ''repository key'' (repository_key (plan_context plan))) (\<lambda>_.
     and_then (plan_identifier ''workspace key'' (workspace_key (plan_context plan))) (\<lambda>_.
     and_then (if_some (session_id (plan_context plan)) (plan_identifier ''session id'')) (\<lambda>_.
     and_then (if_some (profile_digest (plan_context plan)) (plan_digest ''profile'')) (\<lambda>_.
     and_then (ensure (effects plan \<noteq> []) EmptyEffects) (\<lambda>_.
     validate_effects [] [] (effects plan))))))))"

definition calculate_digest ::
  "('z) plan_env_scheme \<Rightarrow> transition_plan \<Rightarrow> transition_plan_error + string" where
  "calculate_digest E plan =
     and_then (map_err PlanSerialization (plan_json E
         \<lparr>body_schema_version = schema_version plan, body_operation_id = operation_id plan,
          body_kind = plan_kind plan, body_context = plan_context plan, body_effects = effects plan\<rparr>))
       (\<lambda>bytes. Inr (sha256_digest E bytes))"

definition new_plan ::
  "('z) plan_env_scheme \<Rightarrow> string \<Rightarrow> transition_kind \<Rightarrow> transition_context \<Rightarrow>
     transition_effect list \<Rightarrow> transition_plan_error + transition_plan" where
  "new_plan E op kind ctx effs =
     (let plan = \<lparr>schema_version = 1, operation_id = op, plan_kind = kind, plan_context = ctx,
                  effects = effs, effect_graph_digest = []\<rparr> in
      and_then (validate_shape plan) (\<lambda>_.
      and_then (calculate_digest E plan) (\<lambda>digest.
      Inr (plan\<lparr>effect_graph_digest := digest\<rparr>))))"

definition verify_plan_digest ::
  "('z) plan_env_scheme \<Rightarrow> transition_plan \<Rightarrow> transition_plan_error + unit" where
  "verify_plan_digest E plan =
     and_then (validate_shape plan) (\<lambda>_.
     and_then (calculate_digest E plan) (\<lambda>actual.
     ensure (actual = effect_graph_digest plan)
       (PlanDigestMismatch (effect_graph_digest plan) actual)))"

definition provider_fan_out :: "transition_plan \<Rightarrow> provider_id set" where
  "provider_fan_out plan = (\<Union>eff\<in>set (effects plan). set (provider_views eff))"

section \<open>What a verified plan looks like\<close>

definition effect_ok :: "transition_effect \<Rightarrow> bool" where
  "effect_ok eff \<longleftrightarrow>
     valid_identifier (effect_id eff) \<and> valid_identifier (resource_id eff) \<and>
     valid_identifier (target_type eff) \<and> valid_summary (summary eff) \<and>
     authority eff = UserManaged \<and>
     (\<forall>f. expected_pre_fingerprint eff = Some f \<longrightarrow> is_lower_hex_digest f) \<and>
     (\<forall>f. expected_post_fingerprint eff = Some f \<longrightarrow> is_lower_hex_digest f) \<and>
     expected_pre_fingerprint eff \<noteq> expected_post_fingerprint eff \<and>
     sorted_wrt (<) (provider_views eff)"

lemma validate_effect_ok:
  "validate_effect es rs eff = Inr u \<longleftrightarrow>
     effect_ok eff \<and> effect_id eff \<notin> set es \<and> resource_id eff \<notin> set rs"
  by (auto simp: validate_effect_def effect_ok_def plan_identifier_def plan_digest_def
      try_for_each_ok windows2_less_sorted [symmetric])

lemma validate_effects_ok:
  "validate_effects es rs effs = Inr u \<longleftrightarrow>
     (\<forall>eff\<in>set effs. effect_ok eff) \<and>
     distinct (map effect_id effs) \<and> set (map effect_id effs) \<inter> set es = {} \<and>
     distinct (map resource_id effs) \<and> set (map resource_id effs) \<inter> set rs = {}"
  by (induction effs arbitrary: es rs) (auto simp: validate_effect_ok)

definition shape_ok :: "transition_plan \<Rightarrow> bool" where
  "shape_ok plan \<longleftrightarrow>
     schema_version plan = 1 \<and> valid_identifier (operation_id plan) \<and>
     valid_identifier (repository_key (plan_context plan)) \<and>
     valid_identifier (workspace_key (plan_context plan)) \<and>
     (\<forall>s. session_id (plan_context plan) = Some s \<longrightarrow> valid_identifier s) \<and>
     (\<forall>d. profile_digest (plan_context plan) = Some d \<longrightarrow> is_lower_hex_digest d) \<and>
     effects plan \<noteq> [] \<and> (\<forall>eff\<in>set (effects plan). effect_ok eff) \<and>
     distinct (map effect_id (effects plan)) \<and> distinct (map resource_id (effects plan))"

lemma validate_shape_ok: "validate_shape plan = Inr u \<longleftrightarrow> shape_ok plan"
  by (auto simp: validate_shape_def shape_ok_def plan_identifier_def plan_digest_def
      validate_effects_ok)

lemma verify_plan_ok:
  "verify_plan_digest E plan = Inr u \<longleftrightarrow>
     shape_ok plan \<and> calculate_digest E plan = Inr (effect_graph_digest plan)"
  by (auto simp: verify_plan_digest_def validate_shape_ok)

lemma calculate_digest_cong:
  "calculate_digest E (plan\<lparr>effect_graph_digest := d\<rparr>) = calculate_digest E plan"
  by (simp add: calculate_digest_def)

lemma new_plan_verifies:
  "new_plan E op kind ctx effs = Inr plan \<Longrightarrow> verify_plan_digest E plan = Inr ()"
  by (auto simp: new_plan_def Let_def verify_plan_ok validate_shape_ok calculate_digest_def
      shape_ok_def)

section \<open>Properties\<close>

text \<open>
  A plan verifies exactly when it has the shape the reviewer relies on (valid identifiers, at
  least one effect, each effect user managed, with distinct ids and resources, a real state change
  and canonical provider views) and carries the digest of its own contents.
\<close>

theorem verified_plan_shape:
  "verify_plan_digest E plan = Inr () \<longleftrightarrow>
     shape_ok plan \<and> calculate_digest E plan = Inr (effect_graph_digest plan)"
  by (rule verify_plan_ok)

text \<open>
  A newly built plan verifies and holds the operation, kind, context and effects it was built
  from.
\<close>

theorem new_plan_round_trip:
  "case new_plan E op kind ctx effs of
     Inl _ \<Rightarrow> True
   | Inr plan \<Rightarrow> verify_plan_digest E plan = Inr () \<and> operation_id plan = op \<and>
       plan_kind plan = kind \<and> plan_context plan = ctx \<and> effects plan = effs"
  by (auto split: sum.split dest: new_plan_verifies) (auto simp: new_plan_def Let_def)

end
