(* ===== verification/Atomic_Json.thy ===== *)
theory Atomic_Json
  imports Encoding "HOL-Library.AList"
begin

text \<open>
  The revisioned document store of \<open>state/atomic_json.rs\<close>: one JSON document per path,
  replaced by compare-and-swap on its revision and handed from owner to owner by rising
  generations. A disk is the list of its files; a regular file is its bytes together with
  what \<open>serde_json\<close> reads from them (a library call, so a part of the state). The faults
  of the environment (path resolution, permissions and locks before the file is read, the
  temporary file and the rename, the directory sync after it) are a script the disk carries:
  each operation takes the next entry, and the theorems hold for every script. A regular file whose
  value does not have the type of the store reads as \<open>InvalidJson\<close>; a writer of the code reads the
  current value as any JSON and would still compare revisions there.
\<close>

type_synonym u32 = "32 word"
type_synonym u64 = "64 word"

record owner_generation =
  owner_id :: string
  generation :: u64

record state_revision =
  sequence :: u64
  fingerprint :: string

record 'v state_snapshot =
  snapshot_schema_version :: u32
  snapshot_revision :: state_revision
  snapshot_owner :: owner_generation
  snapshot_value :: 'v

record 'v stored_document =
  doc_schema_version :: u32
  doc_revision :: u64
  doc_owner :: owner_generation
  doc_value :: 'v

datatype state_error =
    StateIo path string
  | InvalidJson path string
  | StateSerialization path string
  | SymlinkRejected path
  | NotRegularFile path
  | InvalidSchemaVersion
  | SchemaVersionMismatch u32 u32
  | InvalidRevision path
  | RevisionOverflow
  | InvalidOwnerGeneration
  | PrivatePermissionsUnsupported path
  | InsecurePrivatePermissions path
  | PhysicalResourceChanged path path
  | CommitUncertain path state_revision string
  | StaleRevision "state_revision option" "state_revision option"
  | StaleOwnerGeneration owner_generation owner_generation
  | LockUnavailable path

datatype 'v node = Regular string "string + 'v stored_document" | Symlink | Special

datatype fault = No_fault | Refused state_error | Precommit state_error | Sync_lost string

record 'v disk =
  files :: "(path \<times> 'v node) list"
  faults :: "fault list"

text \<open>What the store calls outside this repository: SHA-256 and the JSON printer of a document.\<close>

record 'v json_env = hashing +
  render :: "'v stored_document \<Rightarrow> string + string"

section \<open>Owners, schemas and snapshots\<close>

definition validate_owner_generation :: "owner_generation \<Rightarrow> state_error + unit" where
  "validate_owner_generation owner =
     ensure (\<not> (blank (owner_id owner) \<or> generation owner = 0 \<or> generation owner = -1))
       InvalidOwnerGeneration"

definition new_owner :: "string \<Rightarrow> u64 \<Rightarrow> state_error + owner_generation" where
  "new_owner i g =
     (let owner = \<lparr>owner_id = i, generation = g\<rparr> in
      and_then (validate_owner_generation owner) (\<lambda>_. Inr owner))"

definition validate_owner_transition ::
  "owner_generation \<Rightarrow> owner_generation \<Rightarrow> state_error + unit" where
  "validate_owner_transition current requested =
     ensure
       (if owner_id current = owner_id requested then generation current \<le> generation requested
        else generation current < generation requested)
       (StaleOwnerGeneration current requested)"

definition validate_schema_version :: "u32 \<Rightarrow> state_error + unit" where
  "validate_schema_version schema = ensure (schema \<noteq> 0) InvalidSchemaVersion"

definition validate_compatible_schemas :: "u32 \<Rightarrow> u32 list \<Rightarrow> state_error + unit" where
  "validate_compatible_schemas current compatible =
     ensure (\<not> list_ex (\<lambda>schema. schema = 0 \<or> schema = current) compatible) InvalidSchemaVersion"

definition raw_fingerprint :: "('v, 'z) json_env_scheme \<Rightarrow> string \<Rightarrow> string" where
  "raw_fingerprint E bytes = ''sha256:'' @ encode_lower_hex (sha256 E bytes)"

definition read_snapshot_compatible ::
  "('v, 'z) json_env_scheme \<Rightarrow> path \<Rightarrow> u32 \<Rightarrow> u32 list \<Rightarrow> (path \<times> 'v node) list \<Rightarrow>
     state_error + 'v state_snapshot option" where
  "read_snapshot_compatible E p expected_schema compatible_schemas fs =
     (case map_of fs p of
        None \<Rightarrow> Inr None
      | Some Symlink \<Rightarrow> Inl (SymlinkRejected p)
      | Some Special \<Rightarrow> Inl (NotRegularFile p)
      | Some (Regular raw (Inl message)) \<Rightarrow> Inl (InvalidJson p message)
      | Some (Regular raw (Inr document)) \<Rightarrow>
          and_then (ensure (doc_schema_version document = expected_schema \<or>
                            doc_schema_version document \<in> set compatible_schemas)
                      (SchemaVersionMismatch expected_schema (doc_schema_version document))) (\<lambda>_.
          and_then (ensure (doc_revision document \<noteq> 0) (InvalidRevision p)) (\<lambda>_.
          and_then (validate_owner_generation (doc_owner document)) (\<lambda>_.
          Inr (Some \<lparr>snapshot_schema_version = doc_schema_version document,
                     snapshot_revision =
                       \<lparr>sequence = doc_revision document, fingerprint = raw_fingerprint E raw\<rparr>,
                     snapshot_owner = doc_owner document,
                     snapshot_value = doc_value document\<rparr>)))))"

definition read_snapshot ::
  "('v, 'z) json_env_scheme \<Rightarrow> path \<Rightarrow> u32 \<Rightarrow> (path \<times> 'v node) list \<Rightarrow>
     state_error + 'v state_snapshot option" where
  "read_snapshot E p expected_schema fs = read_snapshot_compatible E p expected_schema [] fs"

section \<open>The operations of the store\<close>

text \<open>Everything an operation does before it reads the file: resolve, check, lock.\<close>

definition access :: "('v disk, state_error, fault) exec" where
  "access d =
     (case faults d of
        [] \<Rightarrow> (Inr No_fault, d)
      | Refused e # rest \<Rightarrow> (Inl e, d\<lparr>faults := rest\<rparr>)
      | f # rest \<Rightarrow> (Inr f, d\<lparr>faults := rest\<rparr>))"

definition load_compatible ::
  "('v, 'z) json_env_scheme \<Rightarrow> u32 \<Rightarrow> u32 list \<Rightarrow> path \<Rightarrow>
     ('v disk, state_error, 'v state_snapshot option) exec" where
  "load_compatible E schema compatible p =
     bind_exec (pure_exec (validate_schema_version schema)) (\<lambda>_.
     bind_exec (pure_exec (validate_compatible_schemas schema compatible)) (\<lambda>_.
     bind_exec access (\<lambda>_ d.
       (read_snapshot_compatible E p schema compatible (files d), d))))"

definition load ::
  "('v, 'z) json_env_scheme \<Rightarrow> u32 \<Rightarrow> path \<Rightarrow>
     ('v disk, state_error, 'v state_snapshot option) exec" where
  "load E schema p =
     bind_exec (pure_exec (validate_schema_version schema)) (\<lambda>_.
     bind_exec access (\<lambda>_ d. (read_snapshot E p schema (files d), d)))"

text \<open>
  \<open>write_atomically\<close>: the bytes go to a temporary file that replaces the old one; a failure
  before the rename leaves the old document, a failed directory sync after it leaves the new
  one and reports the commit as uncertain.
\<close>

definition write_atomically ::
  "path \<Rightarrow> string \<Rightarrow> 'v stored_document \<Rightarrow> state_revision \<Rightarrow> fault \<Rightarrow>
     ('v disk, state_error, unit) exec" where
  "write_atomically p raw document candidate f d =
     (let written = d\<lparr>files := AList.update p (Regular raw (Inr document)) (files d)\<rparr> in
      case f of
        Precommit e \<Rightarrow> (Inl e, d)
      | Sync_lost message \<Rightarrow> (Inl (CommitUncertain p candidate message), written)
      | _ \<Rightarrow> (Inr (), written))"

definition write_document ::
  "('v, 'z) json_env_scheme \<Rightarrow> path \<Rightarrow> u32 \<Rightarrow> u64 \<Rightarrow> owner_generation \<Rightarrow> 'v \<Rightarrow> fault \<Rightarrow>
     ('v disk, state_error, state_revision) exec" where
  "write_document E p schema seq owner v f =
     (let document = \<lparr>doc_schema_version = schema, doc_revision = seq, doc_owner = owner,
                      doc_value = v\<rparr> in
      bind_exec (pure_exec (map_err (StateSerialization p) (render E document))) (\<lambda>serialized.
      (let raw = serialized @ [CHR 0x0A];
           candidate = \<lparr>sequence = seq, fingerprint = raw_fingerprint E raw\<rparr> in
       bind_exec (write_atomically p raw document candidate f) (\<lambda>_.
       pure_exec (Inr candidate)))))"

definition next_sequence :: "'v state_snapshot option \<Rightarrow> state_error + u64" where
  "next_sequence current =
     (case current of
        None \<Rightarrow> Inr 1
      | Some snapshot \<Rightarrow>
          and_then (ensure (sequence (snapshot_revision snapshot) \<noteq> -1) RevisionOverflow)
            (\<lambda>_. Inr (sequence (snapshot_revision snapshot) + 1)))"

definition compare_and_swap ::
  "('v, 'z) json_env_scheme \<Rightarrow> u32 \<Rightarrow> path \<Rightarrow> state_revision option \<Rightarrow> owner_generation \<Rightarrow> 'v \<Rightarrow>
     ('v disk, state_error, state_revision) exec" where
  "compare_and_swap E schema p expected owner v =
     bind_exec (pure_exec (validate_schema_version schema)) (\<lambda>_.
     bind_exec (pure_exec (validate_owner_generation owner)) (\<lambda>_.
     bind_exec access (\<lambda>f d.
     bind_exec (pure_exec (read_snapshot E p schema (files d))) (\<lambda>current.
     (let actual = map_option snapshot_revision current in
     bind_exec (pure_exec (ensure (expected = actual) (StaleRevision expected actual))) (\<lambda>_.
     bind_exec (pure_exec (if_some current (\<lambda>snapshot.
                  validate_owner_transition (snapshot_owner snapshot) owner))) (\<lambda>_.
     bind_exec (pure_exec (next_sequence current)) (\<lambda>seq.
     write_document E p schema seq owner v f))))) d)))"

definition compare_and_swap_migrating_schema ::
  "('v, 'z) json_env_scheme \<Rightarrow> u32 \<Rightarrow> path \<Rightarrow> state_revision \<Rightarrow> u32 \<Rightarrow> owner_generation \<Rightarrow> 'v \<Rightarrow>
     ('v disk, state_error, state_revision) exec" where
  "compare_and_swap_migrating_schema E schema p expected expected_schema owner v =
     bind_exec (pure_exec (validate_schema_version schema)) (\<lambda>_.
     bind_exec (pure_exec (validate_compatible_schemas schema [expected_schema])) (\<lambda>_.
     bind_exec (pure_exec (validate_owner_generation owner)) (\<lambda>_.
     bind_exec access (\<lambda>f d.
     bind_exec (pure_exec (read_snapshot E p expected_schema (files d))) (\<lambda>found.
     bind_exec (pure_exec (ok_or found (StaleRevision (Some expected) None))) (\<lambda>current.
     bind_exec (pure_exec (ensure (snapshot_revision current = expected)
                  (StaleRevision (Some expected) (Some (snapshot_revision current))))) (\<lambda>_.
     bind_exec (pure_exec (validate_owner_transition (snapshot_owner current) owner)) (\<lambda>_.
     bind_exec (pure_exec (next_sequence (Some current))) (\<lambda>seq.
     write_document E p schema seq owner v f))))) d))))"

definition remove_file :: "path \<Rightarrow> fault \<Rightarrow> ('v disk, state_error, unit) exec" where
  "remove_file p f d =
     (let removed = d\<lparr>files := AList.delete p (files d)\<rparr> in
      case f of
        Precommit e \<Rightarrow> (Inl e, d)
      | Sync_lost message \<Rightarrow> (Inl (StateIo (butlast p) message), removed)
      | _ \<Rightarrow> (Inr (), removed))"

definition remove_if_revision_compatible ::
  "('v, 'z) json_env_scheme \<Rightarrow> u32 \<Rightarrow> path \<Rightarrow> state_revision \<Rightarrow> u32 list \<Rightarrow>
     ('v disk, state_error, unit) exec" where
  "remove_if_revision_compatible E schema p expected compatible =
     bind_exec (pure_exec (validate_schema_version schema)) (\<lambda>_.
     bind_exec (pure_exec (validate_compatible_schemas schema compatible)) (\<lambda>_.
     bind_exec access (\<lambda>f d.
     bind_exec (pure_exec (read_snapshot_compatible E p schema compatible (files d))) (\<lambda>current.
     (let actual = map_option snapshot_revision current in
     bind_exec (pure_exec (ensure (actual = Some expected)
                  (StaleRevision (Some expected) actual))) (\<lambda>_.
     remove_file p f))) d)))"

definition remove_if_revision ::
  "('v, 'z) json_env_scheme \<Rightarrow> u32 \<Rightarrow> path \<Rightarrow> state_revision \<Rightarrow> ('v disk, state_error, unit) exec" where
  "remove_if_revision E schema p expected =
     bind_exec (pure_exec (validate_schema_version schema)) (\<lambda>_.
     bind_exec access (\<lambda>f d.
     bind_exec (pure_exec (read_snapshot E p schema (files d))) (\<lambda>current.
     (let actual = map_option snapshot_revision current in
     bind_exec (pure_exec (ensure (actual = Some expected)
                  (StaleRevision (Some expected) actual))) (\<lambda>_.
     remove_file p f))) d))"

section \<open>What the operations guarantee\<close>

abbreviation stored ::
  "('v, 'z) json_env_scheme \<Rightarrow> u32 \<Rightarrow> 'v disk \<Rightarrow> path \<Rightarrow> state_error + 'v state_snapshot option" where
  "stored E schema d p \<equiv> read_snapshot E p schema (files d)"

abbreviation snapshot_of ::
  "u32 \<Rightarrow> state_revision \<Rightarrow> owner_generation \<Rightarrow> 'v \<Rightarrow> 'v state_snapshot" where
  "snapshot_of schema r owner v \<equiv>
     \<lparr>snapshot_schema_version = schema, snapshot_revision = r, snapshot_owner = owner,
      snapshot_value = v\<rparr>"

lemma access_result:
  "access d = (r, t) \<Longrightarrow> files t = files d \<and> (\<forall>f. r = Inr f \<longrightarrow> (\<forall>e. f \<noteq> Refused e))"
  by (auto simp: access_def split: list.splits fault.splits)

lemma access_no_fault [simp]: "faults d = [] \<Longrightarrow> access d = (Inr No_fault, d)"
  by (simp add: access_def)

lemma load_files: "load E schema p d = (r, t) \<Longrightarrow> files t = files d"
  by (auto simp: load_def bind_exec_result dest: access_result)

lemma load_ok:
  "load E schema p d = (Inr s, t) \<Longrightarrow> files t = files d \<and> stored E schema d p = Inr s"
  by (auto simp: load_def bind_exec_ok dest!: access_result)

lemma load_no_fault:
  "faults d = [] \<Longrightarrow> schema \<noteq> 0 \<Longrightarrow> load E schema p d = (stored E schema d p, d)"
  by (simp add: load_def bind_exec_def pure_exec_def validate_schema_version_def)

lemma read_snapshot_cong:
  "map_of fs p = map_of gs p \<Longrightarrow> read_snapshot E p schema fs = read_snapshot E p schema gs"
  by (simp add: read_snapshot_def read_snapshot_compatible_def)

lemma read_snapshot_schema:
  assumes "read_snapshot E p schema fs = Inr (Some s)"
  shows "snapshot_schema_version s = schema" "sequence (snapshot_revision s) \<noteq> 0"
    "validate_owner_generation (snapshot_owner s) = Inr ()"
  using assms
  by (auto simp: read_snapshot_def read_snapshot_compatible_def
      split: option.splits node.splits sum.splits)

lemma map_of_update [simp]: "map_of (AList.update p x fs) q = (if q = p then Some x else map_of fs q)"
  by (simp add: AList.update_conv')

lemma map_of_delete [simp]: "map_of (AList.delete p fs) q = (if q = p then None else map_of fs q)"
  by (simp add: AList.delete_conv')

lemma stored_after_write:
  assumes "map_of (files t) p = Some (Regular raw (Inr \<lparr>doc_schema_version = schema,
      doc_revision = seq, doc_owner = owner, doc_value = v\<rparr>))"
    and "seq \<noteq> 0" "validate_owner_generation owner = Inr ()"
  shows "stored E schema t p =
    Inr (Some (snapshot_of schema \<lparr>sequence = seq, fingerprint = raw_fingerprint E raw\<rparr> owner v))"
  using assms by (simp add: read_snapshot_def read_snapshot_compatible_def)

lemma write_document_result:
  assumes w: "write_document E p schema seq owner v f d = (r, t)"
    and ok: "seq \<noteq> 0" "validate_owner_generation owner = Inr ()"
  shows "(files t = files d \<and> (\<exists>e. r = Inl e)) \<or>
    (\<exists>rv. sequence rv = seq \<and> (r = Inr rv \<or> (\<exists>m. r = Inl (CommitUncertain p rv m))) \<and>
       stored E schema t p = Inr (Some (snapshot_of schema rv owner v)) \<and>
       (\<forall>q. q \<noteq> p \<longrightarrow> map_of (files t) q = map_of (files d) q))"
proof -
  let ?doc = "\<lparr>doc_schema_version = schema, doc_revision = seq, doc_owner = owner, doc_value = v\<rparr>"
  show ?thesis
  proof (cases "render E ?doc")
    case (Inl m)
    with w show ?thesis by (auto simp: write_document_def bind_exec_def pure_exec_def)
  next
    case (Inr serialized)
    let ?raw = "serialized @ [CHR 0x0A]"
    let ?rv = "\<lparr>sequence = seq, fingerprint = raw_fingerprint E ?raw\<rparr>"
    let ?t = "d\<lparr>files := AList.update p (Regular ?raw (Inr ?doc)) (files d)\<rparr>"
    have st: "stored E schema ?t p = Inr (Some (snapshot_of schema ?rv owner v))"
      using ok by (intro stored_after_write) simp_all
    from w Inr have "(t = d \<and> (\<exists>e. r = Inl e)) \<or>
        (t = ?t \<and> (r = Inr ?rv \<or> (\<exists>m. r = Inl (CommitUncertain p ?rv m))))"
      by (cases f) (simp_all add: write_document_def bind_exec_def pure_exec_def Let_def
          write_atomically_def, blast+)
    then show ?thesis
    proof (elim disjE conjE)
      assume "t = ?t" "r = Inr ?rv"
      with st show ?thesis by (intro disjI2 exI [of _ ?rv]) simp
    next
      assume "t = ?t" "\<exists>m. r = Inl (CommitUncertain p ?rv m)"
      with st show ?thesis by (intro disjI2 exI [of _ ?rv]) simp
    qed simp
  qed
qed

lemma next_sequence_ok:
  assumes "next_sequence current = Inr seq"
    and "\<forall>s. current = Some s \<longrightarrow> sequence (snapshot_revision s) \<noteq> 0"
  shows "seq \<noteq> 0"
    "current = Some s \<Longrightarrow> unat seq = Suc (unat (sequence (snapshot_revision s)))"
    "current = None \<Longrightarrow> seq = 1"
proof -
  show "current = Some s \<Longrightarrow> unat seq = Suc (unat (sequence (snapshot_revision s)))"
    using assms(1) by (auto simp: next_sequence_def unat_plus_one)
  show "current = None \<Longrightarrow> seq = 1" using assms(1) by (simp add: next_sequence_def)
  show "seq \<noteq> 0" using assms(1)
    by (auto simp: next_sequence_def word_plus_one_eq_0 split: option.splits)
qed

text \<open>
  The four outcomes of a compare-and-swap: it was refused and nothing changed, it stopped before the
  commit, it committed, or it committed without being able to say so.
\<close>

lemma compare_and_swap_result:
  assumes "compare_and_swap E schema p expected owner v d = (r, t)"
  shows "(files t = files d \<and> (\<exists>e. r = Inl e)) \<or>
    (\<exists>current seq rv.
       stored E schema d p = Inr current \<and> expected = map_option snapshot_revision current \<and>
       next_sequence current = Inr seq \<and> seq \<noteq> 0 \<and> sequence rv = seq \<and>
       validate_owner_generation owner = Inr () \<and>
       (\<forall>s. current = Some s \<longrightarrow> validate_owner_transition (snapshot_owner s) owner = Inr ()) \<and>
       (r = Inr rv \<or> (\<exists>m. r = Inl (CommitUncertain p rv m))) \<and>
       stored E schema t p = Inr (Some (snapshot_of schema rv owner v)) \<and>
       (\<forall>q. q \<noteq> p \<longrightarrow> map_of (files t) q = map_of (files d) q))"
proof (cases "files t = files d \<and> (\<exists>e. r = Inl e)")
  case False
  with assms obtain f d' current seq where
    a: "validate_schema_version schema = Inr ()" "validate_owner_generation owner = Inr ()"
      "access d = (Inr f, d')" "stored E schema d' p = Inr current"
      "expected = map_option snapshot_revision current"
      "\<forall>s. current = Some s \<longrightarrow> validate_owner_transition (snapshot_owner s) owner = Inr ()"
      "next_sequence current = Inr seq"
    and w: "write_document E p schema seq owner v f d' = (r, t)"
    unfolding compare_and_swap_def
    by (auto simp: bind_exec_result Let_def dest: access_result)
  have d': "files d' = files d" using access_result [OF a(3)] by simp
  have "\<forall>s. current = Some s \<longrightarrow> sequence (snapshot_revision s) \<noteq> 0"
    using a(4) read_snapshot_schema(2) by blast
  then have ns: "seq \<noteq> 0"
    by (rule next_sequence_ok(1) [OF a(7)])
  from write_document_result [OF w ns a(2)] False d' a ns show ?thesis by auto
qed simp

lemma compare_and_swap_files:
  "compare_and_swap E schema p expected owner v d = (r, t) \<Longrightarrow> q \<noteq> p \<Longrightarrow>
     map_of (files t) q = map_of (files d) q"
  by (drule compare_and_swap_result) auto

lemma compare_and_swap_ok:
  assumes "compare_and_swap E schema p expected owner v d = (Inr rv, t)"
  shows "stored E schema t p = Inr (Some (snapshot_of schema rv owner v))"
    "\<exists>current. stored E schema d p = Inr current \<and> expected = map_option snapshot_revision current"
    "expected = None \<Longrightarrow> sequence rv = 1"
    "expected = Some old \<Longrightarrow> unat (sequence rv) = Suc (unat (sequence old))"
proof -
  obtain current where c: "stored E schema d p = Inr current"
      "expected = map_option snapshot_revision current" "next_sequence current = Inr (sequence rv)"
      "stored E schema t p = Inr (Some (snapshot_of schema rv owner v))"
    using compare_and_swap_result [OF assms] by auto
  then show "stored E schema t p = Inr (Some (snapshot_of schema rv owner v))"
    "\<exists>current. stored E schema d p = Inr current \<and> expected = map_option snapshot_revision current"
    by auto
  have nz: "\<forall>s. current = Some s \<longrightarrow> sequence (snapshot_revision s) \<noteq> 0"
    using c(1) read_snapshot_schema(2) by blast
  show "expected = None \<Longrightarrow> sequence rv = 1" using next_sequence_ok(3) [OF c(3) nz] c(2) by simp
  show "expected = Some old \<Longrightarrow> unat (sequence rv) = Suc (unat (sequence old))"
    using next_sequence_ok(2) [OF c(3) nz] c(2) by auto
qed

lemma remove_file_files:
  "remove_file p f d = (r, t) \<Longrightarrow>
     map_of (files t) q = map_of (files d) q \<or> (q = p \<and> map_of (files t) q = None)"
  by (auto simp: remove_file_def Let_def split: fault.splits if_splits)

lemma remove_if_revision_files:
  assumes "remove_if_revision E schema p x d = (r, t)"
  shows "map_of (files t) q = map_of (files d) q \<or> (q = p \<and> map_of (files t) q = None)"
  using assms unfolding remove_if_revision_def bind_exec_result Let_def pure_exec_result
  by (auto dest!: access_result remove_file_files [where q = q])

lemma compare_and_swap_stale:
  "compare_and_swap E schema p expected owner v d = (Inl (StaleRevision x y), t) \<Longrightarrow>
     files t = files d"
  by (drule compare_and_swap_result) auto

lemma compare_and_swap_no_fault:
  assumes "faults d = []" "schema \<noteq> 0" "validate_owner_generation owner = Inr ()"
    and "stored E schema d p = Inr current" "expected = map_option snapshot_revision current"
    and "\<forall>s. current = Some s \<longrightarrow> validate_owner_transition (snapshot_owner s) owner = Inr () \<and>
           sequence (snapshot_revision s) \<noteq> -1"
    and "\<forall>doc. \<exists>raw. render E doc = Inr raw"
  shows "\<exists>rv t. compare_and_swap E schema p expected owner v d = (Inr rv, t) \<and> faults t = []"
proof -
  from assms(6) obtain seq where "next_sequence current = Inr seq"
    by (cases current) (auto simp: next_sequence_def)
  moreover obtain raw where "render E \<lparr>doc_schema_version = schema, doc_revision = seq,
      doc_owner = owner, doc_value = v\<rparr> = Inr raw"
    using assms(7) by blast
  moreover have "if_some current (\<lambda>snapshot. validate_owner_transition (snapshot_owner snapshot) owner)
      = Inr ()"
    using assms(6) by simp
  ultimately show ?thesis using assms(1-5)
    by (simp add: compare_and_swap_def bind_exec_def pure_exec_def validate_schema_version_def
        Let_def write_document_def write_atomically_def del: if_some_ok)
qed

section \<open>The interface the clients of the store rely on\<close>

text \<open>
  A register per key with compare-and-swap on its revision. \<open>held\<close> is what a reader finds,
  \<open>height\<close> orders revisions, \<open>handover\<close> says which owner may follow which. A swap that
  reports an error has changed nothing or has committed without being able to say so.
\<close>

locale cas_register =
  fixes held :: "'s \<Rightarrow> 'k \<Rightarrow> ('r \<times> 'o \<times> 'v) option"
    and swap :: "'k \<Rightarrow> 'r option \<Rightarrow> 'o \<Rightarrow> 'v \<Rightarrow> 's \<Rightarrow> ('e + 'r) \<times> 's"
    and height :: "'r \<Rightarrow> nat"
  assumes swap_expected: "swap k x ow v s = (Inr r, t) \<Longrightarrow> map_option fst (held s k) = x"
    and swap_stored: "swap k x ow v s = (Inr r, t) \<Longrightarrow> held t k = Some (r, ow, v)"
    and swap_effect: "swap k x ow v s = (res, t) \<Longrightarrow> held t k \<noteq> held s k \<Longrightarrow>
      \<exists>r. held t k = Some (r, ow, v) \<and> (\<forall>old. map_option fst (held s k) = Some old \<longrightarrow> height old < height r)"
    and swap_rises: "swap k x ow v s = (Inr r, t) \<Longrightarrow> map_option fst (held s k) = Some old \<Longrightarrow>
      height old < height r"
    and swap_other: "swap k x ow v s = (res, t) \<Longrightarrow> j \<noteq> k \<Longrightarrow> held t j = held s j"

text \<open>Any interleaving of writers: their calls in the order the store's lock admits them.\<close>

fun run_swaps ::
  "('k \<Rightarrow> 'r option \<Rightarrow> 'o \<Rightarrow> 'v \<Rightarrow> 's \<Rightarrow> ('e + 'r) \<times> 's) \<Rightarrow>
     ('k \<times> 'r option \<times> 'o \<times> 'v) list \<Rightarrow> 's \<Rightarrow> 's" where
  "run_swaps swap [] s = s"
| "run_swaps swap ((k, x, ow, v) # ops) s = run_swaps swap ops (snd (swap k x ow v s))"

context cas_register begin

lemma swap_step:
  "held (snd (swap k x ow v s)) j = held s j \<or>
   (\<exists>r. held (snd (swap k x ow v s)) j = Some (r, ow, v) \<and>
      (\<forall>old. map_option fst (held s j) = Some old \<longrightarrow> height old < height r))"
  using swap_effect [of k x ow v s "fst (swap k x ow v s)" "snd (swap k x ow v s)"]
    swap_other [of k x ow v s "fst (swap k x ow v s)" "snd (swap k x ow v s)" j]
  by (cases "j = k") auto

lemma run_rises:
  "held s k = Some (r, ow, v) \<Longrightarrow>
   held (run_swaps swap ops s) k = Some (r, ow, v) \<or>
   (\<exists>r' z. held (run_swaps swap ops s) k = Some (r', z) \<and> height r < height r')"
proof (induction ops arbitrary: s r ow v)
  case (Cons a ops)
  obtain j x w u where a: "a = (j, x, w, u)" by (cases a) auto
  let ?s = "snd (swap j x w u s)"
  consider "held ?s k = held s k"
    | q where "held ?s k = Some (q, w, u)" "height r < height q"
    using swap_step [of j x w u s k] Cons.prems by auto
  then show ?case
  proof cases
    case 1
    with Cons.IH [of ?s] Cons.prems a show ?thesis by simp
  next
    case 2
    with Cons.IH [of ?s q w u] a show ?thesis by (auto dest: less_trans)
  qed
qed simp

text \<open>A revision that was overwritten never becomes current again.\<close>

lemma overwritten_stays_stale:
  assumes "held s k = Some (r, ow, v)" and "held (run_swaps swap ops s) k \<noteq> Some (r, ow, v)"
  shows "map_option fst (held (run_swaps swap ops s) k) \<noteq> Some r"
  using run_rises [OF assms(1), of ops] assms(2) by auto

lemma no_lost_update:
  assumes "held s k = Some (r, ow, v)" and "held (run_swaps swap ops s) k \<noteq> Some (r, ow, v)"
  shows "\<exists>e. fst (swap k (Some r) w u (run_swaps swap ops s)) = Inl e"
proof -
  have "res \<noteq> Inr q" if "swap k (Some r) w u (run_swaps swap ops s) = (res, t)" for res t q
    using swap_expected overwritten_stays_stale [OF assms] that by blast
  then show ?thesis by (metis prod.collapse sum.exhaust)
qed

lemma second_swap_fails:
  assumes "swap k x ow v s = (Inr r, t)"
  shows "\<exists>e. fst (swap k x w u (run_swaps swap ops t)) = Inl e"
proof -
  have h: "held t k = Some (r, ow, v)" using assms by (rule swap_stored)
  have x: "x = map_option fst (held s k)" using swap_expected [OF assms] by simp
  have "x = Some old \<Longrightarrow> height old < height r" for old
    using swap_rises [OF assms] x by simp
  with run_rises [OF h, of ops] have "map_option fst (held (run_swaps swap ops t) k) \<noteq> x"
    by (cases x) (auto dest: less_trans)
  then have "res \<noteq> Inr q" if "swap k x w u (run_swaps swap ops t) = (res, t')" for res t' q
    using swap_expected that by blast
  then show ?thesis by (metis prod.collapse sum.exhaust)
qed

end

locale fenced_register = cas_register +
  fixes handover :: "'c \<Rightarrow> 'c \<Rightarrow> bool"
  assumes handover_refl: "handover a a"
    and handover_trans: "handover a b \<Longrightarrow> handover b c \<Longrightarrow> handover a c"
    and swap_handover: "swap k x ow v s = (res, t) \<Longrightarrow> held s k = Some (r, a, u) \<Longrightarrow>
      held t k = Some (r', b, u') \<Longrightarrow> handover a b"
begin

lemma run_handover:
  "held s k = Some (r, a, v) \<Longrightarrow>
   \<exists>r' b v'. held (run_swaps swap ops s) k = Some (r', b, v') \<and> handover a b"
proof (induction ops arbitrary: s r a v)
  case Nil
  then show ?case by (auto intro: handover_refl)
next
  case (Cons op ops)
  obtain j x w u where op: "op = (j, x, w, u)" by (cases op) auto
  let ?s = "snd (swap j x w u s)"
  have eq: "swap j x w u s = (fst (swap j x w u s), ?s)" by simp
  obtain r' b v' where s': "held ?s k = Some (r', b, v')"
    using swap_step [of j x w u s k] Cons.prems by (cases "held ?s k") auto
  have "handover a b"
  proof (cases "k = j")
    case True
    then show ?thesis using swap_handover [OF eq] Cons.prems s' by simp
  next
    case False
    with swap_other [OF eq] Cons.prems s' handover_refl show ?thesis by simp
  qed
  with Cons.IH [OF s'] op show ?case by (auto intro: handover_trans)
qed

end

text \<open>The document store is such a register.\<close>

definition held ::
  "('v, 'z) json_env_scheme \<Rightarrow> u32 \<Rightarrow> 'v disk \<Rightarrow> path \<Rightarrow>
     (state_revision \<times> owner_generation \<times> 'v) option" where
  "held E schema d p =
     (case stored E schema d p of
        Inr (Some s) \<Rightarrow> Some (snapshot_revision s, snapshot_owner s, snapshot_value s)
      | _ \<Rightarrow> None)"

text \<open>Ownership moves forward: the same owner in no older generation, or another one in a newer one.\<close>

definition may_follow :: "owner_generation \<Rightarrow> owner_generation \<Rightarrow> bool" where
  "may_follow a b \<longleftrightarrow>
     owner_id b = owner_id a \<and> unat (generation a) \<le> unat (generation b) \<or>
     unat (generation a) < unat (generation b)"

lemma owner_transition_forward: "validate_owner_transition a b = Inr () \<longleftrightarrow> may_follow a b"
  by (auto simp: validate_owner_transition_def may_follow_def word_le_nat_alt word_less_nat_alt split: if_splits)

lemma held_cong: "map_of (files s) p = map_of (files t) p \<Longrightarrow> held E schema s p = held E schema t p"
  using read_snapshot_cong [of "files s" p "files t" E schema] by (simp add: held_def)

lemma held_Some:
  "stored E schema d p = Inr (Some s) \<Longrightarrow>
     held E schema d p = Some (snapshot_revision s, snapshot_owner s, snapshot_value s)"
  by (simp add: held_def)

lemma may_follow_refl: "may_follow a a"
  by (simp add: may_follow_def)

lemma may_follow_trans: "may_follow a b \<Longrightarrow> may_follow b c \<Longrightarrow> may_follow a c"
  by (auto simp: may_follow_def)

lemma compare_and_swap_held:
  assumes "compare_and_swap E schema p x owner v d = (res, t)"
  shows "held E schema t p = held E schema d p \<and> (\<exists>e. res = Inl e) \<or>
    (\<exists>rv. held E schema t p = Some (rv, owner, v) \<and> x = map_option fst (held E schema d p) \<and>
       (res = Inr rv \<or> (\<exists>e. res = Inl e)) \<and>
       (\<forall>old. x = Some old \<longrightarrow> unat (sequence old) < unat (sequence rv)) \<and>
       (\<forall>r a u. held E schema d p = Some (r, a, u) \<longrightarrow> may_follow a owner))"
proof (cases "files t = files d \<and> (\<exists>e. res = Inl e)")
  case True
  then show ?thesis using held_cong [of t p d] by auto
next
  case False
  then obtain current seq rv where a: "stored E schema d p = Inr current"
      "x = map_option snapshot_revision current" "next_sequence current = Inr seq"
      "sequence rv = seq"
      "\<forall>s. current = Some s \<longrightarrow> validate_owner_transition (snapshot_owner s) owner = Inr ()"
      "stored E schema t p = Inr (Some (snapshot_of schema rv owner v))"
    and r: "res = Inr rv \<or> (\<exists>e. res = Inl e)"
    using compare_and_swap_result [OF assms] by auto
  have x: "x = map_option fst (held E schema d p)"
    using a(1,2) by (cases current) (simp_all add: held_def)
  have nz: "\<forall>s. current = Some s \<longrightarrow> sequence (snapshot_revision s) \<noteq> 0"
    using a(1) read_snapshot_schema(2) by blast
  have "\<forall>old. x = Some old \<longrightarrow> unat (sequence old) < unat (sequence rv)"
    using next_sequence_ok(2) [OF a(3) nz] a(2,4) by auto
  moreover have "\<forall>r a u. held E schema d p = Some (r, a, u) \<longrightarrow> may_follow a owner"
    using a(1,5) by (cases current) (auto simp: held_def owner_transition_forward)
  ultimately show ?thesis using held_Some [OF a(6)] x r by auto
qed

interpretation store: fenced_register "held E schema"
  "compare_and_swap E schema" "\<lambda>r. unat (sequence r)" may_follow
  for E schema
proof (unfold_locales, goal_cases)
  case (1 k x ow v s r t)
  then show ?case using compare_and_swap_held [of E schema k x ow v s] by auto
next
  case (2 k x ow v s r t)
  then show ?case using compare_and_swap_held [of E schema k x ow v s] by auto
next
  case (3 k x ow v s res t)
  then show ?case using compare_and_swap_held [OF 3(1)] by auto
next
  case (4 k x ow v s r t old)
  then show ?case using compare_and_swap_held [OF 4(1)] by auto
next
  case (5 k x ow v s res t j)
  then show ?case by (intro held_cong compare_and_swap_files)
next
  case (6 a)
  show ?case by (rule may_follow_refl)
next
  case (7 a b c)
  then show ?case by (rule may_follow_trans)
next
  case (8 k x ow v s res t r a u r' b u')
  then show ?case using compare_and_swap_held [OF 8(1)] by (auto intro: may_follow_refl)
qed

section \<open>Properties\<close>

text \<open>
  C8: Of two writers that expect the same revision at most one succeeds, whatever other swaps run
  between them and whatever faults the environment injects: no update is lost.
\<close>

theorem at_most_one_writer_wins:
  "\<not> (\<exists>won. fst (compare_and_swap E schema k x ow v s) = Inr won \<and>
      (\<exists>won'. fst (compare_and_swap E schema k x ow' v'
         (run_swaps (compare_and_swap E schema) ops (snd (compare_and_swap E schema k x ow v s)))) =
         Inr won'))"
proof
  assume "\<exists>won. fst (compare_and_swap E schema k x ow v s) = Inr won \<and>
      (\<exists>won'. fst (compare_and_swap E schema k x ow' v'
         (run_swaps (compare_and_swap E schema) ops (snd (compare_and_swap E schema k x ow v s)))) =
         Inr won')"
  then obtain won t where "compare_and_swap E schema k x ow v s = (Inr won, t)"
    "\<exists>won'. fst (compare_and_swap E schema k x ow' v'
         (run_swaps (compare_and_swap E schema) ops t)) = Inr won'"
    by (cases "compare_and_swap E schema k x ow v s") auto
  with store.second_swap_fails [OF this(1)] show False by (metis Inl_Inr_False)
qed

text \<open>
  C9: Ownership of a document only moves forward: whatever swaps run, and whatever faults the
  environment injects, the document stays, its generation never falls, and it rises whenever the
  owner is another one. A swap by an owner of an older generation, or by another owner of the same
  one, does not succeed.
\<close>

theorem ownership_only_moves_forward:
  "case held E schema s k of
     None \<Rightarrow> True
   | Some (r, a, v) \<Rightarrow>
       (\<exists>r' b v'. held E schema (run_swaps (compare_and_swap E schema) ops s) k = Some (r', b, v') \<and>
          unat (generation a) \<le> unat (generation b) \<and>
          (if owner_id b = owner_id a then True else unat (generation a) < unat (generation b)) \<and>
          (if (if owner_id next = owner_id b then unat (generation next) < unat (generation b)
               else unat (generation next) \<le> unat (generation b))
           then \<not> (\<exists>won t. compare_and_swap E schema k x next v''
             (run_swaps (compare_and_swap E schema) ops s) = (Inr won, t))
           else True))"
proof (cases "held E schema s k")
  case (Some h)
  obtain r a v where h: "h = (r, a, v)" by (cases h) auto
  let ?t = "run_swaps (compare_and_swap E schema) ops s"
  from Some h store.run_handover [of E schema s k r a v ops] obtain r' b v' where
    t: "held E schema ?t k = Some (r', b, v')" "may_follow a b" by auto
  have "may_follow b next" if "compare_and_swap E schema k x next v'' ?t = (Inr won, u)" for won u
    using compare_and_swap_held [OF that] t(1) by auto
  then have "\<not> (\<exists>won u. compare_and_swap E schema k x next v'' ?t = (Inr won, u))"
    if "if owner_id next = owner_id b then unat (generation next) < unat (generation b)
      else unat (generation next) \<le> unat (generation b)"
    using that by (auto simp: may_follow_def split: if_splits)
  with t Some h show ?thesis by (auto simp: may_follow_def)
qed simp

text \<open>
  C10: A swap on a store without faults, by an owner that may take over, with the revision it read
  and a document that renders, succeeds.
\<close>

theorem compare_and_swap_succeeds:
  assumes "faults d = []" "schema \<noteq> 0" "validate_owner_generation owner = Inr ()"
    and "stored E schema d p = Inr current" "expected = map_option snapshot_revision current"
    and "\<forall>s. current = Some s \<longrightarrow> validate_owner_transition (snapshot_owner s) owner = Inr () \<and>
           sequence (snapshot_revision s) \<noteq> -1"
    and "\<forall>doc. \<exists>raw. render E doc = Inr raw"
  shows "\<exists>rv t. compare_and_swap E schema p expected owner v d = (Inr rv, t) \<and>
    held E schema t p = Some (rv, owner, v)"
proof -
  obtain rv t where t: "compare_and_swap E schema p expected owner v d = (Inr rv, t)"
    using compare_and_swap_no_fault [OF assms] by blast
  with store.swap_stored [OF t] show ?thesis by blast
qed

theorem compare_and_swap_succeeds_witness:
  "\<exists>rv t. compare_and_swap \<lparr>sha256 = id, render = (\<lambda>_. Inr ''{}'')\<rparr> 1 [''f''] None
      \<lparr>owner_id = ''o'', generation = 1\<rparr> (7 :: nat) \<lparr>files = [], faults = []\<rparr> = (Inr rv, t) \<and>
    held \<lparr>sha256 = id, render = (\<lambda>_. Inr ''{}'')\<rparr> 1 t [''f''] =
      Some (rv, \<lparr>owner_id = ''o'', generation = 1\<rparr>, 7)"
  by (rule compare_and_swap_succeeds [where current = None])
    (simp_all add: read_snapshot_def read_snapshot_compatible_def validate_owner_generation_def
      blank_def trim_def trim_end_def white1_def ensure_def)

end
