(* ===== verification/Approval.thy ===== *)
theory Approval
  imports Transition_Plan Atomic_Json "HOL-Library.Option_ord" "HOL-Library.Product_Lexorder"
    "HOL-Library.Multiset"
begin

text \<open>
  \<open>approval.rs\<close>: the receipt with which a human approves one plan. Claims are normalised
  (validated, resources sorted), signed with HMAC-SHA-256 over their JSON, and checked
  against the expectation the plan itself gives. HMAC and the JSON printers are library
  calls and parameters. Times are Unix seconds; \<open>i64\<close> arithmetic that can overflow is
  written with its range.
\<close>

section \<open>Times\<close>

definition i64_min :: int where "i64_min = - (2 ^ 63)"
definition i64_max :: int where "i64_max = 2 ^ 63 - 1"

definition checked_sub :: "int \<Rightarrow> int \<Rightarrow> int option" where
  "checked_sub a b = (if i64_min \<le> a - b \<and> a - b \<le> i64_max then Some (a - b) else None)"

definition saturating_sub :: "int \<Rightarrow> int \<Rightarrow> int" where
  "saturating_sub a b = max i64_min (min i64_max (a - b))"

definition max_approval_lifetime_seconds :: int where
  "max_approval_lifetime_seconds = 15 * 60"

section \<open>Receipts\<close>

datatype approval_resource_binding =
  Binding (bound_resource_id: string) (pre_state_fingerprint: "string option")

definition binding_key :: "approval_resource_binding \<Rightarrow> string \<times> string option" where
  "binding_key b = (bound_resource_id b, pre_state_fingerprint b)"

definition sort_bindings :: "approval_resource_binding list \<Rightarrow> approval_resource_binding list" where
  "sort_bindings = sort_key binding_key"

record approval_receipt_claims =
  claim_version :: "32 word"
  claim_receipt_id :: string
  claim_nonce :: string
  claim_issuer :: string
  claim_audience :: string
  claim_operation_id :: string
  claim_operation_kind :: string
  claim_effect_graph_digest :: string
  claim_repository_key :: string
  claim_workspace_key :: string
  claim_session_id :: "string option"
  claim_profile_digest :: "string option"
  claim_resources :: "approval_resource_binding list"
  issued_at_unix :: int
  expires_at_unix :: int

record approval_receipt =
  claims :: approval_receipt_claims
  algorithm :: string
  receipt_key_id :: string
  tag :: string

record approval_expectation =
  exp_issuer :: string
  exp_audience :: string
  exp_operation_id :: string
  exp_operation_kind :: string
  exp_effect_graph_digest :: string
  exp_repository_key :: string
  exp_workspace_key :: string
  exp_session_id :: "string option"
  exp_profile_digest :: "string option"
  exp_resources :: "approval_resource_binding list"

datatype approval_error =
    InvalidKeyLength
  | UnsupportedVersion "32 word"
  | InvalidIdentifier string
  | InvalidDigest string
  | InvalidExpiry
  | ExpiryTooLong
  | InvalidResourceBinding
  | DuplicateBinding string
  | Serialization string
  | NonCanonicalClaims
  | WrongKeyOrAlgorithm
  | InvalidSignatureEncoding
  | InvalidSignature
  | NotYetValid
  | Expired
  | BindingMismatch
  | Replay
  | NonceStateMissing
  | NonceNotConsumed
  | NonceLedgerCapacity
  | InvalidNonceLedger
  | ApprovalState state_error

record verified_approval =
  approved_nonce :: string
  approved_operation_id :: string
  approved_decision_digest :: string
  approved_issued_at :: int
  approved_expires_at :: int

record approval_env = plan_env +
  hmac_sha256 :: "string \<Rightarrow> string \<Rightarrow> string"
  claims_json :: "approval_receipt_claims \<Rightarrow> string + string"
  receipt_json :: "approval_receipt \<Rightarrow> string"

definition validate_identifier :: "string \<Rightarrow> string \<Rightarrow> approval_error + unit" where
  "validate_identifier label str = ensure (valid_identifier str) (InvalidIdentifier label)"

definition validate_digest :: "string \<Rightarrow> string \<Rightarrow> approval_error + unit" where
  "validate_digest label str = ensure (is_lower_hex_digest str) (InvalidDigest label)"

definition normalize_claims ::
  "approval_receipt_claims \<Rightarrow> approval_error + approval_receipt_claims" where
  "normalize_claims c =
     and_then (validate_identifier ''receipt id'' (claim_receipt_id c)) (\<lambda>_.
     and_then (validate_identifier ''nonce'' (claim_nonce c)) (\<lambda>_.
     and_then (validate_identifier ''issuer'' (claim_issuer c)) (\<lambda>_.
     and_then (validate_identifier ''audience'' (claim_audience c)) (\<lambda>_.
     and_then (validate_identifier ''operation id'' (claim_operation_id c)) (\<lambda>_.
     and_then (validate_identifier ''operation kind'' (claim_operation_kind c)) (\<lambda>_.
     and_then (validate_identifier ''repository key'' (claim_repository_key c)) (\<lambda>_.
     and_then (validate_identifier ''workspace key'' (claim_workspace_key c)) (\<lambda>_.
     and_then (if_some (claim_session_id c) (validate_identifier ''session id'')) (\<lambda>_.
     and_then (validate_digest ''effect graph'' (claim_effect_graph_digest c)) (\<lambda>_.
     and_then (if_some (claim_profile_digest c) (validate_digest ''profile'')) (\<lambda>_.
     and_then (ensure (claim_version c = 1) (UnsupportedVersion (claim_version c))) (\<lambda>_.
     and_then (ensure (\<not> expires_at_unix c \<le> issued_at_unix c) InvalidExpiry) (\<lambda>_.
     and_then (ensure
         (case checked_sub (expires_at_unix c) (issued_at_unix c) of
            None \<Rightarrow> False
          | Some lifetime \<Rightarrow> \<not> lifetime > max_approval_lifetime_seconds) ExpiryTooLong) (\<lambda>_.
     and_then (ensure (claim_resources c \<noteq> []) InvalidResourceBinding) (\<lambda>_.
     and_then (try_for_each (\<lambda>r.
         and_then (validate_identifier ''resource id'' (bound_resource_id r)) (\<lambda>_.
         if_some (pre_state_fingerprint r) (validate_digest ''pre-state'')))
         (claim_resources c)) (\<lambda>_.
     (let sorted = sort_bindings (claim_resources c) in
     and_then (ensure
         (\<not> list_ex (\<lambda>pair. bound_resource_id (fst pair) = bound_resource_id (snd pair))
               (windows2 sorted)) (DuplicateBinding ''resource id'')) (\<lambda>_.
     Inr (c\<lparr>claim_resources := sorted\<rparr>)))))))))))))))))))"

definition approval_key_from_bytes :: "string \<Rightarrow> approval_error + string" where
  "approval_key_from_bytes bytes = (if length bytes = 32 then Inr bytes else Inl InvalidKeyLength)"

definition key_id :: "('z) hashing_scheme \<Rightarrow> string \<Rightarrow> string" where
  "key_id H key = ''sha256:'' @ take 16 (encode_lower_hex (sha256 H key))"

definition decision_digest :: "('z) approval_env_scheme \<Rightarrow> approval_receipt \<Rightarrow> string" where
  "decision_digest E receipt = encode_lower_hex (sha256 E (receipt_json E receipt))"

definition approval_key_purpose :: string where
  "approval_key_purpose = ''unpin-transition-approval-v1'' @ [CHR 0x00]"

definition claims_message ::
  "('z) approval_env_scheme \<Rightarrow> approval_receipt_claims \<Rightarrow> approval_error + string" where
  "claims_message E c =
     and_then (map_err Serialization (claims_json E c)) (\<lambda>bytes. Inr (approval_key_purpose @ bytes))"

definition sign_claims ::
  "('z) approval_env_scheme \<Rightarrow> string \<Rightarrow> approval_receipt_claims \<Rightarrow> approval_error + string" where
  "sign_claims E key c =
     and_then (claims_message E c) (\<lambda>message. Inr (encode_lower_hex (hmac_sha256 E key message)))"

text \<open>\<open>ApprovalIssuer::issue\<close>: the issuer's own names replace those of the claims.\<close>

definition issue ::
  "('z) approval_env_scheme \<Rightarrow> string \<Rightarrow> string \<Rightarrow> string \<Rightarrow> approval_receipt_claims \<Rightarrow>
     approval_error + approval_receipt" where
  "issue E key issuer audience c =
     and_then (normalize_claims (c\<lparr>claim_issuer := issuer, claim_audience := audience\<rparr>)) (\<lambda>c'.
     and_then (sign_claims E key c') (\<lambda>t.
     Inr \<lparr>claims = c', algorithm = ''hmac-sha256'', receipt_key_id = key_id E key, tag = t\<rparr>))"

definition compare_expectation ::
  "approval_receipt_claims \<Rightarrow> approval_expectation \<Rightarrow> approval_error + unit" where
  "compare_expectation c expected =
     ensure
       (claim_issuer c = exp_issuer expected \<and>
        claim_audience c = exp_audience expected \<and>
        claim_operation_id c = exp_operation_id expected \<and>
        claim_operation_kind c = exp_operation_kind expected \<and>
        claim_effect_graph_digest c = exp_effect_graph_digest expected \<and>
        claim_repository_key c = exp_repository_key expected \<and>
        claim_workspace_key c = exp_workspace_key expected \<and>
        claim_session_id c = exp_session_id expected \<and>
        claim_profile_digest c = exp_profile_digest expected \<and>
        claim_resources c = sort_bindings (exp_resources expected))
       BindingMismatch"

definition verify_binding ::
  "('z) approval_env_scheme \<Rightarrow> string \<Rightarrow> approval_receipt \<Rightarrow> approval_expectation \<Rightarrow>
     approval_error + verified_approval" where
  "verify_binding E key receipt expectation =
     and_then (normalize_claims (claims receipt)) (\<lambda>c.
     and_then (ensure (c = claims receipt) NonCanonicalClaims) (\<lambda>_.
     and_then (ensure (algorithm receipt = ''hmac-sha256'' \<and> receipt_key_id receipt = key_id E key)
                 WrongKeyOrAlgorithm) (\<lambda>_.
     and_then (ok_or (decode_hex (tag receipt)) InvalidSignatureEncoding) (\<lambda>expected_tag.
     and_then (claims_message E c) (\<lambda>message.
     and_then (ensure (hmac_sha256 E key message = expected_tag) InvalidSignature) (\<lambda>_.
     and_then (compare_expectation c expectation) (\<lambda>_.
     Inr \<lparr>approved_nonce = claim_nonce c,
          approved_operation_id = claim_operation_id c,
          approved_decision_digest = decision_digest E receipt,
          approved_issued_at = issued_at_unix c,
          approved_expires_at = expires_at_unix c\<rparr>)))))))"

definition verify ::
  "('z) approval_env_scheme \<Rightarrow> string \<Rightarrow> approval_receipt \<Rightarrow> approval_expectation \<Rightarrow> int \<Rightarrow>
     approval_error + verified_approval" where
  "verify E key receipt expectation now_unix =
     and_then (verify_binding E key receipt expectation) (\<lambda>verified.
     and_then (ensure (\<not> now_unix < approved_issued_at verified) NotYetValid) (\<lambda>_.
     and_then (ensure (\<not> now_unix \<ge> approved_expires_at verified) Expired) (\<lambda>_.
     Inr verified)))"

section \<open>The expectation a plan gives\<close>

definition resource_bindings :: "transition_plan \<Rightarrow> approval_resource_binding list" where
  "resource_bindings plan =
     sort_bindings
       (map (\<lambda>eff. Binding (resource_id eff) (expected_pre_fingerprint eff)) (effects plan))"

definition plan_expectation ::
  "transition_plan \<Rightarrow> string \<Rightarrow> string \<Rightarrow> approval_expectation" where
  "plan_expectation plan issuer audience =
     \<lparr>exp_issuer = issuer, exp_audience = audience,
      exp_operation_id = operation_id plan,
      exp_operation_kind = transition_kind_str (plan_kind plan),
      exp_effect_graph_digest = effect_graph_digest plan,
      exp_repository_key = repository_key (plan_context plan),
      exp_workspace_key = workspace_key (plan_context plan),
      exp_session_id = session_id (plan_context plan),
      exp_profile_digest = profile_digest (plan_context plan),
      exp_resources = resource_bindings plan\<rparr>"

section \<open>What a normalised claim and a verified receipt mean\<close>

lemma binding_key_inject: "binding_key a = binding_key b \<longleftrightarrow> a = b"
  by (cases a; cases b) (simp add: binding_key_def)

lemma sorted_sort_bindings: "sorted (map binding_key (sort_bindings bs))"
  by (simp add: sort_bindings_def)

lemma set_sort_bindings [simp]: "set (sort_bindings bs) = set bs"
  by (simp add: sort_bindings_def)

lemma mset_sort_bindings [simp]: "mset (sort_bindings bs) = mset bs"
  by (simp add: sort_bindings_def)

lemma sort_bindings_idem [simp]: "sort_bindings (sort_bindings bs) = sort_bindings bs"
  unfolding sort_bindings_def by (simp add: sort_key_id_if_sorted)

lemma sorted_bound_resource_ids: "sorted (map bound_resource_id (sort_bindings bs))"
proof -
  have "sorted (map fst (map binding_key (sort_bindings bs)))"
    using sorted_sort_bindings [of bs]
    by (auto simp: sorted_wrt_map less_eq_prod_def elim!: sorted_wrt_mono_rel [rotated])
  then show ?thesis by (simp add: binding_key_def comp_def)
qed

lemma adjacent_distinct_bindings:
  "list_ex (\<lambda>pair. bound_resource_id (fst pair) = bound_resource_id (snd pair))
       (windows2 (sort_bindings bs)) \<longleftrightarrow> \<not> distinct (map bound_resource_id bs)"
proof -
  have "distinct (map bound_resource_id (sort_bindings bs)) = distinct (map bound_resource_id bs)"
    by (rule mset_eq_imp_distinct_iff) simp
  then show ?thesis
    using windows2_sorted_distinct [OF sorted_bound_resource_ids [of bs]] by (auto simp: list_ex_iff)
qed

definition claims_ok :: "approval_receipt_claims \<Rightarrow> bool" where
  "claims_ok c \<longleftrightarrow>
     valid_identifier (claim_receipt_id c) \<and> valid_identifier (claim_nonce c) \<and>
     valid_identifier (claim_issuer c) \<and> valid_identifier (claim_audience c) \<and>
     valid_identifier (claim_operation_id c) \<and> valid_identifier (claim_operation_kind c) \<and>
     valid_identifier (claim_repository_key c) \<and> valid_identifier (claim_workspace_key c) \<and>
     (\<forall>s. claim_session_id c = Some s \<longrightarrow> valid_identifier s) \<and>
     is_lower_hex_digest (claim_effect_graph_digest c) \<and>
     (\<forall>d. claim_profile_digest c = Some d \<longrightarrow> is_lower_hex_digest d) \<and>
     claim_version c = 1 \<and> issued_at_unix c < expires_at_unix c \<and>
     expires_at_unix c - issued_at_unix c \<le> max_approval_lifetime_seconds \<and>
     claim_resources c \<noteq> [] \<and>
     (\<forall>r\<in>set (claim_resources c). valid_identifier (bound_resource_id r) \<and>
        (\<forall>f. pre_state_fingerprint r = Some f \<longrightarrow> is_lower_hex_digest f)) \<and>
     distinct (map bound_resource_id (claim_resources c))"

lemma lifetime_check:
  "issued < expires \<Longrightarrow>
   (case checked_sub expires issued of None \<Rightarrow> False
      | Some lifetime \<Rightarrow> \<not> lifetime > max_approval_lifetime_seconds)
   \<longleftrightarrow> expires - issued \<le> max_approval_lifetime_seconds"
  by (auto simp: checked_sub_def i64_min_def i64_max_def max_approval_lifetime_seconds_def)

lemma normalize_claims_ok:
  "normalize_claims c = Inr c' \<longleftrightarrow>
     claims_ok c \<and> c' = c\<lparr>claim_resources := sort_bindings (claim_resources c)\<rparr>"
proof -
  have "(\<not> e \<le> i \<and> (case checked_sub e i of None \<Rightarrow> False
      | Some lifetime \<Rightarrow> \<not> lifetime > max_approval_lifetime_seconds)) \<longleftrightarrow>
      i < e \<and> e - i \<le> max_approval_lifetime_seconds" for e i
    using lifetime_check [of i e] by auto
  then show ?thesis
    unfolding normalize_claims_def claims_ok_def
    by (auto simp: Let_def validate_identifier_def validate_digest_def try_for_each_ok
        adjacent_distinct_bindings)
qed

lemma normalized_claims:
  "normalize_claims c = Inr c \<longleftrightarrow> claims_ok c \<and> claim_resources c = sort_bindings (claim_resources c)"
proof -
  have "c = c\<lparr>claim_resources := rs\<rparr> \<longleftrightarrow> claim_resources c = rs" for rs
    by (cases c) auto
  then show ?thesis by (simp add: normalize_claims_ok)
qed

lemma claims_ok_resources [simp]:
  "claims_ok (c\<lparr>claim_resources := sort_bindings (claim_resources c)\<rparr>) = claims_ok c"
proof -
  have "distinct (map bound_resource_id (sort_bindings bs)) = distinct (map bound_resource_id bs)" for bs
    by (rule mset_eq_imp_distinct_iff) simp
  moreover have "sort_bindings bs = [] \<longleftrightarrow> bs = []" for bs
    by (metis set_sort_bindings set_empty)
  ultimately show ?thesis by (simp add: claims_ok_def)
qed

lemma verify_binding_ok:
  "verify_binding E key receipt expectation = Inr v \<longleftrightarrow>
     normalize_claims (claims receipt) = Inr (claims receipt) \<and>
     algorithm receipt = ''hmac-sha256'' \<and> receipt_key_id receipt = key_id E key \<and>
     (\<exists>message. claims_message E (claims receipt) = Inr message \<and>
        decode_hex (tag receipt) = Some (hmac_sha256 E key message)) \<and>
     compare_expectation (claims receipt) expectation = Inr () \<and>
     v = \<lparr>approved_nonce = claim_nonce (claims receipt),
          approved_operation_id = claim_operation_id (claims receipt),
          approved_decision_digest = decision_digest E receipt,
          approved_issued_at = issued_at_unix (claims receipt),
          approved_expires_at = expires_at_unix (claims receipt)\<rparr>"
  by (auto simp: verify_binding_def)

lemma verify_ok:
  "verify E key receipt expectation now = Inr v \<longleftrightarrow>
     verify_binding E key receipt expectation = Inr v \<and>
     approved_issued_at v \<le> now \<and> now < approved_expires_at v"
  by (auto simp: verify_def)

lemma issue_ok:
  "issue E key issuer audience c = Inr r \<longleftrightarrow>
     (\<exists>c' message. normalize_claims (c\<lparr>claim_issuer := issuer, claim_audience := audience\<rparr>) = Inr c' \<and>
        claims_message E c' = Inr message \<and>
        r = \<lparr>claims = c', algorithm = ''hmac-sha256'', receipt_key_id = key_id E key,
             tag = encode_lower_hex (hmac_sha256 E key message)\<rparr>)"
  by (auto simp: issue_def sign_claims_def)

section \<open>Properties\<close>

text \<open>The expectation under which a receipt with these claims verifies.\<close>

definition expectation_of_claims :: "approval_receipt_claims \<Rightarrow> approval_expectation" where
  "expectation_of_claims c =
     \<lparr>exp_issuer = claim_issuer c, exp_audience = claim_audience c,
      exp_operation_id = claim_operation_id c, exp_operation_kind = claim_operation_kind c,
      exp_effect_graph_digest = claim_effect_graph_digest c,
      exp_repository_key = claim_repository_key c, exp_workspace_key = claim_workspace_key c,
      exp_session_id = claim_session_id c, exp_profile_digest = claim_profile_digest c,
      exp_resources = claim_resources c\<rparr>"

lemma compare_expectation_ok:
  "compare_expectation c expected = Inr u \<longleftrightarrow>
     expectation_of_claims c = expected\<lparr>exp_resources := sort_bindings (exp_resources expected)\<rparr>"
  by (cases expected) (auto simp: compare_expectation_def expectation_of_claims_def)

text \<open>
  C4: A receipt is accepted exactly when its claims are well formed and canonical, its tag is the
  MAC of those claims under the named key, they match the expectation field by field (resources up
  to order), and the time lies in a window of at most fifteen minutes.
\<close>

theorem verify_accepts_exactly:
  "(\<exists>v. verify E key receipt expected now = Inr v) \<longleftrightarrow>
     claims_ok (claims receipt) \<and>
     claim_resources (claims receipt) = sort_bindings (claim_resources (claims receipt)) \<and>
     algorithm receipt = ''hmac-sha256'' \<and> receipt_key_id receipt = key_id E key \<and>
     (\<exists>message. claims_message E (claims receipt) = Inr message \<and>
        decode_hex (tag receipt) = Some (hmac_sha256 E key message)) \<and>
     expectation_of_claims (claims receipt) =
       expected\<lparr>exp_resources := sort_bindings (exp_resources expected)\<rparr> \<and>
     issued_at_unix (claims receipt) \<le> now \<and> now < expires_at_unix (claims receipt)"
  by (simp add: verify_ok verify_binding_ok normalized_claims compare_expectation_ok)

text \<open>
  C12: An issued receipt verifies, and only in its window: what \<open>issue\<close> signs is accepted under the same
  key and its own expectation at every time from its issue up to but not including its expiry, with
  its nonce, operation, decision and window; before it is not yet valid and from then on expired. The
  issued claims are those asked for in the issuer's name, for at most fifteen minutes, and issuing
  fails only on malformed claims or when they cannot be printed.
\<close>

theorem issued_receipts_verify:
  "case issue E key issuer audience c of
     Inl _ \<Rightarrow> \<not> (claims_ok (c\<lparr>claim_issuer := issuer, claim_audience := audience\<rparr>) \<and>
       (\<exists>message. claims_message E (c\<lparr>claim_issuer := issuer, claim_audience := audience,
          claim_resources := sort_bindings (claim_resources c)\<rparr>) = Inr message))
   | Inr receipt \<Rightarrow>
       verify E key receipt (expectation_of_claims (claims receipt)) now =
         (if now < issued_at_unix c then Inl NotYetValid
          else if expires_at_unix c \<le> now then Inl Expired
          else Inr \<lparr>approved_nonce = claim_nonce c, approved_operation_id = claim_operation_id c,
            approved_decision_digest = decision_digest E receipt,
            approved_issued_at = issued_at_unix c, approved_expires_at = expires_at_unix c\<rparr>) \<and>
       claims receipt = c\<lparr>claim_issuer := issuer, claim_audience := audience,
         claim_resources := sort_bindings (claim_resources c)\<rparr> \<and>
       issued_at_unix c < expires_at_unix c \<and> expires_at_unix c - issued_at_unix c \<le> 15 * 60"
proof (cases "issue E key issuer audience c")
  case (Inl e)
  let ?c = "c\<lparr>claim_issuer := issuer, claim_audience := audience\<rparr>"
  have "\<not> (claims_ok ?c \<and>
      (\<exists>message. claims_message E (?c\<lparr>claim_resources := sort_bindings (claim_resources ?c)\<rparr>) = Inr message))"
  proof
    assume "claims_ok ?c \<and>
      (\<exists>message. claims_message E (?c\<lparr>claim_resources := sort_bindings (claim_resources ?c)\<rparr>) = Inr message)"
    then have "\<exists>r. issue E key issuer audience c = Inr r" by (auto simp only: issue_ok normalize_claims_ok)
    with Inl show False by simp
  qed
  with Inl show ?thesis by simp
next
  case (Inr receipt)
  let ?c = "c\<lparr>claim_issuer := issuer, claim_audience := audience\<rparr>"
  let ?n = "?c\<lparr>claim_resources := sort_bindings (claim_resources ?c)\<rparr>"
  obtain message where ok: "claims_ok ?c" "claims_message E ?n = Inr message"
    and r: "receipt = \<lparr>claims = ?n, algorithm = ''hmac-sha256'', receipt_key_id = key_id E key,
       tag = encode_lower_hex (hmac_sha256 E key message)\<rparr>"
    using Inr by (auto simp only: issue_ok normalize_claims_ok)
  have "compare_expectation ?n (expectation_of_claims ?n) = Inr ()"
    by (simp add: compare_expectation_ok expectation_of_claims_def)
  moreover have "normalize_claims ?n = Inr ?n"
    using ok(1) claims_ok_resources [of ?c] by (simp add: normalized_claims)
  ultimately have "verify_binding E key receipt (expectation_of_claims (claims receipt)) =
      Inr \<lparr>approved_nonce = claim_nonce c, approved_operation_id = claim_operation_id c,
        approved_decision_digest = decision_digest E receipt,
        approved_issued_at = issued_at_unix c, approved_expires_at = expires_at_unix c\<rparr>"
    using ok(2) r by (simp add: verify_binding_ok decode_encode_hex)
  moreover have "issued_at_unix c < expires_at_unix c" "expires_at_unix c - issued_at_unix c \<le> 15 * 60"
    using ok(1) by (simp_all add: claims_ok_def max_approval_lifetime_seconds_def)
  ultimately show ?thesis using Inr r by (simp add: verify_def ensure_def)
qed

end
