(* ===== verification/Nonce_Ledger.thy ===== *)
theory Nonce_Ledger
  imports Approval
begin

text \<open>
  The replay protection of \<open>approval.rs\<close>: a consumed approval is recorded in an active
  ledger and in a recovery ledger sharded by the first byte of the nonce digest, next to a
  legacy file per nonce. The ledgers are documents of the store of \<open>Atomic_Json\<close>; the
  sequence over several documents runs under one lock, so no other writer comes between.
\<close>

record consumed_nonce =
  nonce_operation_id :: string
  nonce_decision_digest :: string
  consumed_at_unix :: int

type_synonym nonce_ledger = "(string, consumed_nonce) btree"

datatype nonce_consumption = Consumed | AttachedToSameOperation

record approval_disks =
  ledgers :: "nonce_ledger disk"
  legacies :: "consumed_nonce disk"

record nonce_env = approval_env +
  ledger_render :: "nonce_ledger stored_document \<Rightarrow> string + string"
  legacy_render :: "consumed_nonce stored_document \<Rightarrow> string + string"

definition nonce_retention_seconds :: int where
  "nonce_retention_seconds = 30 * 24 * 60 * 60"

definition max_nonce_ledger_entries :: nat where
  "max_nonce_ledger_entries = 4096"

definition nonce_ledger_update_attempts :: nat where
  "nonce_ledger_update_attempts = 32"

definition ledger_env :: "('z) nonce_env_scheme \<Rightarrow> nonce_ledger json_env" where
  "ledger_env E = \<lparr>sha256 = sha256 E, render = ledger_render E\<rparr>"

definition legacy_env :: "('z) nonce_env_scheme \<Rightarrow> consumed_nonce json_env" where
  "legacy_env E = \<lparr>sha256 = sha256 E, render = legacy_render E\<rparr>"

text \<open>Running a store operation on one of the disks; \<open>From<StateError> for ApprovalError\<close>.\<close>

definition on_ledgers ::
  "(nonce_ledger disk, state_error, 'a) exec \<Rightarrow> (approval_disks, state_error, 'a) exec" where
  "on_ledgers m s = (case m (ledgers s) of (r, d) \<Rightarrow> (r, s\<lparr>ledgers := d\<rparr>))"

definition on_legacies ::
  "(consumed_nonce disk, state_error, 'a) exec \<Rightarrow> (approval_disks, state_error, 'a) exec" where
  "on_legacies m s = (case m (legacies s) of (r, d) \<Rightarrow> (r, s\<lparr>legacies := d\<rparr>))"

definition approval_of ::
  "(approval_disks, state_error, 'a) exec \<Rightarrow> (approval_disks, approval_error, 'a) exec" where
  "approval_of m s = (case m s of (r, t) \<Rightarrow> (map_err ApprovalState r, t))"

section \<open>Records and shards\<close>

definition same_nonce_decision :: "consumed_nonce \<Rightarrow> consumed_nonce \<Rightarrow> bool" where
  "same_nonce_decision left right \<longleftrightarrow>
     nonce_operation_id left = nonce_operation_id right \<and>
     nonce_decision_digest left = nonce_decision_digest right"

definition reconcile_two ::
  "consumed_nonce \<Rightarrow> consumed_nonce \<Rightarrow> approval_error + consumed_nonce" where
  "reconcile_two existing candidate =
     (if same_nonce_decision existing candidate
      then Inr (if consumed_at_unix candidate < consumed_at_unix existing then candidate else existing)
      else Inl Replay)"

definition reconcile_consumed_nonce ::
  "consumed_nonce option \<Rightarrow> consumed_nonce option \<Rightarrow> approval_error + consumed_nonce option" where
  "reconcile_consumed_nonce existing candidate =
     (case (existing, candidate) of
        (Some e, Some c) \<Rightarrow> and_then (reconcile_two e c) (\<lambda>r. Inr (Some r))
      | (Some e, None) \<Rightarrow> Inr (Some e)
      | (None, Some c) \<Rightarrow> Inr (Some c)
      | (None, None) \<Rightarrow> Inr None)"

fun reconcile_all ::
  "consumed_nonce option \<Rightarrow> consumed_nonce option list \<Rightarrow> approval_error + consumed_nonce option" where
  "reconcile_all existing [] = Inr existing"
| "reconcile_all existing (candidate # rest) =
     and_then (reconcile_consumed_nonce existing candidate) (\<lambda>e. reconcile_all e rest)"

definition nonce_ledger_shard :: "string \<Rightarrow> approval_error + string" where
  "nonce_ledger_shard nonce_digest =
     (if is_lower_hex_digest nonce_digest then Inr (take 2 nonce_digest) else Inl InvalidNonceLedger)"

definition validate_nonce_ledger :: "nonce_ledger \<Rightarrow> string option \<Rightarrow> approval_error + unit" where
  "validate_nonce_ledger ledger expected_shard =
     try_for_each (\<lambda>entry.
       and_then (nonce_ledger_shard (fst entry)) (\<lambda>shard.
       ensure (case expected_shard of None \<Rightarrow> True | Some expected \<Rightarrow> expected = shard)
         InvalidNonceLedger)) ledger"

definition saturating_inc :: "u64 \<Rightarrow> u64" where
  "saturating_inc g = (if g = -1 then -1 else g + 1)"

definition nonce_ledger_owner ::
  "owner_generation option \<Rightarrow> owner_generation \<Rightarrow> approval_error + owner_generation" where
  "nonce_ledger_owner current requested =
     (let g = (case current of
           None \<Rightarrow> generation requested
         | Some c \<Rightarrow>
             if owner_id c = owner_id requested then max (generation requested) (generation c)
             else max (generation requested) (saturating_inc (generation c))) in
      map_err ApprovalState (new_owner (owner_id requested) g))"

section \<open>Reading the three stores\<close>

definition load_ledger ::
  "('z) nonce_env_scheme \<Rightarrow> path \<Rightarrow>
     (approval_disks, approval_error, nonce_ledger state_snapshot option) exec" where
  "load_ledger E p = approval_of (on_ledgers (load (ledger_env E) 1 p))"

definition ledger_of :: "nonce_ledger state_snapshot option \<Rightarrow> nonce_ledger" where
  "ledger_of snapshot = (case snapshot of None \<Rightarrow> [] | Some s \<Rightarrow> snapshot_value s)"

definition active_ledger_nonce ::
  "('z) nonce_env_scheme \<Rightarrow> path \<Rightarrow> string \<Rightarrow>
     (approval_disks, approval_error, consumed_nonce option) exec" where
  "active_ledger_nonce E root nonce_digest =
     bind_exec (load_ledger E (get_approval_nonce_ledger_path root)) (\<lambda>snapshot.
     (case snapshot of
        None \<Rightarrow> pure_exec (Inr None)
      | Some s \<Rightarrow>
          bind_exec (pure_exec (validate_nonce_ledger (snapshot_value s) None)) (\<lambda>_.
          pure_exec (Inr (map_of (snapshot_value s) nonce_digest)))))"

definition recovery_nonce ::
  "('z) nonce_env_scheme \<Rightarrow> path \<Rightarrow> string \<Rightarrow>
     (approval_disks, approval_error, consumed_nonce option) exec" where
  "recovery_nonce E root nonce_digest =
     bind_exec (pure_exec (nonce_ledger_shard nonce_digest)) (\<lambda>shard.
     bind_exec (load_ledger E (get_approval_nonce_ledger_shard_path root shard)) (\<lambda>snapshot.
     (case snapshot of
        None \<Rightarrow> pure_exec (Inr None)
      | Some s \<Rightarrow>
          bind_exec (pure_exec (validate_nonce_ledger (snapshot_value s) (Some shard))) (\<lambda>_.
          pure_exec (Inr (map_of (snapshot_value s) nonce_digest))))))"

definition legacy_nonce ::
  "('z) nonce_env_scheme \<Rightarrow> path \<Rightarrow> string \<Rightarrow>
     (approval_disks, approval_error, consumed_nonce state_snapshot option) exec" where
  "legacy_nonce E root nonce_digest =
     approval_of (on_legacies (load (legacy_env E) 1 (get_approval_nonce_path root nonce_digest)))"

section \<open>The recovery ledger\<close>

fun merge_entries ::
  "(string \<times> consumed_nonce) list \<Rightarrow> nonce_ledger \<Rightarrow> bool \<Rightarrow> approval_error + nonce_ledger \<times> bool" where
  "merge_entries [] ledger changed = Inr (ledger, changed)"
| "merge_entries ((nonce_digest, consumed) # rest) ledger changed =
     (case map_of ledger nonce_digest of
        Some existing \<Rightarrow>
          and_then (reconcile_two existing consumed) (\<lambda>canonical.
          if canonical \<noteq> existing
          then merge_entries rest (btree_insert nonce_digest canonical ledger) True
          else merge_entries rest ledger changed)
      | None \<Rightarrow>
          if length ledger \<ge> max_nonce_ledger_entries then Inl NonceLedgerCapacity
          else merge_entries rest (btree_insert nonce_digest consumed ledger) True)"

text \<open>
  Publishing a rewritten ledger: a stale revision runs the loop's next attempt, any other
  error ends it.
\<close>

definition publish_ledger ::
  "('z) nonce_env_scheme \<Rightarrow> path \<Rightarrow> nonce_ledger state_snapshot option \<Rightarrow> owner_generation \<Rightarrow>
     nonce_ledger \<Rightarrow> 'a \<Rightarrow> (state_error \<Rightarrow> (approval_disks, approval_error, 'a) exec) \<Rightarrow>
     (approval_disks, approval_error, 'a) exec" where
  "publish_ledger E p snapshot ledger_owner ledger ok retry s =
     (case on_ledgers (compare_and_swap (ledger_env E) 1 p (map_option snapshot_revision snapshot)
              ledger_owner ledger) s of
        (Inr _, t) \<Rightarrow> (Inr ok, t)
      | (Inl (StaleRevision x y), t) \<Rightarrow> retry (StaleRevision x y) t
      | (Inl e, t) \<Rightarrow> (Inl (ApprovalState e), t))"

fun merge_shard_attempts ::
  "('z) nonce_env_scheme \<Rightarrow> path \<Rightarrow> string \<Rightarrow> (string \<times> consumed_nonce) list \<Rightarrow> owner_generation \<Rightarrow>
     int \<Rightarrow> nat \<Rightarrow> state_error \<Rightarrow> (approval_disks, approval_error, unit) exec" where
  "merge_shard_attempts E root shard entries owner cutoff 0 last_stale s =
     (Inl (ApprovalState last_stale), s)"
| "merge_shard_attempts E root shard entries owner cutoff (Suc n) last_stale s =
     bind_exec (load_ledger E (get_approval_nonce_ledger_shard_path root shard)) (\<lambda>snapshot.
     bind_exec (pure_exec (validate_nonce_ledger (ledger_of snapshot) (Some shard))) (\<lambda>_.
     (let kept = filter (\<lambda>e. consumed_at_unix (snd e) \<ge> cutoff) (ledger_of snapshot) in
     bind_exec (pure_exec (merge_entries entries kept
                  (length kept \<noteq> length (ledger_of snapshot)))) (\<lambda>(ledger, changed).
     if \<not> changed then pure_exec (Inr ())
     else
       bind_exec (pure_exec (nonce_ledger_owner (map_option snapshot_owner snapshot) owner))
         (\<lambda>ledger_owner.
       publish_ledger E (get_approval_nonce_ledger_shard_path root shard) snapshot ledger_owner
         ledger () (\<lambda>stale. merge_shard_attempts E root shard entries owner cutoff n stale)))))) s"

definition merge_recovery_shard ::
  "('z) nonce_env_scheme \<Rightarrow> path \<Rightarrow> (string \<times> consumed_nonce) list \<Rightarrow> owner_generation \<Rightarrow> int \<Rightarrow>
     (approval_disks, approval_error, unit) exec" where
  "merge_recovery_shard E root entries owner cutoff =
     (case entries of
        [] \<Rightarrow> pure_exec (Inr ())
      | (nonce_digest, _) # _ \<Rightarrow>
          bind_exec (pure_exec (nonce_ledger_shard nonce_digest)) (\<lambda>shard.
          merge_shard_attempts E root shard entries owner cutoff nonce_ledger_update_attempts
            (StaleRevision None None)))"

fun group_shards ::
  "(string \<times> consumed_nonce) list \<Rightarrow> (string, nonce_ledger) btree \<Rightarrow>
     approval_error + (string, nonce_ledger) btree" where
  "group_shards [] shards = Inr shards"
| "group_shards ((nonce_digest, consumed) # rest) shards =
     and_then (nonce_ledger_shard nonce_digest) (\<lambda>shard.
     (let bucket = (case map_of shards shard of None \<Rightarrow> [] | Some b \<Rightarrow> b) in
      group_shards rest (btree_insert shard (btree_insert nonce_digest consumed bucket) shards)))"

fun merge_shards ::
  "('z) nonce_env_scheme \<Rightarrow> path \<Rightarrow> nonce_ledger list \<Rightarrow> owner_generation \<Rightarrow> int \<Rightarrow>
     (approval_disks, approval_error, unit) exec" where
  "merge_shards E root [] owner cutoff s = (Inr (), s)"
| "merge_shards E root (entries # rest) owner cutoff s =
     bind_exec (merge_recovery_shard E root entries owner cutoff) (\<lambda>_.
     merge_shards E root rest owner cutoff) s"

definition merge_recovery_entries ::
  "('z) nonce_env_scheme \<Rightarrow> path \<Rightarrow> (string \<times> consumed_nonce) list \<Rightarrow> owner_generation \<Rightarrow> int \<Rightarrow>
     (approval_disks, approval_error, unit) exec" where
  "merge_recovery_entries E root entries owner cutoff =
     bind_exec (pure_exec (group_shards entries [])) (\<lambda>shards.
     merge_shards E root (map snd shards) owner cutoff)"

section \<open>Reserving the nonce in the active ledger\<close>

text \<open>
  The decision of one attempt: \<open>Inr (None, c)\<close> returns \<open>c\<close> without writing,
  \<open>Inr (Some ledger, c)\<close> writes the ledger first.
\<close>

definition reserve_decision ::
  "string \<Rightarrow> consumed_nonce \<Rightarrow> nonce_ledger \<Rightarrow> bool \<Rightarrow> consumed_nonce option \<Rightarrow>
     approval_error + nonce_ledger option \<times> nonce_consumption" where
  "reserve_decision nonce_digest r ledger pruned existing =
     (case existing of
        Some e \<Rightarrow>
          if same_nonce_decision e r then
            if \<not> pruned \<and> map_of ledger nonce_digest = Some e then Inr (None, AttachedToSameOperation)
            else if map_of ledger nonce_digest = None \<and> length ledger \<ge> max_nonce_ledger_entries
            then Inl NonceLedgerCapacity
            else Inr (Some (btree_insert nonce_digest e ledger), AttachedToSameOperation)
          else Inl Replay
      | None \<Rightarrow>
          if length ledger \<ge> max_nonce_ledger_entries then Inl NonceLedgerCapacity
          else Inr (Some (btree_insert nonce_digest r ledger), Consumed))"

fun reserve_attempts ::
  "('z) nonce_env_scheme \<Rightarrow> path \<Rightarrow> string \<Rightarrow> consumed_nonce \<Rightarrow> int \<Rightarrow> owner_generation \<Rightarrow>
     consumed_nonce option \<Rightarrow> consumed_nonce option \<Rightarrow> nat \<Rightarrow> state_error \<Rightarrow>
     (approval_disks, approval_error, nonce_consumption) exec" where
  "reserve_attempts E root nonce_digest r now owner legacy recovery 0 last_stale s =
     (Inl (ApprovalState last_stale), s)"
| "reserve_attempts E root nonce_digest r now owner legacy recovery (Suc n) last_stale s =
     (let active_cutoff = saturating_sub now max_approval_lifetime_seconds;
          recovery_cutoff = saturating_sub now nonce_retention_seconds in
     bind_exec (load_ledger E (get_approval_nonce_ledger_path root)) (\<lambda>snapshot.
     (let ledger = ledger_of snapshot in
     bind_exec (pure_exec (validate_nonce_ledger ledger None)) (\<lambda>_.
     (let recovery_entries = filter (\<lambda>e. consumed_at_unix (snd e) \<le> active_cutoff \<and>
            consumed_at_unix (snd e) \<ge> recovery_cutoff) ledger;
          kept = filter (\<lambda>e. consumed_at_unix (snd e) > active_cutoff) ledger in
     bind_exec (merge_recovery_entries E root recovery_entries owner recovery_cutoff) (\<lambda>_.
     bind_exec (pure_exec (reconcile_all None
         [map_of kept nonce_digest, map_of recovery_entries nonce_digest, recovery, legacy]))
       (\<lambda>existing.
     bind_exec (pure_exec (reserve_decision nonce_digest r kept (length kept \<noteq> length ledger)
         existing)) (\<lambda>(written, consumption).
     case written of
       None \<Rightarrow> pure_exec (Inr consumption)
     | Some ledger' \<Rightarrow>
         bind_exec (pure_exec (nonce_ledger_owner (map_option snapshot_owner snapshot) owner))
           (\<lambda>ledger_owner.
         publish_ledger E (get_approval_nonce_ledger_path root) snapshot ledger_owner ledger'
           consumption
           (\<lambda>stale. reserve_attempts E root nonce_digest r now owner legacy recovery n stale)))))))))) s"

section \<open>Consuming and attaching\<close>

definition acquire_consumption_lock :: "(approval_disks, approval_error, unit) exec" where
  "acquire_consumption_lock =
     approval_of (on_ledgers (bind_exec access (\<lambda>_. pure_exec (Inr ()))))"

definition nonce_digest_of :: "('z) hashing_scheme \<Rightarrow> string \<Rightarrow> string" where
  "nonce_digest_of H nonce = encode_lower_hex (sha256 H nonce)"

definition consume_or_attach ::
  "('z) nonce_env_scheme \<Rightarrow> path \<Rightarrow> verified_approval \<Rightarrow> int \<Rightarrow> owner_generation \<Rightarrow>
     (approval_disks, approval_error, nonce_consumption) exec" where
  "consume_or_attach E root approval now owner =
     bind_exec (pure_exec (ensure (\<not> now < approved_issued_at approval) NotYetValid)) (\<lambda>_.
     bind_exec (pure_exec (ensure (\<not> now \<ge> approved_expires_at approval) Expired)) (\<lambda>_.
     (let nonce_digest = nonce_digest_of E (approved_nonce approval);
          new = \<lparr>nonce_operation_id = approved_operation_id approval,
                 nonce_decision_digest = approved_decision_digest approval,
                 consumed_at_unix = now\<rparr>;
          recovery_cutoff = saturating_sub now nonce_retention_seconds;
          active_cutoff = saturating_sub now max_approval_lifetime_seconds in
     bind_exec acquire_consumption_lock (\<lambda>_.
     bind_exec (legacy_nonce E root nonce_digest) (\<lambda>legacy_snapshot.
     (let legacy = map_option snapshot_value legacy_snapshot in
     bind_exec (recovery_nonce E root nonce_digest) (\<lambda>found_recovery.
     (let recovery = Option.bind found_recovery (\<lambda>c.
            if consumed_at_unix c \<ge> recovery_cutoff then Some c else None) in
     bind_exec (active_ledger_nonce E root nonce_digest) (\<lambda>found_active.
     (let active = Option.bind found_active (\<lambda>c.
            if consumed_at_unix c > active_cutoff then Some c else None) in
     bind_exec (pure_exec (reconcile_all (Some new) [active, recovery, legacy])) (\<lambda>canonical.
     (let r = (case canonical of Some c \<Rightarrow> c | None \<Rightarrow> new) in
     bind_exec (merge_recovery_entries E root [(nonce_digest, r)] owner recovery_cutoff) (\<lambda>_.
     bind_exec (reserve_attempts E root nonce_digest r now owner legacy recovery
         nonce_ledger_update_attempts (StaleRevision None None)) (\<lambda>consumption s.
     (case legacy_snapshot of
        None \<Rightarrow> (Inr consumption, s)
      | Some l \<Rightarrow>
          (Inr consumption,
           snd (on_legacies (remove_if_revision (legacy_env E) 1
             (get_approval_nonce_path root nonce_digest) (snapshot_revision l)) s)))))))))))))))))"

definition attach_existing ::
  "('z) nonce_env_scheme \<Rightarrow> path \<Rightarrow> verified_approval \<Rightarrow>
     (approval_disks, approval_error, nonce_consumption) exec" where
  "attach_existing E root approval =
     (let nonce_digest = nonce_digest_of E (approved_nonce approval) in
     bind_exec (recovery_nonce E root nonce_digest) (\<lambda>recovery.
     bind_exec (active_ledger_nonce E root nonce_digest) (\<lambda>active.
     bind_exec (legacy_nonce E root nonce_digest) (\<lambda>legacy.
     bind_exec (pure_exec (reconcile_all None
         [recovery, active, map_option snapshot_value legacy])) (\<lambda>found.
     bind_exec (pure_exec (ok_or found NonceNotConsumed)) (\<lambda>existing.
     pure_exec (if nonce_operation_id existing = approved_operation_id approval \<and>
                   nonce_decision_digest existing = approved_decision_digest approval \<and>
                   consumed_at_unix existing \<ge> approved_issued_at approval \<and>
                   consumed_at_unix existing < approved_expires_at approval
                then Inr AttachedToSameOperation else Inl Replay)))))))"

record control_authorization =
  authorized_expectation :: approval_expectation
  authorized_operation_id :: string
  authorized_decision_digest :: string
  authorized_nonce :: nonce_consumption

definition sort_expectation :: "approval_expectation \<Rightarrow> approval_expectation" where
  "sort_expectation e = e\<lparr>exp_resources := sort_bindings (exp_resources e)\<rparr>"

definition authorize_control ::
  "('z) nonce_env_scheme \<Rightarrow> path \<Rightarrow> approval_receipt \<Rightarrow> string \<Rightarrow> approval_expectation \<Rightarrow> int \<Rightarrow>
     owner_generation \<Rightarrow> (approval_disks, approval_error, control_authorization) exec" where
  "authorize_control E root receipt key expectation now owner =
     bind_exec (pure_exec (verify E key receipt expectation now)) (\<lambda>verified.
     bind_exec (consume_or_attach E root verified now owner) (\<lambda>nonce.
     pure_exec (Inr \<lparr>authorized_expectation = sort_expectation expectation,
                     authorized_operation_id = approved_operation_id verified,
                     authorized_decision_digest = approved_decision_digest verified,
                     authorized_nonce = nonce\<rparr>)))"

definition assert_matches ::
  "control_authorization \<Rightarrow> approval_expectation \<Rightarrow> approval_error + unit" where
  "assert_matches auth expectation =
     ensure (authorized_expectation auth = sort_expectation expectation) BindingMismatch"


section \<open>Replay protection\<close>

text \<open>The ledger a reader finds at a path, and the legacy record of a nonce.\<close>

definition cell :: "('z) nonce_env_scheme \<Rightarrow> approval_disks \<Rightarrow> path \<Rightarrow> nonce_ledger option" where
  "cell E s p = map_option (snd \<circ> snd) (held (ledger_env E) 1 (ledgers s) p)"

definition legacy_cell :: "('z) nonce_env_scheme \<Rightarrow> approval_disks \<Rightarrow> path \<Rightarrow> consumed_nonce option" where
  "legacy_cell E s p = map_option (snd \<circ> snd) (held (legacy_env E) 1 (legacies s) p)"

text \<open>
  What a reader finds, without the fault script: two stores that agree on it are told apart by
  no later read.
\<close>

abbreviation same_cells :: "('z) nonce_env_scheme \<Rightarrow> approval_disks \<Rightarrow> approval_disks \<Rightarrow> bool" where
  "same_cells E s t \<equiv> cell E t = cell E s \<and> legacy_cell E t = legacy_cell E s"

lemma cell_cong: "files d = files (ledgers s) \<Longrightarrow> cell E (s\<lparr>ledgers := d\<rparr>) = cell E s"
  using held_cong [of d _ "ledgers s" "ledger_env E" 1] by (auto simp: cell_def)

lemma legacy_cell_cong:
  "files d = files (legacies s) \<Longrightarrow> legacy_cell E (s\<lparr>legacies := d\<rparr>) = legacy_cell E s"
  using held_cong [of d _ "legacies s" "legacy_env E" 1] by (auto simp: legacy_cell_def)

lemma other_cells [simp]:
  "legacy_cell E (s\<lparr>ledgers := d\<rparr>) = legacy_cell E s" "cell E (s\<lparr>legacies := d'\<rparr>) = cell E s"
  by (auto simp: cell_def legacy_cell_def)

lemma load_ledger_result:
  assumes "load_ledger E p s = (res, t)"
  shows "same_cells E s t" "res = Inr snapshot \<Longrightarrow> cell E s p = map_option snapshot_value snapshot"
proof -
  obtain r d where m: "load (ledger_env E) 1 p (ledgers s) = (r, d)"
    by (cases "load (ledger_env E) 1 p (ledgers s)") auto
  with assms have t: "t = s\<lparr>ledgers := d\<rparr>" "res = map_err ApprovalState r"
    by (auto simp: load_ledger_def approval_of_def on_ledgers_def)
  then show "same_cells E s t" using load_files [OF m] by (simp add: cell_cong)
  assume "res = Inr snapshot"
  with t(2) have "r = Inr snapshot" by (cases r) auto
  with m have "stored (ledger_env E) 1 (ledgers s) p = Inr snapshot"
    by (auto dest: load_ok)
  then show "cell E s p = map_option snapshot_value snapshot"
    by (cases snapshot) (auto simp: cell_def held_def)
qed

lemma legacy_nonce_result:
  assumes "legacy_nonce E root n s = (res, t)"
  shows "same_cells E s t" "res = Inr snapshot \<Longrightarrow>
    legacy_cell E s (get_approval_nonce_path root n) = map_option snapshot_value snapshot"
proof -
  let ?m = "load (legacy_env E) 1 (get_approval_nonce_path root n)"
  obtain r d where m: "?m (legacies s) = (r, d)" by (cases "?m (legacies s)") auto
  with assms have t: "t = s\<lparr>legacies := d\<rparr>" "res = map_err ApprovalState r"
    by (auto simp: legacy_nonce_def approval_of_def on_legacies_def)
  then show "same_cells E s t" using load_files [OF m] by (simp add: legacy_cell_cong)
  assume "res = Inr snapshot"
  with t(2) have "r = Inr snapshot" by (cases r) auto
  with m have "stored (legacy_env E) 1 (legacies s) (get_approval_nonce_path root n) = Inr snapshot"
    by (auto dest: load_ok)
  then show "legacy_cell E s (get_approval_nonce_path root n) = map_option snapshot_value snapshot"
    by (cases snapshot) (auto simp: legacy_cell_def held_def)
qed

text \<open>A property of what a reader finds.\<close>

definition observes :: "('z) nonce_env_scheme \<Rightarrow> (approval_disks \<Rightarrow> bool) \<Rightarrow> bool" where
  "observes E P \<longleftrightarrow> (\<forall>s t. same_cells E s t \<longrightarrow> P s \<longrightarrow> P t)"

lemma observesD: "observes E P \<Longrightarrow> same_cells E s t \<Longrightarrow> P s \<Longrightarrow> P t"
  by (auto simp: observes_def)

lemma load_ledger_triple:
  assumes "observes E P"
  shows "triple P (load_ledger E p)
    (\<lambda>snapshot s. cell E s p = map_option snapshot_value snapshot \<and> P s) P"
proof (rule tripleI)
  show "cell E t p = map_option snapshot_value x \<and> P t"
    if "P s" "load_ledger E p s = (Inr x, t)" for s x t
    using load_ledger_result [OF that(2)] observesD [OF assms _ that(1)] by simp
  show "P t" if "P s" "load_ledger E p s = (Inl e, t)" for s e t
    using load_ledger_result [OF that(2)] observesD [OF assms _ that(1)] by simp
qed

lemma legacy_nonce_triple:
  assumes "observes E P" "\<And>s. P s \<Longrightarrow> R s"
  shows "triple P (legacy_nonce E root n)
    (\<lambda>snapshot s. legacy_cell E s (get_approval_nonce_path root n) =
        map_option snapshot_value snapshot \<and> P s) R"
proof (rule tripleI)
  show "legacy_cell E t (get_approval_nonce_path root n) = map_option snapshot_value x \<and> P t"
    if "P s" "legacy_nonce E root n s = (Inr x, t)" for s x t
    using legacy_nonce_result [OF that(2)] observesD [OF assms(1) _ that(1)] by simp
  show "R t" if "P s" "legacy_nonce E root n s = (Inl e, t)" for s e t
    using legacy_nonce_result [OF that(2)] observesD [OF assms(1) _ that(1)] assms(2) by simp
qed

lemma bind_load_ledger:
  assumes "observes E P" "\<And>s. P s \<Longrightarrow> R s"
    and "\<And>snapshot. triple (\<lambda>s. cell E s p = map_option snapshot_value snapshot \<and> P s)
          (k snapshot) Q R"
  shows "triple P (bind_exec (load_ledger E p) k) Q R"
proof (rule triple_bind)
  show "triple P (load_ledger E p)
      (\<lambda>snapshot s. cell E s p = map_option snapshot_value snapshot \<and> P s) R"
    by (rule triple_weaken [OF load_ledger_triple [OF assms(1)]]) (use assms(2) in auto)
qed (rule assms(3))

text \<open>Publishing a ledger: it lands on the path, or the old one stays; a retry finds the old one.\<close>

definition with_cell ::
  "('z) nonce_env_scheme \<Rightarrow> approval_disks \<Rightarrow> path \<Rightarrow> nonce_ledger \<Rightarrow> approval_disks \<Rightarrow> bool" where
  "with_cell E s p L t \<longleftrightarrow>
     cell E t = (cell E s)(p := Some L) \<and> legacy_cell E t = legacy_cell E s"

lemma publish_ledger_triple:
  assumes P: "observes E P"
    and new: "\<And>s t. P s \<Longrightarrow> with_cell E s p ledger t \<Longrightarrow> Q ok t \<and> R t"
    and old: "\<And>s. P s \<Longrightarrow> R s"
    and again: "\<And>stale. triple P (retry stale) Q R"
  shows "triple P (publish_ledger E p snapshot owner ledger ok retry) Q R"
proof -
  let ?m = "compare_and_swap (ledger_env E) 1 p (map_option snapshot_revision snapshot) owner ledger"
  have main: "case res of Inl _ \<Rightarrow> R t | Inr x \<Rightarrow> Q x t"
    if s: "P s" and r: "publish_ledger E p snapshot owner ledger ok retry s = (res, t)" for s res t
  proof -
    obtain r d where m: "?m (ledgers s) = (r, d)" by (cases "?m (ledgers s)") auto
    let ?u = "s\<lparr>ledgers := d\<rparr>"
    have f: "on_ledgers ?m s = (r, ?u)" by (simp add: on_ledgers_def m)
    have c: "cell E ?u q = cell E s q" if "q \<noteq> p" for q
      using compare_and_swap_files [OF m that] held_cong [of d q "ledgers s" "ledger_env E" 1]
      by (simp add: cell_def)
    have "(cell E ?u p = cell E s p \<and> (\<exists>e. r = Inl e)) \<or> cell E ?u p = Some ledger"
      using compare_and_swap_held [OF m] by (auto simp: cell_def)
    then have "(cell E ?u = cell E s \<and> (\<exists>e. r = Inl e)) \<or> cell E ?u = (cell E s)(p := Some ledger)"
      using c unfolding fun_eq_iff by (metis fun_upd_apply)
    then have u: "(same_cells E s ?u \<and> (\<exists>e. r = Inl e)) \<or> with_cell E s p ledger ?u"
      by (simp add: with_cell_def)
    show ?thesis
    proof (cases r)
      case (Inr rv)
      with u s r f new show ?thesis by (auto simp: publish_ledger_def)
    next
      case (Inl e)
      show ?thesis
      proof (cases "\<exists>x y. e = StaleRevision x y")
        case True
        then obtain x y where e: "e = StaleRevision x y" by blast
        with Inl m have "same_cells E s ?u" by (auto dest: compare_and_swap_stale simp: cell_cong)
        with P s have "P ?u" by (blast dest: observesD)
        moreover have "retry (StaleRevision x y) ?u = (res, t)"
          using r f e Inl by (simp add: publish_ledger_def)
        ultimately show ?thesis using again [of "StaleRevision x y"]
          by (auto simp: triple_def)
      next
        case False
        with r f Inl have "t = ?u" "\<exists>e. res = Inl e"
          by (auto simp: publish_ledger_def split: state_error.splits)
        moreover have "R ?u" using u s new old P by (blast dest: observesD)
        ultimately show ?thesis by auto
      qed
    qed
  qed
  show ?thesis unfolding triple_def using main by blast
qed

text \<open>
  Merging entries into a ledger: it stays ordered, no nonce is forgotten, no decision changes,
  and a time only moves back to that of a merged entry.
\<close>

lemma same_nonce_decision_trans:
  "same_nonce_decision a b \<Longrightarrow> same_nonce_decision b c \<Longrightarrow> same_nonce_decision a c"
  and same_nonce_decision_sym: "same_nonce_decision a b \<Longrightarrow> same_nonce_decision b a"
  and same_nonce_decision_refl [simp]: "same_nonce_decision a a"
  by (auto simp: same_nonce_decision_def)

lemma reconcile_two_ok:
  assumes "reconcile_two a b = Inr c"
  shows "c = a \<or> c = b" "same_nonce_decision a b" "same_nonce_decision a c"
  using assms by (auto simp: reconcile_two_def same_nonce_decision_def split: if_splits)

definition recorded :: "string \<Rightarrow> consumed_nonce \<Rightarrow> int \<Rightarrow> nonce_ledger \<Rightarrow> bool" where
  "recorded n d t0 L \<longleftrightarrow>
     (\<exists>c. map_of L n = Some c \<and> same_nonce_decision d c \<and> t0 \<le> consumed_at_unix c)"

definition late :: "string \<Rightarrow> int \<Rightarrow> (string \<times> consumed_nonce) list \<Rightarrow> bool" where
  "late n t0 L \<longleftrightarrow> (\<forall>c. (n, c) \<in> set L \<longrightarrow> t0 \<le> consumed_at_unix c)"

lemma late_map_of: "late n t0 L \<Longrightarrow> map_of L n = Some c \<Longrightarrow> t0 \<le> consumed_at_unix c"
  by (auto simp: late_def dest: map_of_SomeD)

lemma late_subset: "late n t0 L \<Longrightarrow> set M \<subseteq> set L \<Longrightarrow> late n t0 M"
  by (auto simp: late_def)

lemma set_btree_insert: "set (btree_insert k v m) \<subseteq> insert (k, v) (set m)"
  by (induction m) auto

lemma late_btree_insert: "late n t0 L \<Longrightarrow> (k = n \<Longrightarrow> t0 \<le> consumed_at_unix v) \<Longrightarrow> late n t0 (btree_insert k v L)"
  using set_btree_insert [of k v L] by (auto simp: late_def)

lemma recorded_filter:
  "btree_ok L \<Longrightarrow> recorded n d t0 L \<Longrightarrow> cutoff \<le> t0 \<Longrightarrow>
     recorded n d t0 (filter (\<lambda>e. consumed_at_unix (snd e) \<ge> cutoff) L)"
  by (auto simp: recorded_def map_of_filter_btree)

lemma merge_entries_keeps:
  assumes "merge_entries es L ch = Inr (L', ch')" "btree_ok L" "recorded n d t0 L" "late n t0 es"
  shows "recorded n d t0 L'"
  using assms
proof (induction es L ch rule: merge_entries.induct)
  case (1 L ch)
  then show ?case by auto
next
  case (2 m x rest L ch)
  have rest: "late n t0 rest" "m = n \<Longrightarrow> t0 \<le> consumed_at_unix x"
    using "2.prems"(4) by (auto simp: late_def)
  show ?case
  proof (cases "map_of L m")
    case None
    with "2.prems"(3) have "m \<noteq> n" by (auto simp: recorded_def)
    with None 2 rest show ?thesis by (auto simp: recorded_def split: if_splits)
  next
    case (Some e)
    with "2.prems"(1) obtain r where r: "reconcile_two e x = Inr r" by (auto simp: and_then_ok)
    have "recorded n d t0 (btree_insert m r L)"
      using "2.prems"(2,3) rest(2) Some reconcile_two_ok [OF r]
      by (auto simp: recorded_def intro: same_nonce_decision_trans)
    with Some r 2 rest show ?thesis by (auto split: if_splits)
  qed
qed

lemma merge_entries_btree_ok:
  "merge_entries es L ch = Inr (L', ch') \<Longrightarrow> btree_ok L \<Longrightarrow> btree_ok L'"
  by (induction es L ch rule: merge_entries.induct)
    (auto simp: and_then_ok split: option.splits if_splits)

lemma merge_entries_changed:
  "merge_entries es L ch = Inr (L', ch') \<Longrightarrow> ch \<Longrightarrow> ch'"
  by (induction es L ch rule: merge_entries.induct)
    (auto simp: and_then_ok split: option.splits if_splits)

lemma merge_entries_unchanged:
  "merge_entries es L ch = Inr (L', False) \<Longrightarrow> L' = L \<and> \<not> ch"
  by (induction es L ch rule: merge_entries.induct)
    (auto simp: and_then_ok split: option.splits if_splits dest: merge_entries_changed)

lemma merge_entries_length:
  "merge_entries es L ch = Inr (L', ch') \<Longrightarrow> btree_ok L \<Longrightarrow>
     length L' \<le> max (length L) max_nonce_ledger_entries"
proof (induction es L ch rule: merge_entries.induct)
  case (2 m x rest L ch)
  have l: "length (btree_insert m c L) = (case map_of L m of None \<Rightarrow> Suc (length L) | Some _ \<Rightarrow> length L)"
    for c using length_btree_insert [OF "2.prems"(2)] by simp
  show ?case
    using 2 l by (fastforce simp: and_then_ok split: option.splits if_splits)
qed auto

text \<open>
  One recovery shard: whatever holds of the disks before, and of the disks with the merged
  ledger in the shard's cell, holds after, through every retry.
\<close>

definition ledger_at :: "('z) nonce_env_scheme \<Rightarrow> approval_disks \<Rightarrow> path \<Rightarrow> nonce_ledger" where
  "ledger_at E s p = (case cell E s p of None \<Rightarrow> [] | Some L \<Rightarrow> L)"

lemma ledger_at_cell [simp]:
  "cell E s p = map_option snapshot_value snapshot \<Longrightarrow> ledger_of snapshot = ledger_at E s p"
  by (cases snapshot) (auto simp: ledger_of_def ledger_at_def)

definition unexpired :: "int \<Rightarrow> nonce_ledger \<Rightarrow> nonce_ledger" where
  "unexpired cutoff L = filter (\<lambda>e. consumed_at_unix (snd e) \<ge> cutoff) L"

lemma merge_shard_attempts_Suc:
  "merge_shard_attempts E root shard entries owner cutoff (Suc n) last_stale =
     bind_exec (load_ledger E (get_approval_nonce_ledger_shard_path root shard)) (\<lambda>snapshot.
     bind_exec (pure_exec (validate_nonce_ledger (ledger_of snapshot) (Some shard))) (\<lambda>_.
     bind_exec (pure_exec (merge_entries entries (unexpired cutoff (ledger_of snapshot))
        (length (unexpired cutoff (ledger_of snapshot)) \<noteq> length (ledger_of snapshot))))
       (\<lambda>(ledger, changed).
     if \<not> changed then pure_exec (Inr ())
     else
       bind_exec (pure_exec (nonce_ledger_owner (map_option snapshot_owner snapshot) owner))
         (\<lambda>ledger_owner.
       publish_ledger E (get_approval_nonce_ledger_shard_path root shard) snapshot ledger_owner
         ledger () (\<lambda>stale. merge_shard_attempts E root shard entries owner cutoff n stale)))))"
  by (rule ext) (simp add: unexpired_def Let_def)

lemma merge_shard_attempts_triple:
  fixes root shard
  defines "p \<equiv> get_approval_nonce_ledger_shard_path root shard"
  assumes P: "observes E P" "\<And>s. P s \<Longrightarrow> R s"
    and same: "\<And>s. P s \<Longrightarrow> unexpired cutoff (ledger_at E s p) = ledger_at E s p \<Longrightarrow>
      merge_entries entries (ledger_at E s p) False = Inr (ledger_at E s p, False) \<Longrightarrow> Q s"
    and step: "\<And>s t ch L ch'. P s \<Longrightarrow>
      merge_entries entries (unexpired cutoff (ledger_at E s p)) ch = Inr (L, ch') \<Longrightarrow>
      with_cell E s p L t \<Longrightarrow> Q t \<and> R t"
  shows "triple P (merge_shard_attempts E root shard entries owner cutoff k stale) (\<lambda>_. Q) R"
proof (induction k arbitrary: stale)
  case 0
  then show ?case using P(2) by (auto simp: triple_def)
next
  case (Suc k)
  let ?P = "\<lambda>snapshot s. cell E s p = map_option snapshot_value snapshot \<and> P s"
  have obs: "observes E (?P snapshot)" for snapshot
    using P(1) unfolding observes_def by auto
  have merged: "triple (?P snapshot)
      (if \<not> changed then pure_exec (Inr ())
       else bind_exec (pure_exec (nonce_ledger_owner (map_option snapshot_owner snapshot) owner))
         (\<lambda>ledger_owner. publish_ledger E p snapshot ledger_owner ledger ()
           (\<lambda>stale. merge_shard_attempts E root shard entries owner cutoff k stale)))
      (\<lambda>_. Q) R"
    if m: "merge_entries entries (unexpired cutoff (ledger_of snapshot))
        (length (unexpired cutoff (ledger_of snapshot)) \<noteq> length (ledger_of snapshot)) =
        Inr (ledger, changed)" for snapshot ledger changed
  proof (cases changed)
    case False
    with m have same_ledger: "unexpired cutoff (ledger_of snapshot) = ledger_of snapshot"
      using merge_entries_unchanged [of entries "unexpired cutoff (ledger_of snapshot)"]
      by (auto simp: unexpired_def filter_eq_length)
    with False m have "merge_entries entries (ledger_of snapshot) False = Inr (ledger, False)" by simp
    with merge_entries_unchanged [OF this]
    have "merge_entries entries (ledger_of snapshot) False = Inr (ledger_of snapshot, False)" by simp
    with False show ?thesis using same same_ledger P(2) by (auto intro!: triple_pure)
  next
    case True
    have "triple (?P snapshot) (publish_ledger E p snapshot ledger_owner ledger ()
        (\<lambda>stale. merge_shard_attempts E root shard entries owner cutoff k stale)) (\<lambda>_. Q) R"
      for ledger_owner
    proof (rule publish_ledger_triple [OF obs])
      show "Q t \<and> R t" if "?P snapshot s" "with_cell E s p ledger t" for s t
        using step [of s _ ledger changed t] m that by auto
    qed (use Suc P(2) in \<open>auto intro: triple_pre\<close>)
    with True show ?thesis using P(2) by (auto intro!: triple_pure_bind)
  qed
  show ?case
    unfolding merge_shard_attempts_Suc p_def [symmetric]
  proof (rule bind_load_ledger [OF P])
    show "triple (?P snapshot) (bind_exec (pure_exec (validate_nonce_ledger (ledger_of snapshot) (Some shard)))
       (\<lambda>_. bind_exec (pure_exec (merge_entries entries (unexpired cutoff (ledger_of snapshot))
         (length (unexpired cutoff (ledger_of snapshot)) \<noteq> length (ledger_of snapshot))))
       (\<lambda>(ledger, changed).
         if \<not> changed then pure_exec (Inr ())
         else bind_exec (pure_exec (nonce_ledger_owner (map_option snapshot_owner snapshot) owner))
           (\<lambda>ledger_owner. publish_ledger E p snapshot ledger_owner ledger ()
             (\<lambda>stale. merge_shard_attempts E root shard entries owner cutoff k stale)))))
      (\<lambda>_. Q) R" for snapshot
    proof (intro triple_pure_bind)
      fix u :: unit and m :: "nonce_ledger \<times> bool"
      assume "merge_entries entries (unexpired cutoff (ledger_of snapshot))
         (length (unexpired cutoff (ledger_of snapshot)) \<noteq> length (ledger_of snapshot)) = Inr m"
      then show "triple (?P snapshot) ((\<lambda>(ledger, changed).
         if \<not> changed then pure_exec (Inr ())
         else bind_exec (pure_exec (nonce_ledger_owner (map_option snapshot_owner snapshot) owner))
           (\<lambda>ledger_owner. publish_ledger E p snapshot ledger_owner ledger ()
             (\<lambda>stale. merge_shard_attempts E root shard entries owner cutoff k stale))) m)
        (\<lambda>_. Q) R"
        using merged by (cases m) auto
    qed (use P(2) in auto)
  qed
qed

lemma group_shards_subset:
  assumes "group_shards es shards = Inr shards'" "b \<in> snd ` set shards'"
  shows "set b \<subseteq> set es \<union> \<Union> (set ` snd ` set shards)"
  using assms
proof (induction es shards arbitrary: b rule: group_shards.induct)
  case (1 shards)
  then show ?case by auto
next
  case (2 n c rest shards)
  let ?bucket = "\<lambda>sh. (case map_of shards sh of None \<Rightarrow> [] | Some b \<Rightarrow> b)"
  obtain sh where sh: "nonce_ledger_shard n = Inr sh"
    and r: "group_shards rest (btree_insert sh (btree_insert n c (?bucket sh)) shards) = Inr shards'"
    using "2.prems"(1) by (auto simp: and_then_ok Let_def)
  have bucket: "set (?bucket sh) \<subseteq> \<Union> (set ` snd ` set shards)"
    by (cases "map_of shards sh") (force dest: map_of_SomeD)+
  have "set b \<subseteq> set rest \<union>
      \<Union> (set ` snd ` set (btree_insert sh (btree_insert n c (?bucket sh)) shards))"
    by (rule "2.IH" [OF sh refl r "2.prems"(2)])
  also have "\<dots> \<subseteq> set rest \<union> set (btree_insert n c (?bucket sh)) \<union> \<Union> (set ` snd ` set shards)"
    using set_btree_insert [of sh "btree_insert n c (?bucket sh)" shards] by fastforce
  also have "\<dots> \<subseteq> set ((n, c) # rest) \<union> \<Union> (set ` snd ` set shards)"
    using set_btree_insert [of n c "?bucket sh"] bucket by auto
  finally show ?case .
qed

text \<open>The recovery ledger as a whole.\<close>

lemma merge_recovery_entries_keeps:
  assumes I: "observes E I"
    and step: "\<And>s t es sh ch L ch'. I s \<Longrightarrow> set es \<subseteq> set entries \<Longrightarrow>
      merge_entries es (unexpired cutoff (ledger_at E s (get_approval_nonce_ledger_shard_path root sh))) ch
        = Inr (L, ch') \<Longrightarrow>
      with_cell E s (get_approval_nonce_ledger_shard_path root sh) L t \<Longrightarrow> I t"
  shows "triple I (merge_recovery_entries E root entries owner cutoff) (\<lambda>_. I) I"
proof -
  have shard: "triple I (merge_recovery_shard E root es owner cutoff) (\<lambda>_. I) I"
    if "set es \<subseteq> set entries" for es
  proof (cases es)
    case Nil
    then show ?thesis by (auto simp: merge_recovery_shard_def intro: triple_pure)
  next
    case (Cons e rest)
    have "triple I (merge_shard_attempts E root sh es owner cutoff nonce_ledger_update_attempts
        (StaleRevision None None)) (\<lambda>_. I) I" for sh
      by (rule merge_shard_attempts_triple [OF I]) (use step that in blast)+
    with Cons show ?thesis
      by (cases e) (auto simp: merge_recovery_shard_def intro!: triple_pure_bind)
  qed
  have all: "triple I (merge_shards E root bs owner cutoff) (\<lambda>_. I) I"
    if "\<forall>b\<in>set bs. set b \<subseteq> set entries" for bs
    using that
  proof (induction bs)
    case Nil
    then show ?case by (auto simp: triple_def)
  next
    case (Cons b bs)
    have "merge_shards E root (b # bs) owner cutoff =
        bind_exec (merge_recovery_shard E root b owner cutoff)
          (\<lambda>_. merge_shards E root bs owner cutoff)" by (rule ext) simp
    with Cons shard [of b] show ?case by (auto intro: triple_bind)
  qed
  have "triple I (merge_shards E root (map snd shards) owner cutoff) (\<lambda>_. I) I"
    if "group_shards entries [] = Inr shards" for shards
    by (rule all) (use group_shards_subset [OF that] in auto)
  then show ?thesis unfolding merge_recovery_entries_def by (blast intro: triple_pure_bind)
qed

lemma merge_recovery_entries_single:
  "merge_recovery_entries E root [(n, c)] owner cutoff =
     bind_exec (pure_exec (nonce_ledger_shard n)) (\<lambda>sh.
       merge_shard_attempts E root sh [(n, c)] owner cutoff nonce_ledger_update_attempts
         (StaleRevision None None))"
proof
  fix s
  show "merge_recovery_entries E root [(n, c)] owner cutoff s =
     bind_exec (pure_exec (nonce_ledger_shard n)) (\<lambda>sh.
       merge_shard_attempts E root sh [(n, c)] owner cutoff nonce_ledger_update_attempts
         (StaleRevision None None)) s"
    by (cases "nonce_ledger_shard n")
      (auto simp: merge_recovery_entries_def merge_recovery_shard_def bind_exec_def pure_exec_def
        and_then_def nonce_ledger_update_attempts_def split: prod.splits sum.splits)
qed

subsection \<open>What is remembered of a consumed nonce\<close>

definition ordered :: "('z) nonce_env_scheme \<Rightarrow> approval_disks \<Rightarrow> bool" where
  "ordered E s \<longleftrightarrow> (\<forall>p L. cell E s p = Some L \<longrightarrow> btree_ok L)"

definition in_recovery ::
  "('z) nonce_env_scheme \<Rightarrow> path \<Rightarrow> string \<Rightarrow> consumed_nonce \<Rightarrow> int \<Rightarrow> approval_disks \<Rightarrow> bool" where
  "in_recovery E root n d t0 s \<longleftrightarrow>
     is_lower_hex_digest n \<and>
     recorded n d t0 (ledger_at E s (get_approval_nonce_ledger_shard_path root (take 2 n)))"

definition remembers ::
  "('z) nonce_env_scheme \<Rightarrow> path \<Rightarrow> string \<Rightarrow> consumed_nonce \<Rightarrow> int \<Rightarrow> approval_disks \<Rightarrow> bool" where
  "remembers E root n d t0 s \<longleftrightarrow>
     ordered E s \<and> in_recovery E root n d t0 s \<and>
     late n t0 (ledger_at E s (get_approval_nonce_ledger_path root)) \<and>
     (\<forall>c. legacy_cell E s (get_approval_nonce_path root n) = Some c \<longrightarrow> t0 \<le> consumed_at_unix c)"

lemma observes_facts [intro]:
  "observes E (ordered E)" "observes E (in_recovery E root n d t0)" "observes E (remembers E root n d t0)"
  by (auto simp: observes_def ordered_def in_recovery_def remembers_def ledger_at_def)

lemma ordered_ledger: "ordered E s \<Longrightarrow> btree_ok (ledger_at E s p)"
  by (auto simp: ordered_def ledger_at_def split: option.splits)

lemma ordered_write: "ordered E s \<Longrightarrow> with_cell E s p L t \<Longrightarrow> btree_ok L \<Longrightarrow> ordered E t"
  by (auto simp: ordered_def with_cell_def split: if_splits)

lemma ledger_at_write: "with_cell E s p L t \<Longrightarrow> ledger_at E t q = (if q = p then L else ledger_at E s q)"
  by (auto simp: with_cell_def ledger_at_def)

lemma legacy_cell_write: "with_cell E s p L t \<Longrightarrow> legacy_cell E t = legacy_cell E s"
  by (simp add: with_cell_def)

lemma unexpired_btree_ok: "btree_ok L \<Longrightarrow> btree_ok (unexpired cutoff L)"
  by (simp add: unexpired_def)

lemma ordered_merge:
  assumes "ordered E s" "merge_entries es (unexpired cutoff (ledger_at E s p)) ch = Inr (L, ch')"
    and "with_cell E s p L t"
  shows "ordered E t"
  using ordered_write [OF assms(1,3)] merge_entries_btree_ok [OF assms(2)]
    unexpired_btree_ok [OF ordered_ledger [OF assms(1)]] by blast

lemma in_recovery_merge:
  fixes root sh
  defines "p \<equiv> get_approval_nonce_ledger_shard_path root sh"
  assumes "ordered E s" "in_recovery E root n d t0 s" "late n t0 es" "cutoff \<le> t0"
    and "merge_entries es (unexpired cutoff (ledger_at E s p)) ch = Inr (L, ch')"
    and "with_cell E s p L t"
  shows "in_recovery E root n d t0 t"
proof (cases "p = get_approval_nonce_ledger_shard_path root (take 2 n)")
  case True
  have "btree_ok (ledger_at E s p)" using assms(2) by (rule ordered_ledger)
  then have "recorded n d t0 (unexpired cutoff (ledger_at E s p))"
    using assms(3,5) True by (auto simp: in_recovery_def unexpired_def intro: recorded_filter)
  then have "recorded n d t0 L"
    using merge_entries_keeps [OF assms(6)] assms(4) \<open>btree_ok _\<close> by (simp add: unexpired_btree_ok)
  then show ?thesis using assms(3) True ledger_at_write [OF assms(7)] by (simp add: in_recovery_def)
next
  case False
  then show ?thesis using assms(3) ledger_at_write [OF assms(7)] by (simp add: in_recovery_def)
qed

lemma remembers_merge:
  assumes "remembers E root n d t0 s" "late n t0 es" "cutoff \<le> t0"
    and "merge_entries es (unexpired cutoff
          (ledger_at E s (get_approval_nonce_ledger_shard_path root sh))) ch = Inr (L, ch')"
    and w: "with_cell E s (get_approval_nonce_ledger_shard_path root sh) L t"
  shows "remembers E root n d t0 t"
  using assms ordered_merge [OF _ assms(4) w] in_recovery_merge [OF _ _ assms(2,3,4) w]
    ledger_at_write [OF w] legacy_cell_write [OF w]
  by (simp add: remembers_def)

lemma merge_recovery_entries_remembers:
  assumes "late n t0 entries" "cutoff \<le> t0"
  shows "triple (remembers E root n d t0) (merge_recovery_entries E root entries owner cutoff)
    (\<lambda>_. remembers E root n d t0) (remembers E root n d t0)"
proof (rule merge_recovery_entries_keeps)
  show "remembers E root n d t0 t"
    if "remembers E root n d t0 s" "set es \<subseteq> set entries"
      "merge_entries es (unexpired cutoff
         (ledger_at E s (get_approval_nonce_ledger_shard_path root sh))) ch = Inr (L, ch')"
      "with_cell E s (get_approval_nonce_ledger_shard_path root sh) L t" for s t es sh ch L ch'
    using remembers_merge [OF that(1) late_subset [OF assms(1) that(2)] assms(2) that(3,4)] .
qed auto

lemma reconcile_all_ok:
  "reconcile_all e cs = Inr res \<Longrightarrow>
     res \<in> insert e (set cs) \<and>
     (\<forall>x. Some x \<in> insert e (set cs) \<longrightarrow> (\<exists>c. res = Some c \<and> same_nonce_decision x c))"
proof (induction cs arbitrary: e)
  case Nil
  then show ?case by auto
next
  case (Cons a cs)
  obtain f where f: "reconcile_consumed_nonce e a = Inr f" "reconcile_all f cs = Inr res"
    using Cons.prems by (auto simp: and_then_ok)
  have fe: "f = e \<or> f = a" "Some x \<in> {e, a} \<Longrightarrow> \<exists>c. f = Some c \<and> same_nonce_decision x c" for x
    using f(1) by (auto simp: reconcile_consumed_nonce_def reconcile_two_def same_nonce_decision_def
        split: option.splits if_splits)
  have IH: "res \<in> insert f (set cs)"
    "Some x \<in> insert f (set cs) \<Longrightarrow> \<exists>c. res = Some c \<and> same_nonce_decision x c" for x
    using Cons.IH [OF f(2)] by blast+
  have "\<exists>c. res = Some c \<and> same_nonce_decision x c" if "Some x \<in> {e, a}" for x
    using fe(2) [OF that] IH(2) by (fast intro: same_nonce_decision_trans)
  with IH fe(1) show ?case by auto
qed

lemma reconcile_all_None:
  "reconcile_all e cs = Inr None \<Longrightarrow> e = None \<and> (\<forall>c\<in>set cs. c = None)"
  using reconcile_all_ok [of e cs None] by (metis insert_iff not_None_eq option.distinct(1))

subsection \<open>The active ledger\<close>

definition recent :: "int \<Rightarrow> nonce_ledger \<Rightarrow> nonce_ledger" where
  "recent now L = filter (\<lambda>e. consumed_at_unix (snd e) >
     saturating_sub now max_approval_lifetime_seconds) L"

definition recoverable :: "int \<Rightarrow> nonce_ledger \<Rightarrow> nonce_ledger" where
  "recoverable now L = filter (\<lambda>e.
     consumed_at_unix (snd e) \<le> saturating_sub now max_approval_lifetime_seconds \<and>
     consumed_at_unix (snd e) \<ge> saturating_sub now nonce_retention_seconds) L"

lemma reserve_attempts_Suc:
  "reserve_attempts E root n r now owner legacy recovery (Suc k) last_stale =
     bind_exec (load_ledger E (get_approval_nonce_ledger_path root)) (\<lambda>snapshot.
     bind_exec (pure_exec (validate_nonce_ledger (ledger_of snapshot) None)) (\<lambda>_.
     bind_exec (merge_recovery_entries E root (recoverable now (ledger_of snapshot)) owner
         (saturating_sub now nonce_retention_seconds)) (\<lambda>_.
     bind_exec (pure_exec (reconcile_all None
         [map_of (recent now (ledger_of snapshot)) n, map_of (recoverable now (ledger_of snapshot)) n,
          recovery, legacy])) (\<lambda>existing.
     bind_exec (pure_exec (reserve_decision n r (recent now (ledger_of snapshot))
         (length (recent now (ledger_of snapshot)) \<noteq> length (ledger_of snapshot)) existing))
       (\<lambda>(written, consumption).
     case written of
       None \<Rightarrow> pure_exec (Inr consumption)
     | Some ledger' \<Rightarrow>
         bind_exec (pure_exec (nonce_ledger_owner (map_option snapshot_owner snapshot) owner))
           (\<lambda>ledger_owner.
         publish_ledger E (get_approval_nonce_ledger_path root) snapshot ledger_owner ledger'
           consumption
           (\<lambda>stale. reserve_attempts E root n r now owner legacy recovery k stale)))))))"
  by (rule ext) (simp add: recent_def recoverable_def Let_def)

lemma reserve_decision_ok:
  assumes "reserve_decision n r L pruned existing = Inr (written, c)"
  shows "existing = Some e \<Longrightarrow> same_nonce_decision e r \<and> c = AttachedToSameOperation \<and>
      (written = None \<or> written = Some (btree_insert n e L))"
    "existing = None \<Longrightarrow> c = Consumed \<and> written = Some (btree_insert n r L)"
    "written = Some L' \<Longrightarrow> length L \<le> max_nonce_ledger_entries \<Longrightarrow> btree_ok L \<Longrightarrow>
       length L' \<le> max_nonce_ledger_entries"
  using assms
  by (auto simp: reserve_decision_def length_btree_insert split: option.splits if_splits)

lemma reserve_attempts_triple:
  fixes root now r n recovery legacy
  defines "p \<equiv> get_approval_nonce_ledger_path root"
  assumes P: "observes E P" "\<And>s. P s \<Longrightarrow> R s"
    and merged: "\<And>A. triple (\<lambda>s. P s \<and> ledger_at E s p = A)
      (merge_recovery_entries E root (recoverable now A) owner
        (saturating_sub now nonce_retention_seconds))
      (\<lambda>_ s. P s \<and> ledger_at E s p = A) R"
    and decided: "\<And>s existing written c. P s \<Longrightarrow>
      reconcile_all None [map_of (recent now (ledger_at E s p)) n,
        map_of (recoverable now (ledger_at E s p)) n, recovery, legacy] = Inr existing \<Longrightarrow>
      reserve_decision n r (recent now (ledger_at E s p))
        (length (recent now (ledger_at E s p)) \<noteq> length (ledger_at E s p)) existing =
        Inr (written, c) \<Longrightarrow>
      (case written of None \<Rightarrow> Q c s | Some L \<Rightarrow> \<forall>t. with_cell E s p L t \<longrightarrow> Q c t \<and> R t)"
  shows "triple P (reserve_attempts E root n r now owner legacy recovery k stale) Q R"
proof (induction k arbitrary: stale)
  case 0
  then show ?case using P(2) by (auto simp: triple_def)
next
  case (Suc k)
  let ?P = "\<lambda>A s. P s \<and> ledger_at E s p = A"
  have obs: "observes E (?P A)" for A
    using P(1) unfolding observes_def ledger_at_def by auto
  have P_R: "?P A s \<Longrightarrow> R s" for A s using P(2) by blast
  let ?last = "\<lambda>snapshot A existing. bind_exec (pure_exec (reserve_decision n r (recent now A)
         (length (recent now A) \<noteq> length A) existing))
       (\<lambda>(written, consumption).
     case written of
       None \<Rightarrow> pure_exec (Inr consumption)
     | Some ledger' \<Rightarrow>
         bind_exec (pure_exec (nonce_ledger_owner (map_option snapshot_owner snapshot) owner))
           (\<lambda>ledger_owner.
         publish_ledger E p snapshot ledger_owner ledger' consumption
           (\<lambda>stale. reserve_attempts E root n r now owner legacy recovery k stale)))"
  have last: "triple (?P A) (?last snapshot A existing) Q R"
    if e: "reconcile_all None [map_of (recent now A) n, map_of (recoverable now A) n, recovery, legacy]
        = Inr existing" for snapshot A existing
  proof (rule triple_pure_bind [OF _ P_R])
    fix d
    assume d: "reserve_decision n r (recent now A) (length (recent now A) \<noteq> length A) existing = Inr d"
    obtain written c where wc: "d = (written, c)" by (cases d)
    show "triple (?P A) (case d of (written, consumption) \<Rightarrow>
        case written of
       None \<Rightarrow> pure_exec (Inr consumption)
     | Some ledger' \<Rightarrow>
         bind_exec (pure_exec (nonce_ledger_owner (map_option snapshot_owner snapshot) owner))
           (\<lambda>ledger_owner.
         publish_ledger E p snapshot ledger_owner ledger' consumption
           (\<lambda>stale. reserve_attempts E root n r now owner legacy recovery k stale))) Q R"
    proof (cases written)
      case None
      have "?P A s \<Longrightarrow> Q c s" for s using decided [of s existing None c] e d wc None by auto
      with None wc P_R show ?thesis by (auto intro!: triple_pure)
    next
      case (Some L)
      have w: "?P A s \<Longrightarrow> with_cell E s p L t \<Longrightarrow> Q c t \<and> R t" for s t
        using decided [of s existing "Some L" c] e d wc Some by auto
      have "triple (?P A) (publish_ledger E p snapshot ledger_owner L c
           (\<lambda>stale. reserve_attempts E root n r now owner legacy recovery k stale)) Q R" for ledger_owner
      proof (rule publish_ledger_triple [OF obs w P_R triple_pre [OF Suc]])
      qed auto
      with Some wc P_R show ?thesis by (auto intro!: triple_pure_bind)
    qed
  qed
  let ?rest = "\<lambda>snapshot A. bind_exec (merge_recovery_entries E root (recoverable now A) owner
         (saturating_sub now nonce_retention_seconds)) (\<lambda>_.
     bind_exec (pure_exec (reconcile_all None
         [map_of (recent now A) n, map_of (recoverable now A) n, recovery, legacy]))
       (?last snapshot A))"
  have rest: "triple (?P A) (?rest snapshot A) Q R" for snapshot A
    by (rule triple_bind [OF merged], rule triple_pure_bind [OF last P_R])
  show ?case
    unfolding reserve_attempts_Suc p_def [symmetric]
  proof (rule bind_load_ledger [OF P])
    fix snapshot
    have "triple (\<lambda>s. cell E s p = map_option snapshot_value snapshot \<and> P s)
        (?rest snapshot (ledger_of snapshot)) Q R"
      by (rule triple_pre [OF rest]) auto
    then show "triple (\<lambda>s. cell E s p = map_option snapshot_value snapshot \<and> P s)
        (bind_exec (pure_exec (validate_nonce_ledger (ledger_of snapshot) None))
          (\<lambda>_. ?rest snapshot (ledger_of snapshot))) Q R"
      by (rule triple_pure_bind) (use P(2) in auto)
  qed
qed

subsection \<open>Consuming\<close>

lemma recovery_nonce_triple:
  assumes "observes E P" "\<And>s. P s \<Longrightarrow> R s"
  shows "triple P (recovery_nonce E root n)
    (\<lambda>found s. is_lower_hex_digest n \<and>
       found = map_of (ledger_at E s (get_approval_nonce_ledger_shard_path root (take 2 n))) n \<and> P s) R"
  unfolding recovery_nonce_def
proof (rule triple_pure_bind [OF bind_load_ledger [OF assms] assms(2)])
  fix sh snapshot
  assume "nonce_ledger_shard n = Inr sh"
  then have sh: "is_lower_hex_digest n" "sh = take 2 n"
    by (auto simp: nonce_ledger_shard_def split: if_splits)
  show "triple (\<lambda>s. cell E s (get_approval_nonce_ledger_shard_path root sh) =
          map_option snapshot_value snapshot \<and> P s)
     (case snapshot of None \<Rightarrow> pure_exec (Inr None)
      | Some s \<Rightarrow> bind_exec (pure_exec (validate_nonce_ledger (snapshot_value s) (Some sh)))
          (\<lambda>_. pure_exec (Inr (map_of (snapshot_value s) n))))
     (\<lambda>found s. is_lower_hex_digest n \<and>
       found = map_of (ledger_at E s (get_approval_nonce_ledger_shard_path root (take 2 n))) n \<and> P s) R"
    using sh assms(2)
    by (auto simp: ledger_at_def intro!: triple_pure triple_pure_bind split: option.split)
qed

lemma active_ledger_nonce_triple:
  assumes "observes E P" "\<And>s. P s \<Longrightarrow> R s"
  shows "triple P (active_ledger_nonce E root n)
    (\<lambda>found s. found = map_of (ledger_at E s (get_approval_nonce_ledger_path root)) n \<and> P s) R"
  unfolding active_ledger_nonce_def
proof (rule bind_load_ledger [OF assms])
  fix snapshot :: "nonce_ledger state_snapshot option"
  show "triple (\<lambda>s. cell E s (get_approval_nonce_ledger_path root) =
          map_option snapshot_value snapshot \<and> P s)
     (case snapshot of None \<Rightarrow> pure_exec (Inr None)
      | Some s \<Rightarrow> bind_exec (pure_exec (validate_nonce_ledger (snapshot_value s) None))
          (\<lambda>_. pure_exec (Inr (map_of (snapshot_value s) n))))
     (\<lambda>found s. found = map_of (ledger_at E s (get_approval_nonce_ledger_path root)) n \<and> P s) R"
    using assms(2)
    by (auto simp: ledger_at_def intro!: triple_pure triple_pure_bind split: option.split)
qed

lemma acquire_consumption_lock_triple:
  assumes "observes E P" "\<And>s. P s \<Longrightarrow> R s"
  shows "triple P acquire_consumption_lock (\<lambda>_. P) R"
proof -
  have "P t" if s: "P s" and r: "acquire_consumption_lock s = (r, t)" for s r t
  proof -
    obtain a d where a: "access (ledgers s) = (a, d)" by (cases "access (ledgers s)") auto
    with r have "t = s\<lparr>ledgers := d\<rparr>"
      by (cases a) (auto simp: acquire_consumption_lock_def approval_of_def on_ledgers_def
          bind_exec_def pure_exec_def)
    moreover have "files d = files (ledgers s)" using a by (auto dest: access_result)
    ultimately show ?thesis using observesD [OF assms(1) _ s] by (simp add: cell_cong)
  qed
  then show ?thesis using assms(2) by (auto intro!: tripleI)
qed

definition consumption_record :: "verified_approval \<Rightarrow> int \<Rightarrow> consumed_nonce" where
  "consumption_record approval now =
     \<lparr>nonce_operation_id = approved_operation_id approval,
      nonce_decision_digest = approved_decision_digest approval, consumed_at_unix = now\<rparr>"

definition only_if :: "('a \<Rightarrow> bool) \<Rightarrow> 'a option \<Rightarrow> 'a option" where
  "only_if b v = Option.bind v (\<lambda>c. if b c then Some c else None)"

lemma only_if_Some [simp]:
  "only_if b v = Some c \<longleftrightarrow> v = Some c \<and> b c" "Some c = only_if b v \<longleftrightarrow> v = Some c \<and> b c"
  by (cases v; auto simp: only_if_def)+

lemma only_if_None: "only_if b v = None \<longleftrightarrow> (\<forall>c. v = Some c \<longrightarrow> \<not> b c)"
  by (cases v) (auto simp: only_if_def)

text \<open>
  The whole of \<open>consume_or_attach\<close>, with its reads named: \<open>P\<close> holds before, \<open>Q\<close> with the outcome.
\<close>

lemma legacy_removed:
  assumes "on_legacies (remove_if_revision (legacy_env E) 1 p x) s = (r, t)"
  shows "cell E t = cell E s" "legacy_cell E t q = Some c \<Longrightarrow> legacy_cell E s q = Some c"
proof -
  obtain a d where m: "remove_if_revision (legacy_env E) 1 p x (legacies s) = (a, d)"
    by (cases "remove_if_revision (legacy_env E) 1 p x (legacies s)") auto
  with assms have t: "t = s\<lparr>legacies := d\<rparr>" by (simp add: on_legacies_def)
  then show "cell E t = cell E s" by simp
  assume c: "legacy_cell E t q = Some c"
  have "map_of (files d) q = map_of (files (legacies s)) q \<or> map_of (files d) q = None"
    using remove_if_revision_files [OF m, of q] by auto
  then show "legacy_cell E s q = Some c"
  proof
    assume "map_of (files d) q = map_of (files (legacies s)) q"
    with c t show ?thesis using held_cong [of d q "legacies s" "legacy_env E" 1]
      by (simp add: legacy_cell_def)
  next
    assume "map_of (files d) q = None"
    with c t show ?thesis
      by (simp add: legacy_cell_def held_def read_snapshot_def read_snapshot_compatible_def)
  qed
qed

lemma consume_or_attach_triple:
  fixes E :: "('z) nonce_env_scheme" and approval now root
  defines "n \<equiv> nonce_digest_of E (approved_nonce approval)"
    and "new \<equiv> consumption_record approval now"
  assumes P: "observes E P" "\<And>s. P s \<Longrightarrow> R s"
    and consumed: "\<And>legacy recovery active canonical.
      reconcile_all (Some new)
        [only_if (\<lambda>c. consumed_at_unix c > saturating_sub now max_approval_lifetime_seconds) active,
         only_if (\<lambda>c. consumed_at_unix c \<ge> saturating_sub now nonce_retention_seconds) recovery,
         legacy] = Inr canonical \<Longrightarrow>
      triple (\<lambda>s. P s \<and> legacy_cell E s (get_approval_nonce_path root n) = legacy \<and>
          is_lower_hex_digest n \<and>
          map_of (ledger_at E s (get_approval_nonce_ledger_shard_path root (take 2 n))) n = recovery \<and>
          map_of (ledger_at E s (get_approval_nonce_ledger_path root)) n = active)
        (bind_exec (merge_recovery_entries E root
           [(n, case canonical of Some c \<Rightarrow> c | None \<Rightarrow> new)] owner
           (saturating_sub now nonce_retention_seconds)) (\<lambda>_.
         reserve_attempts E root n (case canonical of Some c \<Rightarrow> c | None \<Rightarrow> new) now owner legacy
           (only_if (\<lambda>c. consumed_at_unix c \<ge> saturating_sub now nonce_retention_seconds) recovery)
           nonce_ledger_update_attempts (StaleRevision None None)))
        Q R"
    and removed: "\<And>c s t. Q c s \<Longrightarrow> cell E t = cell E s \<Longrightarrow>
      (\<And>q x. legacy_cell E t q = Some x \<Longrightarrow> legacy_cell E s q = Some x) \<Longrightarrow> Q c t"
  shows "triple P (consume_or_attach E root approval now owner) Q R"
proof -
  let ?rc = "saturating_sub now nonce_retention_seconds"
  let ?ac = "saturating_sub now max_approval_lifetime_seconds"
  let ?finish = "\<lambda>snapshot :: consumed_nonce state_snapshot option. \<lambda>consumption s.
     (case snapshot of
        None \<Rightarrow> (Inr consumption, s)
      | Some l \<Rightarrow>
          (Inr consumption,
           snd (on_legacies (remove_if_revision (legacy_env E) 1
             (get_approval_nonce_path root n) (snapshot_revision l)) s)))"
  let ?tail = "\<lambda>snapshot legacy recovery r. bind_exec (merge_recovery_entries E root [(n, r)] owner ?rc) (\<lambda>_.
       bind_exec (reserve_attempts E root n r now owner legacy recovery
         nonce_ledger_update_attempts (StaleRevision None None)) (?finish snapshot))"
  let ?L = "\<lambda>legacy s. legacy_cell E s (get_approval_nonce_path root n) = legacy \<and> P s"
  let ?LR = "\<lambda>legacy recovery s. is_lower_hex_digest n \<and> recovery =
       map_of (ledger_at E s (get_approval_nonce_ledger_shard_path root (take 2 n))) n \<and> ?L legacy s"
  let ?LRA = "\<lambda>legacy recovery active s.
       active = map_of (ledger_at E s (get_approval_nonce_ledger_path root)) n \<and> ?LR legacy recovery s"
  have R: "?L legacy s \<Longrightarrow> R s" "?LR legacy recovery s \<Longrightarrow> R s" "?LRA legacy recovery active s \<Longrightarrow> R s"
    for legacy recovery active s using P(2) by blast+
  have obs: "observes E (?L legacy)" "observes E (?LR legacy recovery)" for legacy recovery
    using P(1) unfolding observes_def ledger_at_def by auto
  have finish: "triple (Q c) (?finish snapshot c) Q R" for snapshot c
  proof (cases snapshot)
    case (Some l)
    let ?m = "on_legacies (remove_if_revision (legacy_env E) 1 (get_approval_nonce_path root n)
      (snapshot_revision l))"
    have "Q c (snd (?m s))" if "Q c s" for s
    proof -
      obtain u t where ut: "?m s = (u, t)" by (cases "?m s")
      show ?thesis using removed [OF that legacy_removed [OF ut]] ut by simp
    qed
    with Some show ?thesis by (auto simp: triple_def)
  qed (auto simp: triple_def)
  have tail: "triple (?LRA legacy recovery active)
      (?tail snapshot legacy (only_if (\<lambda>c. consumed_at_unix c \<ge> ?rc) recovery)
        (case canonical of Some c \<Rightarrow> c | None \<Rightarrow> new)) Q R"
    if "reconcile_all (Some new) [only_if (\<lambda>c. consumed_at_unix c > ?ac) active,
         only_if (\<lambda>c. consumed_at_unix c \<ge> ?rc) recovery, legacy] = Inr canonical"
    for snapshot legacy recovery active canonical
    unfolding bind_exec_assoc [symmetric]
    by (rule triple_bind [OF triple_pre [OF consumed [OF that]] finish]) auto
  show ?thesis
    unfolding consume_or_attach_def Let_def n_def [symmetric] consumption_record_def [symmetric]
      new_def [symmetric] only_if_def [symmetric]
    by (intro triple_pure_bind triple_bind [OF acquire_consumption_lock_triple [OF P]]
        triple_bind [OF legacy_nonce_triple [OF P]]
        triple_bind [OF recovery_nonce_triple [OF obs(1) R(1)]]
        triple_bind [OF active_ledger_nonce_triple [OF obs(2) R(2)]] tail P(2))
      (assumption | (elim conjE, assumption))+
qed

subsection \<open>A remembered nonce stays remembered\<close>

lemma reconciled_late:
  assumes "reconcile_all None [map_of (recent now A) n, map_of (recoverable now A) n, recovery, legacy]
      = Inr (Some e)" "late n t0 A"
    and "\<And>c. recovery = Some c \<Longrightarrow> t0 \<le> consumed_at_unix c"
    and "\<And>c. legacy = Some c \<Longrightarrow> t0 \<le> consumed_at_unix c"
  shows "t0 \<le> consumed_at_unix e"
proof -
  have "late n t0 (recent now A)" "late n t0 (recoverable now A)"
    using assms(2) by (auto simp: recent_def recoverable_def late_def)
  with reconcile_all_ok [OF assms(1)] assms(3,4) show ?thesis
    by (auto dest: late_map_of [OF _ sym])
qed

lemma reserve_attempts_remembers:
  assumes t0: "saturating_sub now nonce_retention_seconds \<le> t0"
    and new: "m = n \<Longrightarrow> t0 \<le> consumed_at_unix r" "m = n \<Longrightarrow> recovery = Some c0"
      "m = n \<Longrightarrow> t0 \<le> consumed_at_unix c0"
      "\<And>c. m = n \<Longrightarrow> legacy = Some c \<Longrightarrow> t0 \<le> consumed_at_unix c"
  shows "triple (remembers E root n d t0)
    (reserve_attempts E root m r now owner legacy recovery k stale)
    (\<lambda>c s. remembers E root n d t0 s \<and> (m = n \<longrightarrow> c = AttachedToSameOperation))
    (remembers E root n d t0)"
proof (rule reserve_attempts_triple)
  let ?p = "get_approval_nonce_ledger_path root"
  let ?J = "remembers E root n d t0"
  fix A
  have late_A: "?J s \<Longrightarrow> ledger_at E s ?p = A \<Longrightarrow> late n t0 A" for s A
    by (auto simp: remembers_def)
  show "triple (\<lambda>s. ?J s \<and> ledger_at E s ?p = A)
      (merge_recovery_entries E root (recoverable now A) owner
        (saturating_sub now nonce_retention_seconds))
      (\<lambda>_ s. ?J s \<and> ledger_at E s ?p = A) ?J"
  proof (cases "late n t0 A")
    case True
    have "triple (\<lambda>s. ?J s \<and> ledger_at E s ?p = A)
        (merge_recovery_entries E root (recoverable now A) owner
          (saturating_sub now nonce_retention_seconds))
        (\<lambda>_ s. ?J s \<and> ledger_at E s ?p = A) (\<lambda>s. ?J s \<and> ledger_at E s ?p = A)"
    proof (rule merge_recovery_entries_keeps)
      show "observes E (\<lambda>s. ?J s \<and> ledger_at E s ?p = A)"
        using observes_facts(3) [of E root n d t0] by (auto simp: observes_def ledger_at_def)
      fix s t es sh ch L ch'
      assume s: "?J s \<and> ledger_at E s ?p = A" and es: "set es \<subseteq> set (recoverable now A)"
        and m: "merge_entries es (unexpired (saturating_sub now nonce_retention_seconds)
          (ledger_at E s (get_approval_nonce_ledger_shard_path root sh))) ch = Inr (L, ch')"
        and w: "with_cell E s (get_approval_nonce_ledger_shard_path root sh) L t"
      have "late n t0 es" by (rule late_subset [OF True]) (use es in \<open>auto simp: recoverable_def\<close>)
      from remembers_merge [OF conjunct1 [OF s] this t0 m w] s
      show "?J t \<and> ledger_at E t ?p = A" by (simp add: ledger_at_write [OF w])
    qed
    then show ?thesis by (rule triple_weaken) auto
  next
    case False
    with late_A show ?thesis by (auto simp: triple_def)
  qed
  fix s existing written c
  assume s: "?J s" and e: "reconcile_all None [map_of (recent now (ledger_at E s ?p)) m,
        map_of (recoverable now (ledger_at E s ?p)) m, recovery, legacy] = Inr existing"
    and dec: "reserve_decision m r (recent now (ledger_at E s ?p))
        (length (recent now (ledger_at E s ?p)) \<noteq> length (ledger_at E s ?p)) existing =
        Inr (written, c)"
  have ex: "m = n \<Longrightarrow> \<exists>x. existing = Some x" using reconcile_all_ok [OF e] new(2) by auto
  have attached: "m = n \<Longrightarrow> c = AttachedToSameOperation"
    using ex reserve_decision_ok(1) [OF dec] by auto
  have late_x: "m = n \<Longrightarrow> existing = Some x \<Longrightarrow> t0 \<le> consumed_at_unix x" for x
    using reconciled_late [of now "ledger_at E s ?p" n recovery legacy x t0] e late_A [OF s refl] new
    by auto
  have kept: "late n t0 (recent now (ledger_at E s ?p))" "btree_ok (recent now (ledger_at E s ?p))"
    using late_A [OF s refl] s ordered_ledger [of E s ?p]
    by (auto simp: recent_def late_def remembers_def)
  have stored: "written = Some L \<Longrightarrow> late n t0 L \<and> btree_ok L" for L
    using reserve_decision_ok(1,2) [OF dec] kept late_x new(1)
    by (cases existing) (auto intro!: late_btree_insert)
  show "case written of None \<Rightarrow> ?J s \<and> (m = n \<longrightarrow> c = AttachedToSameOperation)
      | Some L \<Rightarrow> \<forall>t. with_cell E s ?p L t \<longrightarrow>
          (?J t \<and> (m = n \<longrightarrow> c = AttachedToSameOperation)) \<and> ?J t"
  proof (cases written)
    case (Some L)
    have "?J t" if w: "with_cell E s ?p L t" for t
      using s stored [OF Some] ordered_write [OF _ w] ledger_at_write [OF w] legacy_cell_write [OF w]
      by (auto simp: remembers_def in_recovery_def nonce_paths_distinct(2) [symmetric])
    with Some attached show ?thesis by auto
  qed (use s attached in auto)
qed auto

lemma same_cells_legacy_keeps:
  "remembers E root n d t0 s \<Longrightarrow> cell E t = cell E s \<Longrightarrow>
     (\<And>q x. legacy_cell E t q = Some x \<Longrightarrow> legacy_cell E s q = Some x) \<Longrightarrow>
     remembers E root n d t0 t"
  by (auto simp: remembers_def ordered_def in_recovery_def ledger_at_def)

lemma consume_or_attach_remembers:
  assumes t0: "saturating_sub now nonce_retention_seconds \<le> t0" "t0 \<le> now"
  shows "triple (remembers E root n d t0) (consume_or_attach E root approval now owner)
    (\<lambda>c s. remembers E root n d t0 s \<and> (nonce_digest_of E (approved_nonce approval) = n \<longrightarrow>
       c = AttachedToSameOperation \<and> same_nonce_decision d (consumption_record approval now)))
    (remembers E root n d t0)"
proof (rule consume_or_attach_triple)
  let ?J = "remembers E root n d t0"
  let ?m = "nonce_digest_of E (approved_nonce approval)"
  let ?new = "consumption_record approval now"
  let ?only = "only_if (\<lambda>c. consumed_at_unix c \<ge> saturating_sub now nonce_retention_seconds)"
  let ?Q = "\<lambda>c s. ?J s \<and> (?m = n \<longrightarrow> c = AttachedToSameOperation \<and> same_nonce_decision d ?new)"
  fix legacy recovery active canonical
  assume canon: "reconcile_all (Some ?new)
        [only_if (\<lambda>c. consumed_at_unix c > saturating_sub now max_approval_lifetime_seconds) active,
         ?only recovery, legacy] = Inr canonical"
  let ?r = "case canonical of Some c \<Rightarrow> c | None \<Rightarrow> ?new"
  let ?pre = "\<lambda>s. ?J s \<and> legacy_cell E s (get_approval_nonce_path root ?m) = legacy \<and>
        is_lower_hex_digest ?m \<and>
        map_of (ledger_at E s (get_approval_nonce_ledger_shard_path root (take 2 ?m))) ?m = recovery \<and>
        map_of (ledger_at E s (get_approval_nonce_ledger_path root)) ?m = active"
  let ?run = "bind_exec (merge_recovery_entries E root [(?m, ?r)] owner
         (saturating_sub now nonce_retention_seconds)) (\<lambda>_.
       reserve_attempts E root ?m ?r now owner legacy (?only recovery)
         nonce_ledger_update_attempts (StaleRevision None None))"
  show "triple ?pre ?run ?Q ?J"
  proof (cases "\<exists>s. ?pre s")
    case True
    then obtain s where s: "?J s" and vals:
      "legacy_cell E s (get_approval_nonce_path root ?m) = legacy"
      "map_of (ledger_at E s (get_approval_nonce_ledger_shard_path root (take 2 ?m))) ?m = recovery"
      "map_of (ledger_at E s (get_approval_nonce_ledger_path root)) ?m = active" by blast
    from reconcile_all_ok [OF canon] obtain r where r: "canonical = Some r"
      "same_nonce_decision ?new r" by auto
    have m: "\<exists>c0. ?only recovery = Some c0 \<and> t0 \<le> consumed_at_unix c0 \<and> same_nonce_decision d c0"
      "legacy = Some c \<Longrightarrow> t0 \<le> consumed_at_unix c" "active = Some c \<Longrightarrow> t0 \<le> consumed_at_unix c"
      if "?m = n" for c
      using s vals that t0(1)
      by (auto simp: remembers_def in_recovery_def recorded_def dest: late_map_of)
    have "?m = n \<Longrightarrow> t0 \<le> consumed_at_unix r"
      using reconcile_all_ok [OF canon] r(1) m t0(2) by (auto simp: consumption_record_def)
    moreover have "?m = n \<Longrightarrow> same_nonce_decision d ?new"
    proof -
      assume "?m = n"
      from m(1) [OF this] obtain c0 where c0: "?only recovery = Some c0" "same_nonce_decision d c0"
        by blast
      with reconcile_all_ok [OF canon] r(1) have "same_nonce_decision c0 r" by auto
      with c0 r(2) show "same_nonce_decision d ?new" by (simp add: same_nonce_decision_def)
    qed
    ultimately have late: "late n t0 [(?m, r)]" and new: "?m = n \<Longrightarrow> same_nonce_decision d ?new"
      and rt: "?m = n \<Longrightarrow> t0 \<le> consumed_at_unix r" by (auto simp: late_def)
    have res: "triple ?J (reserve_attempts E root ?m r now owner legacy (?only recovery)
         nonce_ledger_update_attempts (StaleRevision None None))
       (\<lambda>c s. ?J s \<and> (?m = n \<longrightarrow> c = AttachedToSameOperation)) ?J"
    proof (cases "?m = n")
      case True
      from m(1) [OF True] obtain c0 where "?only recovery = Some c0" "t0 \<le> consumed_at_unix c0" by blast
      then show ?thesis
        by (intro reserve_attempts_remembers [OF t0(1), where ?c0.0 = c0]) (use rt m(2) in auto)
    next
      case False
      then show ?thesis by (intro reserve_attempts_remembers [OF t0(1)]) auto
    qed
    have "triple ?J ?run (\<lambda>c s. ?J s \<and> (?m = n \<longrightarrow> c = AttachedToSameOperation)) ?J"
      unfolding r(1) option.case
      by (rule triple_bind [OF merge_recovery_entries_remembers [OF late t0(1)] res])
    then show ?thesis by (rule triple_weaken) (use new in auto)
  qed (auto simp: triple_def)
next
  fix c s t
  assume "remembers E root n d t0 s \<and> (nonce_digest_of E (approved_nonce approval) = n \<longrightarrow>
       c = AttachedToSameOperation \<and> same_nonce_decision d (consumption_record approval now))"
    "cell E t = cell E s" "\<And>q x. legacy_cell E t q = Some x \<Longrightarrow> legacy_cell E s q = Some x"
  then show "remembers E root n d t0 t \<and> (nonce_digest_of E (approved_nonce approval) = n \<longrightarrow>
       c = AttachedToSameOperation \<and> same_nonce_decision d (consumption_record approval now))"
    using same_cells_legacy_keeps [of E root n d t0 s t] by blast
qed auto

subsection \<open>A consumed nonce becomes remembered\<close>

lemma cutoffs:
  "i64_min \<le> now \<Longrightarrow> saturating_sub now nonce_retention_seconds \<le> now"
  "saturating_sub now nonce_retention_seconds \<le> saturating_sub now max_approval_lifetime_seconds"
  by (auto simp: saturating_sub_def nonce_retention_seconds_def max_approval_lifetime_seconds_def)

lemma btree_entry: "btree_ok L \<Longrightarrow> (n, c) \<in> set L \<Longrightarrow> map_of L n = Some c"
  by (simp add: btree_ok_distinct)

text \<open>
  The state between the merge of the new record and the write of the active ledger: if nothing was
  known of the nonce (\<open>unknown\<close>), the recovery ledger now holds it.
\<close>

definition recorded_first ::
  "('z) nonce_env_scheme \<Rightarrow> path \<Rightarrow> string \<Rightarrow> consumed_nonce \<Rightarrow> consumed_nonce option \<Rightarrow>
     consumed_nonce option \<Rightarrow> bool \<Rightarrow> approval_disks \<Rightarrow> bool" where
  "recorded_first E root n r legacy active unknown s \<longleftrightarrow>
     ordered E s \<and> legacy_cell E s (get_approval_nonce_path root n) = legacy \<and>
     map_of (ledger_at E s (get_approval_nonce_ledger_path root)) n = active \<and>
     (unknown \<longrightarrow> in_recovery E root n r (consumed_at_unix r) s)"

lemma observes_recorded_first [intro]:
  "observes E (recorded_first E root n r legacy active unknown)"
  by (auto simp: observes_def recorded_first_def ordered_def in_recovery_def ledger_at_def)

lemma record_first:
  assumes unknown: "unknown \<Longrightarrow> (\<forall>c. recovery = Some c \<longrightarrow> consumed_at_unix c < cutoff)"
    and r: "unknown \<Longrightarrow> cutoff \<le> consumed_at_unix r"
  shows "triple (\<lambda>s. ordered E s \<and> legacy_cell E s (get_approval_nonce_path root n) = legacy \<and>
        is_lower_hex_digest n \<and>
        map_of (ledger_at E s (get_approval_nonce_ledger_shard_path root (take 2 n))) n = recovery \<and>
        map_of (ledger_at E s (get_approval_nonce_ledger_path root)) n = active)
      (merge_recovery_entries E root [(n, r)] owner cutoff)
      (\<lambda>_. recorded_first E root n r legacy active unknown) (ordered E)"
    (is "triple ?P _ (\<lambda>_. ?M) _")
  unfolding merge_recovery_entries_single
proof (rule triple_pure_bind)
  fix sh
  assume "nonce_ledger_shard n = Inr sh"
  then have sh: "sh = take 2 n" by (auto simp: nonce_ledger_shard_def split: if_splits)
  let ?p = "get_approval_nonce_ledger_shard_path root sh"
  have none: "map_of (unexpired cutoff (ledger_at E s ?p)) n = None" if "?P s" unknown for s
    using that unknown ordered_ledger [of E s ?p] sh
    by (auto simp: unexpired_def map_of_filter_btree split: option.split)
  show "triple ?P (merge_shard_attempts E root sh [(n, r)] owner cutoff nonce_ledger_update_attempts
      (StaleRevision None None)) (\<lambda>_. ?M) (ordered E)"
  proof (rule merge_shard_attempts_triple)
    show "observes E ?P" by (auto simp: observes_def ordered_def ledger_at_def)
    show "?M s" if "?P s" "unexpired cutoff (ledger_at E s ?p) = ledger_at E s ?p"
      "merge_entries [(n, r)] (ledger_at E s ?p) False = Inr (ledger_at E s ?p, False)" for s
      using none [OF that(1)] that by (auto simp: recorded_first_def split: if_splits)
    fix s t ch L ch'
    assume s: "?P s" and m: "merge_entries [(n, r)] (unexpired cutoff (ledger_at E s ?p)) ch = Inr (L, ch')"
      and w: "with_cell E s ?p L t"
    have t: "ordered E t" by (rule ordered_merge [OF _ m w]) (use s in blast)
    have "btree_ok (unexpired cutoff (ledger_at E s ?p))"
      using s by (auto intro: unexpired_btree_ok ordered_ledger)
    then have "unknown \<Longrightarrow> recorded n r (consumed_at_unix r) L"
      using none [OF s] m by (auto simp: recorded_def split: if_splits)
    with s t sh show "?M t \<and> ordered E t"
      by (auto simp: recorded_first_def in_recovery_def ledger_at_write [OF w] legacy_cell_write [OF w])
  qed auto
qed auto

lemma reserve_first:
  fixes now
  defines "rc \<equiv> saturating_sub now nonce_retention_seconds"
  assumes unknown: "unknown \<longleftrightarrow> recovery = None \<and> legacy = None \<and>
      (\<forall>c. active = Some c \<longrightarrow> consumed_at_unix c < rc)"
    and r: "unknown \<Longrightarrow> rc \<le> consumed_at_unix r"
  shows "triple (recorded_first E root n r legacy active unknown)
      (reserve_attempts E root n r now owner legacy recovery k stale)
      (\<lambda>c s. ordered E s \<and> (c = Consumed \<longrightarrow>
         unknown \<and> remembers E root n r (consumed_at_unix r) s)) (ordered E)"
proof (rule reserve_attempts_triple)
  let ?M = "recorded_first E root n r legacy active unknown"
  let ?p = "get_approval_nonce_ledger_path root"
  fix A
  have "triple (\<lambda>s. ?M s \<and> ledger_at E s ?p = A)
      (merge_recovery_entries E root (recoverable now A) owner rc)
      (\<lambda>_ s. ?M s \<and> ledger_at E s ?p = A) (\<lambda>s. ?M s \<and> ledger_at E s ?p = A)"
  proof (rule merge_recovery_entries_keeps)
    show "observes E (\<lambda>s. ?M s \<and> ledger_at E s ?p = A)"
      using observes_recorded_first [of E root n r legacy active unknown]
      by (auto simp: observes_def ledger_at_def)
    fix s t es sh ch L ch'
    assume s: "?M s \<and> ledger_at E s ?p = A" and es: "set es \<subseteq> set (recoverable now A)"
      and m: "merge_entries es (unexpired rc
          (ledger_at E s (get_approval_nonce_ledger_shard_path root sh))) ch = Inr (L, ch')"
      and w: "with_cell E s (get_approval_nonce_ledger_shard_path root sh) L t"
    have ok: "ordered E s" using s by (simp add: recorded_first_def)
    have A: "btree_ok A" using ordered_ledger [OF ok, of ?p] s by simp
    have "(n, c) \<notin> set es" if unknown for c
    proof
      assume "(n, c) \<in> set es"
      with es have c: "(n, c) \<in> set A" "rc \<le> consumed_at_unix c" by (auto simp: recoverable_def rc_def)
      with btree_entry [OF A c(1)] s that unknown show False by (auto simp: recorded_first_def)
    qed
    then have "unknown \<Longrightarrow> late n (consumed_at_unix r) es" by (auto simp: late_def)
    with s ordered_merge [OF ok m w] in_recovery_merge [OF ok _ _ _ m w] r
    show "?M t \<and> ledger_at E t ?p = A"
      by (auto simp: recorded_first_def ledger_at_write [OF w] legacy_cell_write [OF w])
  qed
  then show "triple (\<lambda>s. ?M s \<and> ledger_at E s ?p = A)
      (merge_recovery_entries E root (recoverable now A) owner
        (saturating_sub now nonce_retention_seconds))
      (\<lambda>_ s. ?M s \<and> ledger_at E s ?p = A) (ordered E)"
    unfolding rc_def by (rule triple_weaken) (auto simp: recorded_first_def)
next
  let ?M = "recorded_first E root n r legacy active unknown"
  let ?p = "get_approval_nonce_ledger_path root"
  let ?Q = "\<lambda>c s. ordered E s \<and> (c = Consumed \<longrightarrow>
         unknown \<and> remembers E root n r (consumed_at_unix r) s)"
  fix s existing written c
  assume s: "?M s" and e: "reconcile_all None [map_of (recent now (ledger_at E s ?p)) n,
        map_of (recoverable now (ledger_at E s ?p)) n, recovery, legacy] = Inr existing"
    and dec: "reserve_decision n r (recent now (ledger_at E s ?p))
        (length (recent now (ledger_at E s ?p)) \<noteq> length (ledger_at E s ?p)) existing =
        Inr (written, c)"
  let ?A = "ledger_at E s ?p"
  have ok: "ordered E s" using s by (simp add: recorded_first_def)
  have A: "btree_ok ?A" "btree_ok (recent now ?A)" using ordered_ledger [OF ok, of ?p]
    by (simp_all add: recent_def)
  have written: "btree_ok L" if "written = Some L" for L
    using reserve_decision_ok(1,2) [OF dec] that A(2) by (cases existing) auto
  have first: "unknown \<and> map_of (recent now ?A) n = None \<and> written = Some (btree_insert n r (recent now ?A))"
    if c: "c = Consumed"
  proof -
    have none: "existing = None" using reserve_decision_ok(1) [OF dec] c by (cases existing) auto
    have all: "map_of (recent now ?A) n = None"
      "map_of (recoverable now ?A) n = None" "recovery = None" "legacy = None"
      using reconcile_all_None [OF e [unfolded none]] by auto
    have "consumed_at_unix x < rc" if "active = Some x" for x
      using all(1,2) s that A(1)
      by (auto simp: recorded_first_def recent_def recoverable_def map_of_filter_btree rc_def
          split: if_splits)
    with all reserve_decision_ok(2) [OF dec none] unknown show ?thesis by auto
  qed
  show "case written of None \<Rightarrow> ?Q c s | Some L \<Rightarrow> \<forall>t. with_cell E s ?p L t \<longrightarrow> ?Q c t \<and> ordered E t"
  proof (cases written)
    case None
    with first ok show ?thesis by auto
  next
    case (Some L)
    have "?Q c t" if w: "with_cell E s ?p L t" for t
    proof -
      have t: "ordered E t" by (rule ordered_write [OF ok w written [OF Some]])
      show ?thesis
      proof (cases "c = Consumed")
        case True
        have L: "L = btree_insert n r (recent now ?A)" "unknown" "map_of (recent now ?A) n = None"
          using first [OF True] Some by auto
        have "late n (consumed_at_unix r) (recent now ?A)"
          using btree_entry [OF A(2)] L(3) by (auto simp: late_def)
        then have "late n (consumed_at_unix r) L" unfolding L(1) by (rule late_btree_insert) simp
        moreover have "legacy_cell E s (get_approval_nonce_path root n) = None"
          "in_recovery E root n r (consumed_at_unix r) s"
          using s L(2) unknown by (simp_all add: recorded_first_def)
        ultimately have "remembers E root n r (consumed_at_unix r) t"
          using t by (simp add: remembers_def in_recovery_def ledger_at_write [OF w]
              legacy_cell_write [OF w] nonce_paths_distinct(2) [symmetric])
        with t L(2) show ?thesis by simp
      qed (use t in simp)
    qed
    then show ?thesis using Some by auto
  qed
qed (auto simp: recorded_first_def)

lemma consume_or_attach_first:
  assumes now: "i64_min \<le> now"
  shows "triple (ordered E) (consume_or_attach E root approval now owner)
    (\<lambda>c s. ordered E s \<and> (c = Consumed \<longrightarrow>
       remembers E root (nonce_digest_of E (approved_nonce approval)) (consumption_record approval now) now s))
    (ordered E)"
proof (rule consume_or_attach_triple)
  let ?n = "nonce_digest_of E (approved_nonce approval)"
  let ?new = "consumption_record approval now"
  let ?rc = "saturating_sub now nonce_retention_seconds"
  let ?only = "only_if (\<lambda>c. consumed_at_unix c \<ge> ?rc)"
  let ?Q = "\<lambda>c s. ordered E s \<and> (c = Consumed \<longrightarrow> remembers E root ?n ?new now s)"
  fix legacy recovery active canonical
  assume canon: "reconcile_all (Some ?new)
        [only_if (\<lambda>c. consumed_at_unix c > saturating_sub now max_approval_lifetime_seconds) active,
         ?only recovery, legacy] = Inr canonical"
  obtain r where r: "canonical = Some r" using reconcile_all_ok [OF canon] by auto
  define unknown where "unknown \<longleftrightarrow> ?only recovery = None \<and> legacy = None \<and>
      (\<forall>c. active = Some c \<longrightarrow> consumed_at_unix c < ?rc)"
  have new: "unknown \<Longrightarrow> r = ?new"
    using reconcile_all_ok [OF canon] r cutoffs(2) [of now]
    by (fastforce simp: unknown_def only_if_None)
  have rc: "unknown \<Longrightarrow> ?rc \<le> consumed_at_unix r"
    using new cutoffs(1) [OF now] by (simp add: consumption_record_def)
  let ?pre = "\<lambda>s. ordered E s \<and> legacy_cell E s (get_approval_nonce_path root ?n) = legacy \<and>
        is_lower_hex_digest ?n \<and>
        map_of (ledger_at E s (get_approval_nonce_ledger_shard_path root (take 2 ?n))) ?n = recovery \<and>
        map_of (ledger_at E s (get_approval_nonce_ledger_path root)) ?n = active"
  let ?run = "\<lambda>r. bind_exec (merge_recovery_entries E root [(?n, r)] owner ?rc) (\<lambda>_.
       reserve_attempts E root ?n r now owner legacy (?only recovery)
         nonce_ledger_update_attempts (StaleRevision None None))"
  have "triple ?pre (?run r) (\<lambda>c s. ordered E s \<and> (c = Consumed \<longrightarrow>
         unknown \<and> remembers E root ?n r (consumed_at_unix r) s)) (ordered E)"
    by (rule triple_bind [OF record_first [where unknown = unknown]
        reserve_first [where unknown = unknown]])
      (use rc in \<open>auto simp: unknown_def only_if_None\<close>)
  then show "triple ?pre (?run (case canonical of Some c \<Rightarrow> c | None \<Rightarrow> ?new)) ?Q (ordered E)"
    unfolding r option.case
    by (rule triple_weaken) (use new in \<open>auto simp: consumption_record_def\<close>)
next
  fix c s t
  assume Q: "ordered E s \<and> (c = Consumed \<longrightarrow> remembers E root
      (nonce_digest_of E (approved_nonce approval)) (consumption_record approval now) now s)"
    and t: "cell E t = cell E s" "\<And>q x. legacy_cell E t q = Some x \<Longrightarrow> legacy_cell E s q = Some x"
  show "ordered E t \<and> (c = Consumed \<longrightarrow> remembers E root
      (nonce_digest_of E (approved_nonce approval)) (consumption_record approval now) now t)"
    using Q t same_cells_legacy_keeps [OF _ t] by (auto simp: ordered_def)
qed auto

section \<open>Sequences of consumptions\<close>

fun run_consumptions ::
  "('z) nonce_env_scheme \<Rightarrow> path \<Rightarrow> (verified_approval \<times> int \<times> owner_generation) list \<Rightarrow>
     approval_disks \<Rightarrow> approval_disks" where
  "run_consumptions E root [] s = s"
| "run_consumptions E root ((approval, now, owner) # rest) s =
     run_consumptions E root rest (snd (consume_or_attach E root approval now owner s))"

definition within_retention :: "int \<Rightarrow> int \<Rightarrow> bool" where
  "within_retention t0 now \<longleftrightarrow> i64_min \<le> t0 \<and> t0 \<le> now \<and> now \<le> t0 + nonce_retention_seconds"

lemma within_retention_cutoff:
  "within_retention t0 now \<Longrightarrow> saturating_sub now nonce_retention_seconds \<le> t0 \<and> t0 \<le> now"
  by (auto simp: within_retention_def saturating_sub_def)

lemma run_consumptions_remembers:
  assumes "\<forall>(a, now, owner)\<in>set ops. within_retention t0 now" "remembers E root n d t0 s"
  shows "remembers E root n d t0 (run_consumptions E root ops s)"
  using assms
proof (induction ops arbitrary: s)
  case (Cons op ops)
  obtain a now owner where op: "op = (a, now, owner)" by (cases op)
  have cut: "saturating_sub now nonce_retention_seconds \<le> t0" "t0 \<le> now"
    using Cons.prems(1) op within_retention_cutoff by auto
  obtain r t where run: "consume_or_attach E root a now owner s = (r, t)"
    by (cases "consume_or_attach E root a now owner s")
  have "remembers E root n d t0 t"
    using consume_or_attach_remembers [OF cut, of E root n d a owner] Cons.prems(2) run
    by (cases r) (auto simp: triple_def)
  with Cons op run show ?case by simp
qed simp

text \<open>
  C3: Replay protection. Once a nonce is consumed, and whatever other consumptions and faults of
  the store lie between, for thirty days every later consumption of the same nonce either fails or
  attaches to the very operation and decision that consumed it; it never consumes it again.
\<close>

theorem consumed_nonce_is_not_replayed:
  assumes "ordered E s"
    and "consume_or_attach E root a now owner s = (Inr Consumed, s1)"
    and "\<forall>(a', now', owner')\<in>set ops. within_retention now now'"
    and "within_retention now now2" "approved_nonce a2 = approved_nonce a"
    and "consume_or_attach E root a2 now2 owner2 (run_consumptions E root ops s1) = (res, s2)"
  shows "(\<exists>e. res = Inl e) \<or>
    (res = Inr AttachedToSameOperation \<and>
     approved_operation_id a2 = approved_operation_id a \<and>
     approved_decision_digest a2 = approved_decision_digest a)"
proof -
  let ?n = "nonce_digest_of E (approved_nonce a)"
  let ?d = "consumption_record a now"
  have "i64_min \<le> now" using assms(4) by (simp add: within_retention_def)
  from triple_ok [OF consume_or_attach_first [OF this] assms(1,2)]
  have "remembers E root ?n ?d now s1" by simp
  then have J: "remembers E root ?n ?d now (run_consumptions E root ops s1)"
    by (rule run_consumptions_remembers [OF assms(3)])
  note cut = within_retention_cutoff [OF assms(4)]
  show ?thesis
  proof (cases res)
    case (Inr c)
    from triple_ok [OF consume_or_attach_remembers [OF conjunct1 [OF cut] conjunct2 [OF cut]] J
        assms(6) [unfolded Inr]] assms(5)
    have "c = AttachedToSameOperation \<and> same_nonce_decision ?d (consumption_record a2 now2)" by simp
    with Inr show ?thesis by (simp add: same_nonce_decision_def consumption_record_def)
  qed simp
qed

text \<open>Two approvals that carry one nonce, and a store that holds nothing yet.\<close>

definition toy_nonce_env :: nonce_env where
  "toy_nonce_env = \<lparr>sha256 = (\<lambda>str. replicate 32 (CHR 0x00)), plan_json = (\<lambda>_. Inr []),
     hmac_sha256 = (\<lambda>_ _. []), claims_json = (\<lambda>_. Inr []), receipt_json = (\<lambda>_. []),
     ledger_render = (\<lambda>_. Inr []), legacy_render = (\<lambda>_. Inr [])\<rparr>"

definition toy_approval :: "string \<Rightarrow> verified_approval" where
  "toy_approval op = \<lparr>approved_nonce = ''n'', approved_operation_id = op, approved_decision_digest = ''d'',
     approved_issued_at = 100, approved_expires_at = 200\<rparr>"

definition toy_nonce_owner :: owner_generation where
  "toy_nonce_owner = \<lparr>owner_id = ''o'', generation = 1\<rparr>"

definition empty_disks :: approval_disks where
  "empty_disks = \<lparr>ledgers = \<lparr>files = [], faults = []\<rparr>, legacies = \<lparr>files = [], faults = []\<rparr>\<rparr>"

lemma toy_consumed:
  "fst (consume_or_attach toy_nonce_env [] (toy_approval ''a'') 150 toy_nonce_owner empty_disks) = Inr Consumed"
  by code_simp

theorem consumed_nonce_is_not_replayed_witness:
  "\<exists>s1 res s2.
     consume_or_attach toy_nonce_env [] (toy_approval ''a'') 150 toy_nonce_owner empty_disks =
       (Inr Consumed, s1) \<and>
     consume_or_attach toy_nonce_env [] (toy_approval ''b'') 160 toy_nonce_owner
       (run_consumptions toy_nonce_env [] [(toy_approval ''c'', 155, toy_nonce_owner)] s1) = (res, s2) \<and>
     (\<exists>e. res = Inl e)"
proof -
  obtain s1 where first: "consume_or_attach toy_nonce_env [] (toy_approval ''a'') 150 toy_nonce_owner
      empty_disks = (Inr Consumed, s1)"
    using toy_consumed by (metis prod.collapse)
  obtain res s2 where second: "consume_or_attach toy_nonce_env [] (toy_approval ''b'') 160 toy_nonce_owner
      (run_consumptions toy_nonce_env [] [(toy_approval ''c'', 155, toy_nonce_owner)] s1) = (res, s2)"
    by (metis prod.collapse)
  have "ordered toy_nonce_env empty_disks"
    by (simp add: ordered_def cell_def held_def empty_disks_def read_snapshot_def read_snapshot_compatible_def)
  from consumed_nonce_is_not_replayed [OF this first _ _ _ second] have "\<exists>e. res = Inl e"
    by (simp add: within_retention_def i64_min_def nonce_retention_seconds_def toy_approval_def)
  with first second show ?thesis by blast
qed

end
