(* ===== verification/Transition_Journal.thy ===== *)
theory Transition_Journal
  imports Atomic_Json Transition_Plan "HOL-Library.Sublist"
begin

text \<open>
  \<open>transitions/journal.rs\<close>: the durable record of one transition, its hash-chained audit
  events and the store that keeps one journal document per operation. The reach-aware envelope
  of a journal is a type parameter, its own validation a parameter of the environment; the
  ledger of consumed transfer capabilities belongs to the operations on that envelope, which
  are not modelled.
\<close>

datatype transition_lifecycle =
    Planned | AwaitingHumanAction | Approved | Locked | BackedUp | Applying | Cancelling
  | RollingBack | Recovering | Committed | RolledBack | NeedsRepair

definition is_terminal :: "transition_lifecycle \<Rightarrow> bool" where
  "is_terminal l \<longleftrightarrow> l \<in> {Committed, RolledBack, NeedsRepair}"

fun lifecycle_str :: "transition_lifecycle \<Rightarrow> string" where
  "lifecycle_str Planned = ''planned''"
| "lifecycle_str AwaitingHumanAction = ''awaiting-human-action''"
| "lifecycle_str Approved = ''approved''"
| "lifecycle_str Locked = ''locked''"
| "lifecycle_str BackedUp = ''backed-up''"
| "lifecycle_str Applying = ''applying''"
| "lifecycle_str Cancelling = ''cancelling''"
| "lifecycle_str RollingBack = ''rolling-back''"
| "lifecycle_str Recovering = ''recovering''"
| "lifecycle_str Committed = ''committed''"
| "lifecycle_str RolledBack = ''rolled-back''"
| "lifecycle_str NeedsRepair = ''needs-repair''"

datatype checkpoint_status =
    EffectPending | EffectBackedUp | EffectApplied | EffectRolledBack | EffectNeedsRepair

record effect_checkpoint =
  checkpoint_effect_id :: string
  checkpoint_resource_id :: string
  checkpoint_pre :: "string option"
  checkpoint_post :: "string option"
  checkpoint_status :: checkpoint_status

record journal_event =
  event_sequence :: u64
  event_lifecycle :: transition_lifecycle
  event_code :: string
  event_effect_id :: "string option"
  event_previous :: "string option"
  event_digest_of :: string

record 'e transition_journal =
  journal_operation_id :: string
  journal_operation_kind :: string
  journal_graph_digest :: string
  journal_repository_key :: string
  journal_workspace_key :: string
  journal_session_id :: "string option"
  journal_profile_digest :: "string option"
  lifecycle :: transition_lifecycle
  authorization_decision :: "string option"
  authorization_history :: "string list"
  backup_id :: string
  backup_manifest :: "string option"
  checkpoints :: "effect_checkpoint list"
  audit :: "journal_event list"
  terminal_code :: "string option"
  reach_aware :: "'e option"

datatype journal_error =
    JournalInvalidPlan transition_plan_error
  | OperationConflict
  | JournalDisappeared
  | InvalidEventCode
  | AuditOverflow
  | InvalidAuditChain
  | TerminalMutation
  | UnsafeJournalDirectory path
  | JournalPathMismatch
  | JournalIo path string
  | JournalState state_error
  | ReachAwareEnvelope string

record 'e journal_env = plan_env +
  journal_render :: "'e transition_journal stored_document \<Rightarrow> string + string"
  envelope_sealed :: "'e \<Rightarrow> string + unit"

definition store_env ::
  "('e, 'z) journal_env_scheme \<Rightarrow> 'e transition_journal json_env" where
  "store_env E = \<lparr>sha256 = sha256 E, render = journal_render E\<rparr>"

section \<open>The audit chain\<close>

text \<open>\<open>to_be_bytes\<close>: the bytes of a number, most significant first.\<close>

fun be_bytes :: "nat \<Rightarrow> nat \<Rightarrow> string" where
  "be_bytes 0 n = []"
| "be_bytes (Suc k) n = be_bytes k (n div 256) @ [char_of (n mod 256)]"

definition digest_field :: "string \<Rightarrow> string" where
  "digest_field v = be_bytes 8 (length v) @ v"

definition nul :: string where "nul = [CHR 0x00]"

definition event_bytes ::
  "u64 \<Rightarrow> transition_lifecycle \<Rightarrow> string \<Rightarrow> string option \<Rightarrow> string option \<Rightarrow> string" where
  "event_bytes seq l c eff previous =
     ''unpin-transition-audit-v1'' @ nul @ be_bytes 8 (unat seq) @
     digest_field (lifecycle_str l) @ digest_field c @
     digest_field (case eff of None \<Rightarrow> [] | Some e \<Rightarrow> e) @
     digest_field (case previous of None \<Rightarrow> [] | Some p \<Rightarrow> p)"

definition event_digest ::
  "('z) hashing_scheme \<Rightarrow> u64 \<Rightarrow> transition_lifecycle \<Rightarrow> string \<Rightarrow> string option \<Rightarrow>
     string option \<Rightarrow> string" where
  "event_digest H seq l c eff previous =
     encode_lower_hex (sha256 H (event_bytes seq l c eff previous))"

text \<open>\<open>u64::try_from(index).ok().and_then(|v| v.checked_add(1))\<close>.\<close>

definition next_event_sequence :: "nat \<Rightarrow> journal_error + u64" where
  "next_event_sequence index =
     (if Suc index < 2 ^ 64 then Inr (of_nat (Suc index)) else Inl AuditOverflow)"

definition validate_event_code :: "string \<Rightarrow> journal_error + unit" where
  "validate_event_code c = ensure (valid_code c) InvalidEventCode"

definition record_event ::
  "('z) hashing_scheme \<Rightarrow> transition_lifecycle \<Rightarrow> string \<Rightarrow> string option \<Rightarrow>
     'e transition_journal \<Rightarrow> journal_error + 'e transition_journal" where
  "record_event H l c eff j =
     and_then (ensure (\<not> (audit j \<noteq> [] \<and> is_terminal (lifecycle j))) TerminalMutation) (\<lambda>_.
     and_then (validate_event_code c) (\<lambda>_.
     and_then (next_event_sequence (length (audit j))) (\<lambda>seq.
     (let previous = (if audit j = [] then None else Some (event_digest_of (last (audit j))));
          event = \<lparr>event_sequence = seq, event_lifecycle = l, event_code = c,
                   event_effect_id = eff, event_previous = previous,
                   event_digest_of = event_digest H seq l c eff previous\<rparr> in
      Inr (j\<lparr>lifecycle := l, audit := audit j @ [event]\<rparr>)))))"

fun verify_events ::
  "('z) hashing_scheme \<Rightarrow> nat \<Rightarrow> string option \<Rightarrow> journal_event list \<Rightarrow> journal_error + unit" where
  "verify_events H index previous [] = Inr ()"
| "verify_events H index previous (event # rest) =
     and_then (next_event_sequence index) (\<lambda>expected.
     and_then (ensure (event_sequence event = expected \<and> event_previous event = previous \<and>
         event_digest_of event = event_digest H (event_sequence event) (event_lifecycle event)
           (event_code event) (event_effect_id event) (event_previous event)) InvalidAuditChain) (\<lambda>_.
     verify_events H (Suc index) (Some (event_digest_of event)) rest))"

definition verify_audit_chain ::
  "('z) hashing_scheme \<Rightarrow> 'e transition_journal \<Rightarrow> journal_error + unit" where
  "verify_audit_chain H j =
     and_then (verify_events H 0 None (audit j)) (\<lambda>_.
     ensure (audit j \<noteq> [] \<and> event_lifecycle (last (audit j)) = lifecycle j) InvalidAuditChain)"

section \<open>Journals of a plan\<close>

definition deterministic_backup_id :: "('z) hashing_scheme \<Rightarrow> transition_plan \<Rightarrow> string" where
  "deterministic_backup_id H plan =
     ''backup-transition-'' @ encode_lower_hex (sha256 H
       (''unpin-transition-backup-v1'' @ nul @ operation_id plan @ nul @ effect_graph_digest plan))"

definition pending_checkpoint :: "transition_effect \<Rightarrow> effect_checkpoint" where
  "pending_checkpoint eff =
     \<lparr>checkpoint_effect_id = effect_id eff, checkpoint_resource_id = resource_id eff,
      checkpoint_pre = expected_pre_fingerprint eff, checkpoint_post = expected_post_fingerprint eff,
      checkpoint_status = EffectPending\<rparr>"

text \<open>The journal value \<open>from_plan\<close> builds before it records its first event.\<close>

definition initial_journal ::
  "('z) hashing_scheme \<Rightarrow> transition_plan \<Rightarrow> 'e transition_journal" where
  "initial_journal H plan =
     \<lparr>journal_operation_id = operation_id plan,
      journal_operation_kind = transition_kind_str (plan_kind plan),
      journal_graph_digest = effect_graph_digest plan,
      journal_repository_key = repository_key (plan_context plan),
      journal_workspace_key = workspace_key (plan_context plan),
      journal_session_id = session_id (plan_context plan),
      journal_profile_digest = profile_digest (plan_context plan),
      lifecycle = Planned, authorization_decision = None, authorization_history = [],
      backup_id = deterministic_backup_id H plan, backup_manifest = None,
      checkpoints = map pending_checkpoint (effects plan), audit = [],
      terminal_code = None, reach_aware = None\<rparr>"

definition from_plan ::
  "('z) plan_env_scheme \<Rightarrow> transition_plan \<Rightarrow> journal_error + 'e transition_journal" where
  "from_plan E plan =
     and_then (map_err JournalInvalidPlan (verify_plan_digest E plan)) (\<lambda>_.
     record_event E Planned ''planned'' None (initial_journal E plan))"

definition checkpoint_of_effect :: "effect_checkpoint \<Rightarrow> transition_effect \<Rightarrow> bool" where
  "checkpoint_of_effect checkpoint eff \<longleftrightarrow>
     checkpoint_effect_id checkpoint = effect_id eff \<and>
     checkpoint_resource_id checkpoint = resource_id eff \<and>
     checkpoint_pre checkpoint = expected_pre_fingerprint eff \<and>
     checkpoint_post checkpoint = expected_post_fingerprint eff"

definition journal_matches_plan :: "'e transition_journal \<Rightarrow> transition_plan \<Rightarrow> bool" where
  "journal_matches_plan j plan \<longleftrightarrow>
     journal_operation_id j = operation_id plan \<and>
     journal_operation_kind j = transition_kind_str (plan_kind plan) \<and>
     journal_graph_digest j = effect_graph_digest plan \<and>
     journal_repository_key j = repository_key (plan_context plan) \<and>
     journal_workspace_key j = workspace_key (plan_context plan) \<and>
     journal_session_id j = session_id (plan_context plan) \<and>
     journal_profile_digest j = profile_digest (plan_context plan) \<and>
     length (checkpoints j) = length (effects plan) \<and>
     list_all (\<lambda>(checkpoint, eff). checkpoint_of_effect checkpoint eff)
       (zip (checkpoints j) (effects plan))"

definition verify_plan ::
  "('z) hashing_scheme \<Rightarrow> 'e transition_journal \<Rightarrow> transition_plan \<Rightarrow> journal_error + unit" where
  "verify_plan H j plan =
     (if journal_matches_plan j plan then verify_audit_chain H j else Inl OperationConflict)"

definition may_require_recovery_before_new_writes :: "'e transition_journal \<Rightarrow> bool" where
  "may_require_recovery_before_new_writes j \<longleftrightarrow>
     (if lifecycle j \<in> {Committed, RolledBack} then False
      else lifecycle j = NeedsRepair \<or>
        lifecycle j \<in> {Applying, Cancelling, RollingBack, Recovering} \<or>
        list_ex (\<lambda>c. checkpoint_status c \<in> {EffectApplied, EffectRolledBack, EffectNeedsRepair})
          (checkpoints j))"

section \<open>The journal store\<close>

type_synonym 'e journal_disk = "'e transition_journal disk"

record 'e journal_handle =
  handle_journal :: "'e transition_journal"
  handle_revision :: state_revision
  handle_owner :: owner_generation

definition handle_from_snapshot ::
  "'e transition_journal state_snapshot \<Rightarrow> owner_generation \<Rightarrow> 'e journal_handle" where
  "handle_from_snapshot snapshot owner =
     \<lparr>handle_journal = snapshot_value snapshot, handle_revision = snapshot_revision snapshot,
      handle_owner = owner\<rparr>"

definition journal_of ::
  "(('e journal_disk), state_error, 'a) exec \<Rightarrow> (('e journal_disk), journal_error, 'a) exec" where
  "journal_of m s = (case m s of (r, t) \<Rightarrow> (map_err JournalState r, t))"

definition load_journal ::
  "('e, 'z) journal_env_scheme \<Rightarrow> path \<Rightarrow>
     ('e journal_disk, journal_error, 'e transition_journal state_snapshot) exec" where
  "load_journal E p =
     bind_exec (journal_of (load (store_env E) 1 p)) (\<lambda>snapshot.
     pure_exec (ok_or snapshot JournalDisappeared))"

definition load_for_plan ::
  "('e, 'z) journal_env_scheme \<Rightarrow> path \<Rightarrow> transition_plan \<Rightarrow> owner_generation \<Rightarrow>
     ('e journal_disk, journal_error, 'e journal_handle) exec" where
  "load_for_plan E root plan owner =
     bind_exec (load_journal E (get_transition_journal_path root (operation_id plan))) (\<lambda>snapshot.
     bind_exec (pure_exec (verify_plan E (snapshot_value snapshot) plan)) (\<lambda>_.
     pure_exec (Inr (handle_from_snapshot snapshot owner))))"

definition create_or_attach ::
  "('e, 'z) journal_env_scheme \<Rightarrow> path \<Rightarrow> transition_plan \<Rightarrow> owner_generation \<Rightarrow>
     ('e journal_disk, journal_error, 'e journal_handle) exec" where
  "create_or_attach E root plan owner =
     bind_exec (pure_exec (from_plan E plan)) (\<lambda>j s.
     (case compare_and_swap (store_env E) 1
           (get_transition_journal_path root (operation_id plan)) None owner j s of
        (Inr revision, t) \<Rightarrow>
          (Inr \<lparr>handle_journal = j, handle_revision = revision, handle_owner = owner\<rparr>, t)
      | (Inl (StaleRevision x y), t) \<Rightarrow> load_for_plan E root plan owner t
      | (Inl e, t) \<Rightarrow> (Inl (JournalState e), t)))"

definition save_journal ::
  "('e, 'z) journal_env_scheme \<Rightarrow> path \<Rightarrow> 'e journal_handle \<Rightarrow>
     ('e journal_disk, journal_error, 'e journal_handle) exec" where
  "save_journal E root h =
     bind_exec (pure_exec (verify_audit_chain E (handle_journal h))) (\<lambda>_.
     bind_exec (pure_exec (if_some (reach_aware (handle_journal h))
         (\<lambda>envelope. map_err ReachAwareEnvelope (envelope_sealed E envelope)))) (\<lambda>_.
     bind_exec (journal_of (compare_and_swap (store_env E) 1
         (get_transition_journal_path root (journal_operation_id (handle_journal h)))
         (Some (handle_revision h)) (handle_owner h) (handle_journal h))) (\<lambda>revision.
     pure_exec (Inr (h\<lparr>handle_revision := revision\<rparr>)))))"

text \<open>
  The sorted \<open>.json\<close> entries of the transaction directory that are not hidden. A failed look at
  the directory takes its error from the fault script.
\<close>

definition is_journal_file :: "path \<Rightarrow> path \<Rightarrow> bool" where
  "is_journal_file root p \<longleftrightarrow>
     p \<noteq> [] \<and> butlast p = root @ [''transactions''] \<and> last p \<noteq> [] \<and> hd (last p) \<noteq> CHR ''.'' \<and>
     suffix ''.json'' (last p)"

fun directory_error :: "state_error \<Rightarrow> journal_error" where
  "directory_error (StateIo p message) = JournalIo p message"
| "directory_error (SymlinkRejected p) = UnsafeJournalDirectory p"
| "directory_error (NotRegularFile p) = UnsafeJournalDirectory p"
| "directory_error e = JournalState e"

definition journal_paths :: "path \<Rightarrow> ('e journal_disk, journal_error, path list) exec" where
  "journal_paths root d =
     (case access d of
        (Inl e, t) \<Rightarrow> (Inl (directory_error e), t)
      | (Inr _, t) \<Rightarrow> (Inr (sort (filter (is_journal_file root) (remdups (map fst (files t))))), t))"

text \<open>One journal of the directory, read and checked.\<close>

definition read_listed ::
  "('e, 'z) journal_env_scheme \<Rightarrow> path \<Rightarrow> path \<Rightarrow>
     ('e journal_disk, journal_error, 'e transition_journal) exec" where
  "read_listed E root p =
     bind_exec (load_journal E p) (\<lambda>snapshot.
     (let j = snapshot_value snapshot in
     bind_exec (pure_exec (verify_audit_chain E j)) (\<lambda>_.
     bind_exec (pure_exec (ensure (get_transition_journal_path root (journal_operation_id j) = p)
         JournalPathMismatch)) (\<lambda>_.
     pure_exec (Inr j)))))"

fun first_blocking ::
  "('e, 'z) journal_env_scheme \<Rightarrow> path \<Rightarrow> path \<Rightarrow> string set \<Rightarrow> path list \<Rightarrow>
     ('e journal_disk, journal_error, string option) exec" where
  "first_blocking E root current_path resources [] s = (Inr None, s)"
| "first_blocking E root current_path resources (p # ps) s =
     (if p = current_path then first_blocking E root current_path resources ps s
      else bind_exec (read_listed E root p) (\<lambda>j.
        if list_ex (\<lambda>c. checkpoint_resource_id c \<in> resources) (checkpoints j) \<and>
           may_require_recovery_before_new_writes j
        then pure_exec (Inr (Some (journal_operation_id j)))
        else first_blocking E root current_path resources ps) s)"

definition blocking_operation_for ::
  "('e, 'z) journal_env_scheme \<Rightarrow> path \<Rightarrow> transition_plan \<Rightarrow>
     ('e journal_disk, journal_error, string option) exec" where
  "blocking_operation_for E root plan =
     bind_exec (pure_exec (map_err JournalInvalidPlan (verify_plan_digest E plan))) (\<lambda>_.
     bind_exec (journal_paths root) (\<lambda>paths.
     first_blocking E root (get_transition_journal_path root (operation_id plan))
       (set (map resource_id (effects plan))) paths))"

fun read_all_listed ::
  "('e, 'z) journal_env_scheme \<Rightarrow> path \<Rightarrow> path list \<Rightarrow>
     ('e journal_disk, journal_error, 'e transition_journal list) exec" where
  "read_all_listed E root [] s = (Inr [], s)"
| "read_all_listed E root (p # ps) s =
     bind_exec (read_listed E root p) (\<lambda>j.
     bind_exec (read_all_listed E root ps) (\<lambda>js. pure_exec (Inr (j # js)))) s"

definition list_journals ::
  "('e, 'z) journal_env_scheme \<Rightarrow> path \<Rightarrow>
     ('e journal_disk, journal_error, 'e transition_journal list) exec" where
  "list_journals E root =
     bind_exec (journal_paths root) (\<lambda>paths.
     bind_exec (read_all_listed E root paths) (\<lambda>js.
     pure_exec (Inr (sort_key journal_operation_id js))))"

section \<open>What the audit chain proves\<close>

lemma next_event_sequence_ok:
  "next_event_sequence i = Inr w \<longleftrightarrow> Suc i < 2 ^ 64 \<and> w = of_nat (Suc i)"
  by (auto simp: next_event_sequence_def)

lemma verify_events_append:
  "verify_events H i p (xs @ ys) = Inr u \<longleftrightarrow>
     verify_events H i p xs = Inr () \<and>
     verify_events H (i + length xs) (if xs = [] then p else Some (event_digest_of (last xs))) ys = Inr u"
  by (induction xs arbitrary: i p) (auto simp: and_then_ok)

lemma verify_audit_chain_cong:
  "audit j = audit k \<Longrightarrow> lifecycle j = lifecycle k \<Longrightarrow> verify_audit_chain H j = verify_audit_chain H k"
  by (simp add: verify_audit_chain_def)

lemma verify_audit_chain_hash:
  assumes "sha256 H = sha256 K"
  shows "verify_audit_chain H j = verify_audit_chain K j"
proof -
  have "verify_events H i p xs = verify_events K i p xs" for i p xs
    by (induction xs arbitrary: i p) (auto simp: event_digest_def assms)
  then show ?thesis by (simp add: verify_audit_chain_def)
qed

lemma record_event_ok:
  assumes "record_event H l c eff j = Inr k"
  obtains event where "k = j\<lparr>lifecycle := l, audit := audit j @ [event]\<rparr>"
    "event_lifecycle event = l" "event_code event = c" "event_effect_id event = eff"
    "valid_code c" "audit j = [] \<or> \<not> is_terminal (lifecycle j)"
    "verify_events H 0 None (audit j) = Inr () \<Longrightarrow> verify_events H 0 None (audit k) = Inr ()"
proof -
  from assms obtain seq where s: "\<not> (audit j \<noteq> [] \<and> is_terminal (lifecycle j))" "valid_code c"
    "next_event_sequence (length (audit j)) = Inr seq"
    "k = j\<lparr>lifecycle := l, audit := audit j @ [\<lparr>event_sequence = seq, event_lifecycle = l,
       event_code = c, event_effect_id = eff,
       event_previous = (if audit j = [] then None else Some (event_digest_of (last (audit j)))),
       event_digest_of = event_digest H seq l c eff
         (if audit j = [] then None else Some (event_digest_of (last (audit j))))\<rparr>]\<rparr>"
    by (auto simp: record_event_def Let_def validate_event_code_def and_then_ok)
  then show thesis by (intro that) (auto simp: verify_events_append)
qed

lemma record_keeps_chain:
  assumes "record_event H l c eff j = Inr k" "audit j = [] \<or> verify_audit_chain H j = Inr ()"
  shows "verify_audit_chain H k = Inr ()"
  using assms(1)
proof (rule record_event_ok)
  fix event
  assume k: "k = j\<lparr>lifecycle := l, audit := audit j @ [event]\<rparr>" "event_lifecycle event = l"
    and "verify_events H 0 None (audit j) = Inr () \<Longrightarrow> verify_events H 0 None (audit k) = Inr ()"
  with assms(2) have "verify_events H 0 None (audit k) = Inr ()"
    by (auto simp: verify_audit_chain_def and_then_ok)
  with k show ?thesis by (simp add: verify_audit_chain_def)
qed

lemma record_terminal:
  "audit j \<noteq> [] \<Longrightarrow> is_terminal (lifecycle j) \<Longrightarrow> record_event H l c eff j = Inl TerminalMutation"
  by (simp add: record_event_def)

lemma be_bytes_length [simp]: "length (be_bytes k n) = k"
  by (induction k arbitrary: n) auto

lemma be_bytes_inject: "m < 256 ^ k \<Longrightarrow> n < 256 ^ k \<Longrightarrow> be_bytes k m = be_bytes k n \<longleftrightarrow> m = n"
proof (induction k arbitrary: m n)
  case (Suc k)
  have "m div 256 < 256 ^ k" "n div 256 < 256 ^ k"
    using Suc.prems by (simp_all add: less_mult_imp_div_less mult.commute)
  moreover have "char_of (m mod 256) = (char_of (n mod 256) :: char) \<longleftrightarrow> m mod 256 = n mod 256"
    by (metis char_of_mod_256 mod_mod_trivial of_char_of)
  ultimately show ?case
    using Suc.IH [of "m div 256" "n div 256"] by (auto simp: append_eq_append_conv)
      (metis div_mult_mod_eq)
qed simp

lemma unat_64_bytes: "unat (w :: u64) < 256 ^ 8"
  by (rule order.strict_trans2 [OF unsigned_less]) simp

lemma digest_field_inject:
  assumes "length a < 2 ^ 64" "length b < 2 ^ 64" "digest_field a @ r = digest_field b @ s"
  shows "a = b \<and> r = s"
proof -
  have "be_bytes 8 (length a) = be_bytes 8 (length b)" "a @ r = b @ s"
    using assms(3) by (auto simp: digest_field_def append_eq_append_conv)
  then show ?thesis
    using assms(1,2) be_bytes_inject [of "length a" 8 "length b"]
    by (auto simp: append_eq_append_conv)
qed

lemma lifecycle_str_inject [simp]: "lifecycle_str a = lifecycle_str b \<longleftrightarrow> a = b"
  by (cases a; cases b) auto

lemma lifecycle_str_length: "length (lifecycle_str l) < 2 ^ 64"
  by (cases l) auto

abbreviation text_of :: "string option \<Rightarrow> string" where
  "text_of v \<equiv> (case v of None \<Rightarrow> [] | Some s \<Rightarrow> s)"

lemma event_bytes_inject:
  assumes "event_bytes seq l c eff previous = event_bytes seq' l' c' eff' previous'"
    and "length c < 2 ^ 64" "length c' < 2 ^ 64"
    and "length (text_of eff) < 2 ^ 64" "length (text_of eff') < 2 ^ 64"
    and "length (text_of previous) < 2 ^ 64" "length (text_of previous') < 2 ^ 64"
  shows "seq = seq' \<and> l = l' \<and> c = c' \<and> text_of eff = text_of eff' \<and>
    text_of previous = text_of previous'"
proof -
  have "be_bytes 8 (unat seq) = be_bytes 8 (unat seq')"
    and rest: "digest_field (lifecycle_str l) @ digest_field c @ digest_field (text_of eff) @
        digest_field (text_of previous) =
      digest_field (lifecycle_str l') @ digest_field c' @ digest_field (text_of eff') @
        digest_field (text_of previous')"
    using assms(1) by (auto simp: event_bytes_def append_eq_append_conv)
  then have "seq = seq'"
    using be_bytes_inject [of "unat seq" 8 "unat seq'"] unat_64_bytes by (simp add: word_unat_eq_iff)
  moreover note digest_field_inject [OF lifecycle_str_length lifecycle_str_length rest]
  then have "l = l'" and rest: "digest_field c @ digest_field (text_of eff) @
        digest_field (text_of previous) = digest_field c' @ digest_field (text_of eff') @
        digest_field (text_of previous')" by auto
  moreover note digest_field_inject [OF assms(2,3) rest]
  then have "c = c'" and rest: "digest_field (text_of eff) @ digest_field (text_of previous) =
      digest_field (text_of eff') @ digest_field (text_of previous')" by auto
  moreover note digest_field_inject [OF assms(4,5) rest]
  then have "text_of eff = text_of eff'" and rest: "digest_field (text_of previous) @ [] =
      digest_field (text_of previous') @ []" by auto
  moreover note digest_field_inject [OF assms(6,7) rest]
  ultimately show ?thesis by auto
qed

text \<open>
  Two chains that verify and end in the same digest hold the same events, up to the
  \<open>unwrap_or_default\<close> of the effect id, or the hash collides on two events of them.
\<close>

definition event_core ::
  "journal_event \<Rightarrow> u64 \<times> transition_lifecycle \<times> string \<times> string \<times> string option \<times> string" where
  "event_core ev = (event_sequence ev, event_lifecycle ev, event_code ev,
     text_of (event_effect_id ev), event_previous ev, event_digest_of ev)"

definition bytes_of_event :: "journal_event \<Rightarrow> string" where
  "bytes_of_event ev = event_bytes (event_sequence ev) (event_lifecycle ev) (event_code ev)
     (event_effect_id ev) (event_previous ev)"

text \<open>Every length of a Rust string fits the 64 bits the digest gives it.\<close>

definition sized_event :: "journal_event \<Rightarrow> bool" where
  "sized_event ev \<longleftrightarrow> length (event_code ev) < 2 ^ 64 \<and> length (text_of (event_effect_id ev)) < 2 ^ 64 \<and>
     length (text_of (event_previous ev)) < 2 ^ 64"

definition hash_collision :: "('z) hashing_scheme \<Rightarrow> string \<Rightarrow> string \<Rightarrow> bool" where
  "hash_collision H x y \<longleftrightarrow> x \<noteq> y \<and> sha256 H x = sha256 H y"

lemma of_nat_u64_inject:
  assumes "(of_nat (Suc m) :: u64) = of_nat (Suc n)" "Suc m < 2 ^ 64" "Suc n < 2 ^ 64"
  shows "m = n"
  using arg_cong [OF assms(1), of unat] assms(2,3) by (simp add: unat_of_nat del: of_nat_Suc)

lemma chain_tamper_evident:
  assumes "verify_events H 0 None xs = Inr ()" "verify_events H 0 None ys = Inr ()"
    and "xs \<noteq> []" "ys \<noteq> []" "event_digest_of (last xs) = event_digest_of (last ys)"
    and "\<forall>ev\<in>set (xs @ ys). sized_event ev"
  shows "map event_core xs = map event_core ys \<or>
    (\<exists>a\<in>set xs. \<exists>b\<in>set ys. hash_collision H (bytes_of_event a) (bytes_of_event b))"
  using assms
proof (induction xs arbitrary: ys rule: rev_induct)
  case (snoc a xs)
  obtain us b where ys: "ys = us @ [b]" using snoc.prems(4) by (cases ys rule: rev_cases) auto
  have chain: "verify_events H 0 None xs = Inr ()" "verify_events H 0 None us = Inr ()"
    using snoc.prems(1,2) ys by (auto simp: verify_events_append)
  have prevs: "event_previous a = (if xs = [] then None else Some (event_digest_of (last xs)))"
    "event_previous b = (if us = [] then None else Some (event_digest_of (last us)))"
    and seqs: "event_sequence a = of_nat (Suc (length xs))" "Suc (length xs) < 2 ^ 64"
      "event_sequence b = of_nat (Suc (length us))" "Suc (length us) < 2 ^ 64"
    and digests: "event_digest_of a = encode_lower_hex (sha256 H (bytes_of_event a))"
      "event_digest_of b = encode_lower_hex (sha256 H (bytes_of_event b))"
    using snoc.prems(1,2) ys
    by (auto simp: verify_events_append and_then_ok next_event_sequence_ok event_digest_def
        bytes_of_event_def)
  have same: "sha256 H (bytes_of_event a) = sha256 H (bytes_of_event b)"
    using snoc.prems(5) digests ys by (simp add: encode_lower_hex_inject)
  show ?case
  proof (cases "bytes_of_event a = bytes_of_event b")
    case False
    with same ys show ?thesis by (auto simp: hash_collision_def)
  next
    case True
    have sized: "sized_event a" "sized_event b" using snoc.prems(6) ys by auto
    have fields: "event_sequence a = event_sequence b \<and> event_lifecycle a = event_lifecycle b \<and>
        event_code a = event_code b \<and> text_of (event_effect_id a) = text_of (event_effect_id b) \<and>
        text_of (event_previous a) = text_of (event_previous b)"
      by (rule event_bytes_inject [OF True [unfolded bytes_of_event_def]])
        (use sized in \<open>simp_all add: sized_event_def\<close>)
    then have "length xs = length us"
      using seqs of_nat_u64_inject by metis
    show ?thesis
    proof (cases "xs = []")
      case True
      with fields prevs \<open>length xs = length us\<close> snoc.prems(5) ys show ?thesis
        by (auto simp: event_core_def)
    next
      case False
      then have ne: "us \<noteq> []" using \<open>length xs = length us\<close> by auto
      with False fields prevs have last: "event_digest_of (last xs) = event_digest_of (last us)"
        by simp
      have "map event_core xs = map event_core us \<or>
        (\<exists>a\<in>set xs. \<exists>b\<in>set us. hash_collision H (bytes_of_event a) (bytes_of_event b))"
        using snoc.IH [OF chain False ne last] snoc.prems(6) ys by auto
      moreover have "event_core a = event_core b"
        using fields prevs False ne last snoc.prems(5) ys by (simp add: event_core_def)
      ultimately show ?thesis using ys by auto
    qed
  qed
qed simp

section \<open>What the store keeps\<close>

lemma load_journal_ok:
  "load_journal E p s = (Inr snapshot, t) \<Longrightarrow>
     files t = files s \<and> stored (store_env E) 1 s p = Inr (Some snapshot)"
  by (auto simp: load_journal_def bind_exec_ok journal_of_def map_err_def split: prod.splits sum.splits
      dest!: load_ok)

lemma load_journal_files: "load_journal E p s = (r, t) \<Longrightarrow> files t = files s"
  by (auto simp: load_journal_def bind_exec_result journal_of_def split: prod.splits
      dest!: load_files)

lemma read_listed_ok:
  assumes "read_listed E root p s = (Inr j, t)"
  shows "files t = files s"
    "\<exists>snapshot. stored (store_env E) 1 s p = Inr (Some snapshot) \<and> snapshot_value snapshot = j"
    "verify_audit_chain E j = Inr ()" "get_transition_journal_path root (journal_operation_id j) = p"
proof -
  obtain snapshot where "load_journal E p s = (Inr snapshot, t)" "snapshot_value snapshot = j"
    "verify_audit_chain E j = Inr ()" "get_transition_journal_path root (journal_operation_id j) = p"
    using assms by (auto simp: read_listed_def Let_def bind_exec_ok)
  with load_journal_ok [OF this(1)] show "files t = files s"
    "\<exists>snapshot. stored (store_env E) 1 s p = Inr (Some snapshot) \<and> snapshot_value snapshot = j"
    "verify_audit_chain E j = Inr ()" "get_transition_journal_path root (journal_operation_id j) = p"
    by auto
qed

lemma journal_paths_ok:
  assumes "journal_paths root s = (Inr ps, t)"
  shows "files t = files s" "set ps = {p \<in> fst ` set (files s). is_journal_file root p}"
proof -
  obtain f where a: "access s = (Inr f, t)"
    "ps = sort (filter (is_journal_file root) (remdups (map fst (files t))))"
    using assms by (auto simp: journal_paths_def split: prod.splits sum.splits)
  then show "files t = files s" by (auto dest: access_result)
  with a(2) show "set ps = {p \<in> fst ` set (files s). is_journal_file root p}" by auto
qed

section \<open>Which unfinished operation blocks a plan\<close>

text \<open>
  The journal of another operation, in the directory, that shares a resource with the plan and may
  have left it half written.
\<close>

definition blocks ::
  "('e, 'z) journal_env_scheme \<Rightarrow> path \<Rightarrow> path \<Rightarrow> string set \<Rightarrow> 'e journal_disk \<Rightarrow> path \<Rightarrow>
     'e transition_journal \<Rightarrow> bool" where
  "blocks E root current_path resources s p j \<longleftrightarrow>
     p \<noteq> current_path \<and> is_journal_file root p \<and>
     (\<exists>snapshot. stored (store_env E) 1 s p = Inr (Some snapshot) \<and> snapshot_value snapshot = j) \<and>
     (\<exists>c\<in>set (checkpoints j). checkpoint_resource_id c \<in> resources) \<and>
     may_require_recovery_before_new_writes j"

lemma blocks_cong: "files t = files s \<Longrightarrow> blocks E root cur res t p j = blocks E root cur res s p j"
  by (simp add: blocks_def)

lemma first_blocking_ok:
  "first_blocking E root cur res ps s = (Inr found, t) \<Longrightarrow> \<forall>p\<in>set ps. is_journal_file root p \<Longrightarrow>
   (case found of
      None \<Rightarrow> \<forall>p\<in>set ps. \<forall>j. \<not> blocks E root cur res s p j
    | Some op \<Rightarrow> \<exists>p\<in>set ps. \<exists>j. blocks E root cur res s p j \<and> journal_operation_id j = op)"
proof (induction ps arbitrary: s)
  case (Cons p ps)
  show ?case
  proof (cases "p = cur")
    case True
    with Cons have "case found of
        None \<Rightarrow> \<forall>p\<in>set ps. \<forall>j. \<not> blocks E root cur res s p j
      | Some op \<Rightarrow> \<exists>p\<in>set ps. \<exists>j. blocks E root cur res s p j \<and> journal_operation_id j = op" by simp
    with True show ?thesis by (auto simp: blocks_def split: option.splits)
  next
    case False
    then obtain j u where j: "read_listed E root p s = (Inr j, u)"
      and rest: "(if list_ex (\<lambda>c. checkpoint_resource_id c \<in> res) (checkpoints j) \<and>
           may_require_recovery_before_new_writes j
        then pure_exec (Inr (Some (journal_operation_id j)))
        else first_blocking E root cur res ps) u = (Inr found, t)"
      using Cons.prems(1) by (auto simp: bind_exec_ok)
    note read = read_listed_ok [OF j]
    show ?thesis
    proof (cases "blocks E root cur res s p j")
      case True
      with rest have "found = Some (journal_operation_id j)" by (auto simp: blocks_def list_ex_iff)
      with True show ?thesis by auto
    next
      case notp: False
      then have rec: "first_blocking E root cur res ps u = (Inr found, t)"
        using rest read(2) False Cons.prems(2) by (auto simp: blocks_def list_ex_iff split: if_splits)
      have "blocks E root cur res s p k \<Longrightarrow> k = j" for k
        using read(2) by (auto simp: blocks_def)
      with notp Cons.IH [OF rec] Cons.prems(2) show ?thesis
        by (auto simp: blocks_cong [OF read(1)] split: option.splits)
    qed
  qed
qed simp

section \<open>Properties\<close>

text \<open>
  Recording an event fails with \<open>TerminalMutation\<close> exactly on a journal that has reached a
  terminal lifecycle. Otherwise it appends one event of that lifecycle, code and effect and keeps
  every earlier event, and the new journal passes the audit check if the old events did.
\<close>

theorem recording_extends_the_audit_chain:
  "case record_event H l c eff j of
     Inl e \<Rightarrow> (e = TerminalMutation \<longleftrightarrow> audit j \<noteq> [] \<and> is_terminal (lifecycle j))
   | Inr k \<Rightarrow>
       (\<exists>event. k = j\<lparr>lifecycle := l, audit := audit j @ [event]\<rparr> \<and> event_lifecycle event = l \<and>
          event_code event = c \<and> event_effect_id event = eff) \<and>
       (verify_audit_chain H k = Inr () \<longleftrightarrow> verify_events H 0 None (audit j) = Inr ())"
proof (cases "record_event H l c eff j")
  case (Inl e)
  then show ?thesis
    by (auto simp: record_event_def Let_def validate_event_code_def next_event_sequence_def
        and_then_def ensure_def split: if_splits sum.splits)
next
  case (Inr k)
  from Inr show ?thesis
  proof (rule record_event_ok)
    fix event
    assume k: "k = j\<lparr>lifecycle := l, audit := audit j @ [event]\<rparr>" "event_lifecycle event = l"
      "event_code event = c" "event_effect_id event = eff"
      and v: "verify_events H 0 None (audit j) = Inr () \<Longrightarrow> verify_events H 0 None (audit k) = Inr ()"
    have "verify_audit_chain H k = Inr () \<longleftrightarrow> verify_events H 0 None (audit j) = Inr ()"
    proof
      assume "verify_audit_chain H k = Inr ()"
      then show "verify_events H 0 None (audit j) = Inr ()"
        using k(1) by (auto simp: verify_audit_chain_def verify_events_append)
    next
      assume "verify_events H 0 None (audit j) = Inr ()"
      with v k(1,2) show "verify_audit_chain H k = Inr ()" by (auto simp: verify_audit_chain_def)
    qed
    with Inr k show ?thesis by auto
  qed
qed

text \<open>
  C5: The audit chain is tamper evident: two journals that pass the audit check and end in the same
  digest record the same events, in order (up to an absent and an empty effect id, which the
  digest does not tell apart), or two of their events collide under SHA-256.
\<close>

theorem audit_chain_is_tamper_evident:
  assumes "verify_audit_chain H j = Inr ()" "verify_audit_chain H k = Inr ()"
    and "event_digest_of (last (audit j)) = event_digest_of (last (audit k))"
    and "\<forall>ev\<in>set (audit j @ audit k). sized_event ev"
  shows "map event_core (audit j) = map event_core (audit k) \<or>
    (\<exists>a\<in>set (audit j). \<exists>b\<in>set (audit k). hash_collision H (bytes_of_event a) (bytes_of_event b))"
proof (rule chain_tamper_evident)
  show "verify_events H 0 None (audit j) = Inr ()" "verify_events H 0 None (audit k) = Inr ()"
    "audit j \<noteq> []" "audit k \<noteq> []"
    using assms(1,2) by (auto simp: verify_audit_chain_def and_then_ok ensure_def split: if_splits)
qed (use assms(3,4) in auto)

text \<open>
  C6: Looking for an unfinished operation is exact: without an error it answers none only when no
  other journal of the directory shares a resource with the plan and may need recovery, and it
  names an operation only when such a journal of that operation exists.
\<close>

theorem blocking_search_is_exact:
  "case fst (blocking_operation_for E root plan s) of
     Inl _ \<Rightarrow> True
   | Inr None \<Rightarrow> \<not> (\<exists>p j. blocks E root (get_transition_journal_path root (operation_id plan))
         (set (map resource_id (effects plan))) s p j)
   | Inr (Some op) \<Rightarrow> (\<exists>p j. blocks E root (get_transition_journal_path root (operation_id plan))
         (set (map resource_id (effects plan))) s p j \<and> journal_operation_id j = op)"
proof (cases "blocking_operation_for E root plan s")
  case (Pair r t)
  let ?cur = "get_transition_journal_path root (operation_id plan)"
  let ?res = "set (map resource_id (effects plan))"
  show ?thesis
  proof (cases r)
    case (Inr found)
    obtain ps u where ps: "journal_paths root s = (Inr ps, u)"
      and first: "first_blocking E root ?cur ?res ps u = (Inr found, t)"
      using Pair Inr by (auto simp: blocking_operation_for_def bind_exec_ok)
    note paths = journal_paths_ok [OF ps]
    have "p \<in> set ps" if "blocks E root ?cur ?res s p j" for p j
    proof -
      from that have "map_of (files s) p \<noteq> None"
        by (auto simp: blocks_def read_snapshot_def read_snapshot_compatible_def split: option.splits)
      then have "p \<in> fst ` set (files s)" by (simp add: map_of_eq_None_iff)
      with that paths(2) show ?thesis by (simp add: blocks_def)
    qed
    then have none: "\<forall>p\<in>set ps. \<forall>j. \<not> blocks E root ?cur ?res s p j \<Longrightarrow>
        \<not> (\<exists>p j. blocks E root ?cur ?res s p j)" by blast
    have "\<forall>p\<in>set ps. is_journal_file root p" using paths(2) by simp
    note exact = first_blocking_ok [OF first this, unfolded blocks_cong [OF paths(1)]]
    show ?thesis
    proof (cases found)
      case None
      with exact none Pair Inr show ?thesis by simp
    next
      case (Some op)
      with exact have "\<exists>p j. blocks E root ?cur ?res s p j \<and> journal_operation_id j = op" by auto
      with Pair Inr Some show ?thesis by simp
    qed
  qed (use Pair in simp)
qed

text \<open>A hash that is constant and a journal of one event, at which the chain verifies.\<close>

definition toy_hash :: hashing where
  "toy_hash = \<lparr>sha256 = (\<lambda>str. replicate 32 (CHR 0x00))\<rparr>"

definition toy_chain_event :: journal_event where
  "toy_chain_event = \<lparr>event_sequence = 1, event_lifecycle = Planned, event_code = ''planned'',
     event_effect_id = None, event_previous = None,
     event_digest_of = event_digest toy_hash 1 Planned ''planned'' None None\<rparr>"

definition toy_chain_journal :: "unit transition_journal" where
  "toy_chain_journal =
     \<lparr>journal_operation_id = ''o'', journal_operation_kind = ''k'', journal_graph_digest = [],
      journal_repository_key = ''r'', journal_workspace_key = ''w'', journal_session_id = None,
      journal_profile_digest = None, lifecycle = Planned, authorization_decision = None,
      authorization_history = [], backup_id = ''b'', backup_manifest = None, checkpoints = [],
      audit = [toy_chain_event], terminal_code = None, reach_aware = None\<rparr>"

theorem audit_chain_is_tamper_evident_witness:
  "map event_core (audit toy_chain_journal) = map event_core (audit toy_chain_journal) \<or>
    (\<exists>a\<in>set (audit toy_chain_journal). \<exists>b\<in>set (audit toy_chain_journal).
       hash_collision toy_hash (bytes_of_event a) (bytes_of_event b))"
proof (rule audit_chain_is_tamper_evident)
  show "verify_audit_chain toy_hash toy_chain_journal = Inr ()"
    "verify_audit_chain toy_hash toy_chain_journal = Inr ()"
    by (simp_all add: verify_audit_chain_def toy_chain_journal_def toy_chain_event_def
        next_event_sequence_def and_then_def ensure_def)
  show "\<forall>ev\<in>set (audit toy_chain_journal @ audit toy_chain_journal). sized_event ev"
    by (simp add: toy_chain_journal_def toy_chain_event_def sized_event_def)
qed simp

end
