(* ===== verification/Transition_Coordinator.thy ===== *)
theory Transition_Coordinator
  imports Nonce_Ledger Transition_Journal
begin

text \<open>
  \<open>transitions/coordinator.rs\<close>: executing a reviewed plan against a backend, with locks, a
  human approval, a journal written ahead of every step, a backup before the first write, and
  rollback or a repair mark when a step fails. The backend is the trait of the code, a record of
  functions over its own world; the state holds the journals, the approval ledgers, that world
  and the locks. Directory and file checks of the lock directory fail as a script says.
\<close>

record 'w transition_backend =
  current_fingerprint :: "transition_effect \<Rightarrow> 'w \<Rightarrow> string + string option"
  backup_transition :: "transition_plan \<Rightarrow> string \<Rightarrow> ('w, string, string) exec"
  apply_effect :: "transition_effect \<Rightarrow> ('w, string, unit) exec"
  rollback_effect :: "transition_effect \<Rightarrow> string \<Rightarrow> ('w, string, unit) exec"

datatype transition_outcome_status = OutcomeCommitted | OutcomeRolledBack | OutcomeNeedsRepair

record transition_outcome =
  outcome_operation_id :: string
  outcome_status :: transition_outcome_status
  outcome_backup_id :: string
  outcome_reason :: "string option"

datatype transition_recovery_policy = ResumeSafe | NoResumeWrites

datatype coordinator_error =
    InvalidCoordinatorIdentifier
  | InvalidBackendFailureCode
  | InvalidConflictCode
  | InvalidBackupEvidence
  | ApprovalRequired
  | AuthorizationDecisionConflict
  | TransitionConflict string
  | ResourceBusy string
  | LegacyMutationBusy string
  | RecoveryRequired string
  | UnsafeLockPath path
  | LockDirectoryChanged
  | LockPermissionsUnsupported path
  | LockIo path string
  | NotTerminal
  | JournalOwner state_error
  | CoordPlan transition_plan_error
  | CoordApproval approval_error
  | CoordJournal journal_error
  | Backend string

record 'e coordinator_env = nonce_env +
  coordinator_journal_render :: "'e transition_journal stored_document \<Rightarrow> string + string"
  coordinator_envelope_sealed :: "'e \<Rightarrow> string + unit"

definition journal_env_of :: "('e, 'z) coordinator_env_scheme \<Rightarrow> 'e journal_env" where
  "journal_env_of E = \<lparr>sha256 = sha256 E, plan_json = plan_json E,
     journal_render = coordinator_journal_render E, envelope_sealed = coordinator_envelope_sealed E\<rparr>"

record transition_coordinator =
  app_state_root :: path
  approval_issuer :: string
  approval_audience :: string
  conflict_checker :: "transition_plan \<Rightarrow> string + unit"

record ('e, 'w) coordinator_state =
  journals :: "'e journal_disk"
  approvals :: approval_disks
  world :: 'w
  held_locks :: "string list"
  lock_faults :: "coordinator_error option list"
  legacy_lock :: "string option"

text \<open>Running the parts of the state; the \<open>From\<close> conversions of the errors.\<close>

definition on_journals ::
  "('e journal_disk, journal_error, 'a) exec \<Rightarrow>
     (('e, 'w) coordinator_state, coordinator_error, 'a) exec" where
  "on_journals m s = (case m (journals s) of (r, d) \<Rightarrow> (map_err CoordJournal r, s\<lparr>journals := d\<rparr>))"

definition on_approvals ::
  "(approval_disks, approval_error, 'a) exec \<Rightarrow>
     (('e, 'w) coordinator_state, coordinator_error, 'a) exec" where
  "on_approvals m s = (case m (approvals s) of (r, d) \<Rightarrow> (map_err CoordApproval r, s\<lparr>approvals := d\<rparr>))"

definition on_world ::
  "('w, string, 'a) exec \<Rightarrow> (('e, 'w) coordinator_state, string, 'a) exec" where
  "on_world m s = (case m (world s) of (r, w) \<Rightarrow> (r, s\<lparr>world := w\<rparr>))"

section \<open>Locks\<close>

text \<open>One look at the lock directory or a lock file, which the environment may fail.\<close>

definition lock_access :: "(('e, 'w) coordinator_state, coordinator_error, unit) exec" where
  "lock_access s =
     (case lock_faults s of
        [] \<Rightarrow> (Inr (), s)
      | None # rest \<Rightarrow> (Inr (), s\<lparr>lock_faults := rest\<rparr>)
      | Some e # rest \<Rightarrow> (Inl e, s\<lparr>lock_faults := rest\<rparr>))"

definition lock_name :: "('z) hashing_scheme \<Rightarrow> string \<Rightarrow> string" where
  "lock_name H res = encode_lower_hex (sha256 H res) @ ''.lock''"

fun acquire_each ::
  "('z) hashing_scheme \<Rightarrow> string list \<Rightarrow> (('e, 'w) coordinator_state, coordinator_error, unit) exec" where
  "acquire_each H [] s = (Inr (), s)"
| "acquire_each H (res # rest) s =
     bind_exec (pure_exec (ensure (valid_identifier res) InvalidCoordinatorIdentifier)) (\<lambda>_.
     bind_exec lock_access (\<lambda>_ s.
     if lock_name H res \<in> set (held_locks s) then (Inl (ResourceBusy res), s)
     else acquire_each H rest (s\<lparr>held_locks := lock_name H res # held_locks s\<rparr>))) s"

text \<open>
  \<open>ResourceLockSet::try_acquire\<close>: the directory is checked, then each resource in the order of
  its id, then the directory again. A failure drops the files already locked.
\<close>

definition try_acquire ::
  "('z) hashing_scheme \<Rightarrow> string list \<Rightarrow> (('e, 'w) coordinator_state, coordinator_error, unit) exec" where
  "try_acquire H resource_ids s =
     (case bind_exec lock_access (\<lambda>_.
           bind_exec (acquire_each H (sort (remdups resource_ids))) (\<lambda>_. lock_access)) s of
        (Inl e, t) \<Rightarrow> (Inl e, t\<lparr>held_locks := held_locks s\<rparr>)
      | (Inr u, t) \<Rightarrow> (Inr u, t))"

definition legacy_mutation_compatibility_lock ::
  "transition_kind \<Rightarrow> (('e, 'w) coordinator_state, coordinator_error, unit) exec" where
  "legacy_mutation_compatibility_lock kind s =
     (if kind \<in> {AdoptCapability, RestoreNative}
      then (case legacy_lock s of
          None \<Rightarrow> (Inr (), s) | Some reason \<Rightarrow> (Inl (LegacyMutationBusy reason), s))
      else (Inr (), s))"

section \<open>Outcomes\<close>

definition coordinator_code :: "string \<Rightarrow> coordinator_error + unit" where
  "coordinator_code c = ensure (valid_code c) InvalidBackendFailureCode"

definition terminal_outcome :: "'e transition_journal \<Rightarrow> coordinator_error + transition_outcome" where
  "terminal_outcome j =
     and_then (case lifecycle j of
         Committed \<Rightarrow> Inr OutcomeCommitted
       | RolledBack \<Rightarrow> Inr OutcomeRolledBack
       | NeedsRepair \<Rightarrow> Inr OutcomeNeedsRepair
       | _ \<Rightarrow> Inl NotTerminal) (\<lambda>status.
     Inr \<lparr>outcome_operation_id = journal_operation_id j, outcome_status = status,
          outcome_backup_id = backup_id j, outcome_reason = terminal_code j\<rparr>)"

definition expected_fingerprint :: "bool \<Rightarrow> transition_effect \<Rightarrow> string option" where
  "expected_fingerprint post eff =
     (if post then expected_post_fingerprint eff else expected_pre_fingerprint eff)"

definition revalidate_effects ::
  "'w transition_backend \<Rightarrow> bool \<Rightarrow> string \<Rightarrow> transition_effect list \<Rightarrow> 'w \<Rightarrow>
     coordinator_error + unit" where
  "revalidate_effects B post op effs w =
     try_for_each (\<lambda>eff.
       and_then (map_err (\<lambda>_. RecoveryRequired op) (current_fingerprint B eff w)) (\<lambda>current.
       ensure (current = expected_fingerprint post eff) (RecoveryRequired op))) effs"

definition cached_terminal_outcome ::
  "'w transition_backend \<Rightarrow> transition_plan \<Rightarrow> 'e transition_journal \<Rightarrow> 'w \<Rightarrow>
     coordinator_error + transition_outcome" where
  "cached_terminal_outcome B plan j w =
     (if lifecycle j = NeedsRepair then terminal_outcome j
      else if lifecycle j \<in> {Committed, RolledBack} then
        and_then (revalidate_effects B (lifecycle j = Committed) (journal_operation_id j)
            (effects plan) w) (\<lambda>_. terminal_outcome j)
      else Inl NotTerminal)"

fun first_pre_state_drift ::
  "'w transition_backend \<Rightarrow> transition_effect list \<Rightarrow> 'w \<Rightarrow> coordinator_error + string option" where
  "first_pre_state_drift B [] w = Inr None"
| "first_pre_state_drift B (eff # effs) w =
     and_then (map_err Backend (current_fingerprint B eff w)) (\<lambda>current.
     if current \<noteq> expected_pre_fingerprint eff then Inr (Some (effect_id eff))
     else first_pre_state_drift B effs w)"

section \<open>Writing the journal\<close>

definition save ::
  "('e, 'z) coordinator_env_scheme \<Rightarrow> path \<Rightarrow> 'e journal_handle \<Rightarrow>
     (('e, 'w) coordinator_state, coordinator_error, 'e journal_handle) exec" where
  "save E root h = on_journals (save_journal (journal_env_of E) root h)"

text \<open>\<open>handle.journal.record(..)?\<close>\<close>

definition record_in ::
  "('z) hashing_scheme \<Rightarrow> transition_lifecycle \<Rightarrow> string \<Rightarrow> string option \<Rightarrow>
     'e journal_handle \<Rightarrow> coordinator_error + 'e journal_handle" where
  "record_in H l c eff h =
     and_then (map_err CoordJournal (record_event H l c eff (handle_journal h))) (\<lambda>j.
     Inr (h\<lparr>handle_journal := j\<rparr>))"

definition record_and_save ::
  "('e, 'z) coordinator_env_scheme \<Rightarrow> path \<Rightarrow> transition_lifecycle \<Rightarrow> string \<Rightarrow> string option \<Rightarrow>
     'e journal_handle \<Rightarrow>
     (('e, 'w) coordinator_state, coordinator_error, 'e journal_handle) exec" where
  "record_and_save E root l c eff h =
     bind_exec (pure_exec (record_in E l c eff h)) (save E root)"

definition update_journal ::
  "('e transition_journal \<Rightarrow> 'e transition_journal) \<Rightarrow> 'e journal_handle \<Rightarrow> 'e journal_handle" where
  "update_journal f h = h\<lparr>handle_journal := f (handle_journal h)\<rparr>"

definition set_status ::
  "nat \<Rightarrow> checkpoint_status \<Rightarrow> 'e transition_journal \<Rightarrow> 'e transition_journal" where
  "set_status i status j =
     j\<lparr>checkpoints := (checkpoints j)[i := (checkpoints j ! i)\<lparr>checkpoint_status := status\<rparr>]\<rparr>"

text \<open>\<open>iter_mut().find(..)\<close>: the first checkpoint of the effect.\<close>

fun mark_needs_repair :: "string \<Rightarrow> effect_checkpoint list \<Rightarrow> effect_checkpoint list" where
  "mark_needs_repair eff [] = []"
| "mark_needs_repair eff (c # cs) =
     (if checkpoint_effect_id c = eff then c\<lparr>checkpoint_status := EffectNeedsRepair\<rparr> # cs
      else c # mark_needs_repair eff cs)"

definition needs_repair ::
  "('e, 'z) coordinator_env_scheme \<Rightarrow> path \<Rightarrow> string \<Rightarrow> string option \<Rightarrow> 'e journal_handle \<Rightarrow>
     (('e, 'w) coordinator_state, coordinator_error, transition_outcome) exec" where
  "needs_repair E root c eff h =
     bind_exec (pure_exec (coordinator_code c)) (\<lambda>_.
     (let h1 = update_journal (\<lambda>j. j\<lparr>checkpoints :=
              (case eff of None \<Rightarrow> checkpoints j | Some e \<Rightarrow> mark_needs_repair e (checkpoints j)),
              terminal_code := Some c\<rparr>) h in
     bind_exec (record_and_save E root NeedsRepair c eff h1) (\<lambda>h2.
     pure_exec (terminal_outcome (handle_journal h2)))))"

section \<open>Authorization\<close>

definition authorize_nonce ::
  "('z) nonce_env_scheme \<Rightarrow> path \<Rightarrow> verified_approval \<Rightarrow> int \<Rightarrow> owner_generation \<Rightarrow>
     (approval_disks, approval_error, unit) exec" where
  "authorize_nonce E root approval now owner =
     bind_exec (pure_exec (ensure (\<not> now < approved_issued_at approval) NotYetValid)) (\<lambda>_.
     bind_exec (if now < approved_expires_at approval
                then consume_or_attach E root approval now owner
                else attach_existing E root approval) (\<lambda>_.
     pure_exec (Inr ())))"

fun is_stale_journal :: "coordinator_error \<Rightarrow> bool" where
  "is_stale_journal (CoordJournal (JournalState (StaleRevision _ _))) = True"
| "is_stale_journal _ = False"

text \<open>Saving the approved journal, or attaching to the same decision another process saved.\<close>

definition save_approval ::
  "('e, 'z) coordinator_env_scheme \<Rightarrow> path \<Rightarrow> transition_plan \<Rightarrow> owner_generation \<Rightarrow>
     'e journal_handle \<Rightarrow>
     (('e, 'w) coordinator_state, coordinator_error, 'e journal_handle) exec" where
  "save_approval E root plan journal_owner h s =
     (case save E root h s of
        (Inr h2, t) \<Rightarrow> (Inr h2, t)
      | (Inl e, t) \<Rightarrow>
          if is_stale_journal e then
            bind_exec (on_journals (load_for_plan (journal_env_of E) root plan journal_owner)) (\<lambda>loaded.
            pure_exec (if authorization_decision (handle_journal loaded) =
                          authorization_decision (handle_journal h)
                       then Inr loaded else Inl AuthorizationDecisionConflict)) t
          else (Inl e, t))"

definition ensure_authorized ::
  "('e, 'z) coordinator_env_scheme \<Rightarrow> transition_coordinator \<Rightarrow> transition_plan \<Rightarrow>
     approval_receipt option \<Rightarrow> string \<Rightarrow> int \<Rightarrow> owner_generation \<Rightarrow> owner_generation \<Rightarrow>
     'e journal_handle \<Rightarrow>
     (('e, 'w) coordinator_state, coordinator_error, 'e journal_handle) exec" where
  "ensure_authorized E C plan receipt key now nonce_owner journal_owner h =
     (case authorization_decision (handle_journal h) of
        Some decision \<Rightarrow>
          if (case receipt of None \<Rightarrow> False | Some r \<Rightarrow> decision_digest E r \<noteq> decision)
          then pure_exec (Inl AuthorizationDecisionConflict)
          else pure_exec (Inr h)
      | None \<Rightarrow>
          bind_exec (pure_exec (ok_or receipt ApprovalRequired)) (\<lambda>r.
          bind_exec (pure_exec (map_err CoordApproval (verify_binding E key r
              (plan_expectation plan (approval_issuer C) (approval_audience C))))) (\<lambda>approval.
          bind_exec (on_approvals (authorize_nonce E (app_state_root C) approval now nonce_owner)) (\<lambda>_.
          bind_exec (pure_exec (record_in E Approved ''approval-recorded'' None
              (update_journal (\<lambda>j. j\<lparr>authorization_decision :=
                 Some (approved_decision_digest approval)\<rparr>) h)))
            (save_approval E (app_state_root C) plan journal_owner)))))"

section \<open>Backup, rollback and apply\<close>

definition create_backup ::
  "('e, 'z) coordinator_env_scheme \<Rightarrow> path \<Rightarrow> 'w transition_backend \<Rightarrow> transition_plan \<Rightarrow>
     'e journal_handle \<Rightarrow>
     (('e, 'w) coordinator_state, coordinator_error, 'e journal_handle) exec" where
  "create_backup E root B plan h s =
     (case on_world (backup_transition B plan (backup_id (handle_journal h))) s of
        (Inl c, t) \<Rightarrow>
          bind_exec (record_and_save E root Recovering (''backup-'' @ c) None h) (\<lambda>_.
          pure_exec (Inl (Backend c))) t
      | (Inr manifest, t) \<Rightarrow>
          bind_exec (pure_exec (ensure (is_lower_hex_digest manifest) InvalidBackupEvidence)) (\<lambda>_.
          record_and_save E root BackedUp ''backup-authenticated'' None
            (update_journal (\<lambda>j. j\<lparr>backup_manifest := Some manifest,
               checkpoints := map (\<lambda>c. c\<lparr>checkpoint_status := EffectBackedUp\<rparr>) (checkpoints j)\<rparr>) h)) t)"

definition finish ::
  "('e, 'z) coordinator_env_scheme \<Rightarrow> path \<Rightarrow> transition_lifecycle \<Rightarrow> string \<Rightarrow> string \<Rightarrow>
     'e journal_handle \<Rightarrow>
     (('e, 'w) coordinator_state, coordinator_error, transition_outcome) exec" where
  "finish E root l c reason h =
     bind_exec (record_and_save E root l c None
         (update_journal (\<lambda>j. j\<lparr>terminal_code := Some reason\<rparr>) h)) (\<lambda>h1.
     pure_exec (terminal_outcome (handle_journal h1)))"

text \<open>The backward loop of \<open>rollback\<close> over the indexed effects.\<close>

fun rollback_loop ::
  "('e, 'z) coordinator_env_scheme \<Rightarrow> path \<Rightarrow> 'w transition_backend \<Rightarrow> string \<Rightarrow>
     (nat \<times> transition_effect) list \<Rightarrow> 'e journal_handle \<Rightarrow>
     (('e, 'w) coordinator_state, coordinator_error, transition_outcome) exec" where
  "rollback_loop E root B reason [] h s = finish E root RolledBack ''rolled-back'' reason h s"
| "rollback_loop E root B reason ((i, eff) # rest) h s =
     (case current_fingerprint B eff (world s) of
        Inl _ \<Rightarrow> needs_repair E root ''rollback-state-unobservable'' (Some (effect_id eff)) h s
      | Inr current \<Rightarrow>
          if current = expected_pre_fingerprint eff then
            if checkpoint_status (checkpoints (handle_journal h) ! i) = EffectApplied then
              bind_exec (record_and_save E root RollingBack ''rollback-recovered'' (Some (effect_id eff))
                  (update_journal (set_status i EffectRolledBack) h)) (\<lambda>h1.
              rollback_loop E root B reason rest h1) s
            else rollback_loop E root B reason rest h s
          else if current \<noteq> expected_post_fingerprint eff then
            needs_repair E root ''rollback-state-drift'' (Some (effect_id eff)) h s
          else
            (case on_world (rollback_effect B eff (backup_id (handle_journal h))) s of
               (Inl c, t) \<Rightarrow> needs_repair E root (''rollback-'' @ c) (Some (effect_id eff)) h t
             | (Inr _, t) \<Rightarrow>
                 (case current_fingerprint B eff (world t) of
                    Inl _ \<Rightarrow> needs_repair E root ''rollback-state-unobservable'' (Some (effect_id eff)) h t
                  | Inr rolled_back \<Rightarrow>
                      if rolled_back \<noteq> expected_pre_fingerprint eff then
                        needs_repair E root ''rollback-unverified'' (Some (effect_id eff)) h t
                      else
                        bind_exec (record_and_save E root RollingBack ''effect-rolled-back''
                            (Some (effect_id eff)) (update_journal (set_status i EffectRolledBack) h))
                          (\<lambda>h1. rollback_loop E root B reason rest h1) t)))"

definition indexed :: "transition_plan \<Rightarrow> (nat \<times> transition_effect) list" where
  "indexed plan = zip [0..<length (effects plan)] (effects plan)"

definition rollback ::
  "('e, 'z) coordinator_env_scheme \<Rightarrow> path \<Rightarrow> 'w transition_backend \<Rightarrow> transition_plan \<Rightarrow> string \<Rightarrow>
     'e journal_handle \<Rightarrow>
     (('e, 'w) coordinator_state, coordinator_error, transition_outcome) exec" where
  "rollback E root B plan reason h =
     bind_exec (record_and_save E root RollingBack ''rollback-started'' None h) (\<lambda>h1.
     rollback_loop E root B reason (rev (indexed plan)) h1)"

text \<open>The forward loop of \<open>apply\<close>.\<close>

fun apply_loop ::
  "('e, 'z) coordinator_env_scheme \<Rightarrow> path \<Rightarrow> 'w transition_backend \<Rightarrow> transition_plan \<Rightarrow>
     (nat \<times> transition_effect) list \<Rightarrow> 'e journal_handle \<Rightarrow>
     (('e, 'w) coordinator_state, coordinator_error, transition_outcome) exec" where
  "apply_loop E root B plan [] h s = finish E root Committed ''committed'' ''committed'' h s"
| "apply_loop E root B plan ((i, eff) # rest) h s =
     (case current_fingerprint B eff (world s) of
        Inl _ \<Rightarrow> needs_repair E root ''state-observation-failed'' (Some (effect_id eff)) h s
      | Inr current \<Rightarrow>
      (case checkpoint_status (checkpoints (handle_journal h) ! i) of
         EffectApplied \<Rightarrow>
           if current \<noteq> expected_post_fingerprint eff
           then needs_repair E root ''applied-state-drift'' (Some (effect_id eff)) h s
           else apply_loop E root B plan rest h s
       | EffectRolledBack \<Rightarrow>
           needs_repair E root ''unexpected-rolled-back-effect'' (Some (effect_id eff)) h s
       | EffectNeedsRepair \<Rightarrow>
           needs_repair E root ''checkpoint-needs-repair'' (Some (effect_id eff)) h s
       | _ \<Rightarrow>
           if current = expected_post_fingerprint eff then
             bind_exec (record_and_save E root Recovering ''effect-recovered'' (Some (effect_id eff))
                 (update_journal (set_status i EffectApplied) h)) (\<lambda>h1.
             apply_loop E root B plan rest h1) s
           else if current \<noteq> expected_pre_fingerprint eff then
             needs_repair E root ''pre-state-drift'' (Some (effect_id eff)) h s
           else
             (case on_world (apply_effect B eff) s of
                (Inl c, t) \<Rightarrow>
                  bind_exec (record_and_save E root Cancelling (''apply-'' @ c) (Some (effect_id eff)) h)
                    (\<lambda>h1. rollback E root B plan ''apply-failed'' h1) t
              | (Inr _, t) \<Rightarrow>
                  (case current_fingerprint B eff (world t) of
                     Inl _ \<Rightarrow> needs_repair E root ''post-state-unobservable'' (Some (effect_id eff)) h t
                   | Inr observed \<Rightarrow>
                       if observed \<noteq> expected_post_fingerprint eff then
                         needs_repair E root ''post-state-unverified'' (Some (effect_id eff)) h t
                       else
                         bind_exec (record_and_save E root Applying ''effect-applied''
                             (Some (effect_id eff)) (update_journal (set_status i EffectApplied) h))
                           (\<lambda>h1. apply_loop E root B plan rest h1) t))))"

definition apply_plan ::
  "('e, 'z) coordinator_env_scheme \<Rightarrow> path \<Rightarrow> 'w transition_backend \<Rightarrow> transition_plan \<Rightarrow>
     'e journal_handle \<Rightarrow>
     (('e, 'w) coordinator_state, coordinator_error, transition_outcome) exec" where
  "apply_plan E root B plan h =
     bind_exec (record_and_save E root Applying ''apply-started'' None h) (\<lambda>h1.
     apply_loop E root B plan (indexed plan) h1)"

section \<open>Executing a plan\<close>

definition transition_journal_owner :: "transition_plan \<Rightarrow> coordinator_error + owner_generation" where
  "transition_journal_owner plan =
     map_err JournalOwner (new_owner (''transition:'' @ operation_id plan) 1)"

definition relock :: "transition_lifecycle \<Rightarrow> transition_lifecycle \<times> string" where
  "relock l = (if l \<in> {Applying, Cancelling, RollingBack, Recovering}
               then (l, ''resources-relocked'') else (Locked, ''resources-locked''))"

definition continue_run ::
  "('e, 'z) coordinator_env_scheme \<Rightarrow> path \<Rightarrow> 'w transition_backend \<Rightarrow> transition_plan \<Rightarrow> bool \<Rightarrow>
     'e journal_handle \<Rightarrow>
     (('e, 'w) coordinator_state, coordinator_error, transition_outcome) exec" where
  "continue_run E root B plan resume_rollback h =
     (if resume_rollback then rollback E root B plan ''resume-rollback'' h
      else apply_plan E root B plan h)"

text \<open>The drift check and the backup, once, then the writes.\<close>

definition run_backed_up ::
  "('e, 'z) coordinator_env_scheme \<Rightarrow> path \<Rightarrow> 'w transition_backend \<Rightarrow> transition_plan \<Rightarrow> bool \<Rightarrow>
     'e journal_handle \<Rightarrow>
     (('e, 'w) coordinator_state, coordinator_error, transition_outcome) exec" where
  "run_backed_up E root B plan resume_rollback h s =
     (if backup_manifest (handle_journal h) = None then
        (case first_pre_state_drift B (effects plan) (world s) of
           Inl e \<Rightarrow> (Inl e, s)
         | Inr (Some eff) \<Rightarrow> needs_repair E root ''pre-state-drift'' (Some eff) h s
         | Inr None \<Rightarrow> bind_exec (create_backup E root B plan h)
             (continue_run E root B plan resume_rollback) s)
      else continue_run E root B plan resume_rollback h s)"

text \<open>Everything after the resources are locked and the plan is authorized and unblocked.\<close>

definition run_locked ::
  "('e, 'z) coordinator_env_scheme \<Rightarrow> path \<Rightarrow> 'w transition_backend \<Rightarrow> transition_plan \<Rightarrow>
     'e journal_handle \<Rightarrow>
     (('e, 'w) coordinator_state, coordinator_error, transition_outcome) exec" where
  "run_locked E root B plan h =
     bind_exec (record_and_save E root (fst (relock (lifecycle (handle_journal h))))
        (snd (relock (lifecycle (handle_journal h)))) None h)
       (run_backed_up E root B plan (lifecycle (handle_journal h) \<in> {Cancelling, RollingBack}))"

definition authorized_run ::
  "('e, 'z) coordinator_env_scheme \<Rightarrow> transition_coordinator \<Rightarrow> 'w transition_backend \<Rightarrow>
     transition_plan \<Rightarrow> approval_receipt option \<Rightarrow> string \<Rightarrow> int \<Rightarrow> owner_generation \<Rightarrow>
     owner_generation \<Rightarrow> 'e journal_handle \<Rightarrow>
     (('e, 'w) coordinator_state, coordinator_error, transition_outcome) exec" where
  "authorized_run E C B plan receipt key now nonce_owner owner h =
     bind_exec (ensure_authorized E C plan receipt key now nonce_owner owner h) (\<lambda>_.
     bind_exec (on_journals (blocking_operation_for (journal_env_of E) (app_state_root C) plan)) (\<lambda>blocking.
     bind_exec (pure_exec (case blocking of None \<Rightarrow> Inr () | Some op \<Rightarrow> Inl (RecoveryRequired op))) (\<lambda>_.
     bind_exec (on_journals (load_for_plan (journal_env_of E) (app_state_root C) plan owner)) (\<lambda>h1 s.
     if is_terminal (lifecycle (handle_journal h1))
     then (cached_terminal_outcome B plan (handle_journal h1) (world s), s)
     else if (case receipt of None \<Rightarrow> False
              | Some r \<Rightarrow> authorization_decision (handle_journal h1) \<noteq> Some (decision_digest E r))
     then (Inl AuthorizationDecisionConflict, s)
     else run_locked E (app_state_root C) B plan h1 s))))"

definition execute_with_recovery_policy ::
  "('e, 'z) coordinator_env_scheme \<Rightarrow> transition_coordinator \<Rightarrow> 'w transition_backend \<Rightarrow>
     transition_plan \<Rightarrow> approval_receipt option \<Rightarrow> string \<Rightarrow> int \<Rightarrow> owner_generation \<Rightarrow>
     transition_recovery_policy \<Rightarrow>
     (('e, 'w) coordinator_state, coordinator_error, transition_outcome) exec" where
  "execute_with_recovery_policy E C B plan receipt key now owner policy s =
     (case
       bind_exec (pure_exec (map_err CoordPlan (verify_plan_digest E plan))) (\<lambda>_.
       bind_exec (pure_exec (transition_journal_owner plan)) (\<lambda>jowner.
       bind_exec (pure_exec (map_err TransitionConflict (conflict_checker C plan))) (\<lambda>_.
       bind_exec (on_journals (create_or_attach (journal_env_of E) (app_state_root C) plan jowner)) (\<lambda>h.
       bind_exec (try_acquire E (map resource_id (effects plan))) (\<lambda>_.
       bind_exec (legacy_mutation_compatibility_lock (plan_kind plan)) (\<lambda>_ s.
       if is_terminal (lifecycle (handle_journal h))
       then (cached_terminal_outcome B plan (handle_journal h) (world s), s)
       else if policy = NoResumeWrites \<and> lifecycle (handle_journal h) \<noteq> Planned
       then needs_repair E (app_state_root C) ''no-resume-writes'' None h s
       else authorized_run E C B plan receipt key now owner jowner h s)))))) s
     of (r, t) \<Rightarrow> (r, t\<lparr>held_locks := held_locks s\<rparr>))"

definition execute ::
  "('e, 'z) coordinator_env_scheme \<Rightarrow> transition_coordinator \<Rightarrow> 'w transition_backend \<Rightarrow>
     transition_plan \<Rightarrow> approval_receipt option \<Rightarrow> string \<Rightarrow> int \<Rightarrow> owner_generation \<Rightarrow>
     (('e, 'w) coordinator_state, coordinator_error, transition_outcome) exec" where
  "execute E C B plan receipt key now owner =
     execute_with_recovery_policy E C B plan receipt key now owner ResumeSafe"

end
