(* ===== verification/Coordinator_Safety.thy ===== *)
theory Coordinator_Safety
  imports Transition_Coordinator
begin

text \<open>
  What executing a plan guarantees: outcomes that say the truth about the provider, no provider
  write without a decision and a backup on disk, and locks that keep two plans apart. The
  contract of a backend is stated as locales; the proofs follow the branches of the loops.
\<close>

section \<open>What a journal write does\<close>

text \<open>The journal of an operation, as a reader of the store finds it.\<close>

definition journal_at ::
  "('e, 'z) coordinator_env_scheme \<Rightarrow> path \<Rightarrow> string \<Rightarrow> 'e journal_disk \<Rightarrow> 'e transition_journal option" where
  "journal_at E root op d =
     map_option (snd \<circ> snd) (held (store_env (journal_env_of E)) 1 d (get_transition_journal_path root op))"

lemma on_journals_result:
  "on_journals m s = (r, t) \<longleftrightarrow>
     (\<exists>q d. m (journals s) = (q, d) \<and> r = map_err CoordJournal q \<and> t = s\<lparr>journals := d\<rparr>)"
  by (auto simp: on_journals_def split: prod.splits)

lemma on_journals_other [simp]:
  assumes "on_journals m s = (r, t)"
  shows "world t = world s" "held_locks t = held_locks s"
  using assms by (auto simp: on_journals_result)

lemma map_err_eq:
  "Inr x = map_err f r \<longleftrightarrow> r = Inr x" "Inl e = map_err f r \<longleftrightarrow> (\<exists>e'. r = Inl e' \<and> e = f e')"
  by (cases r; auto simp: map_err_def)+

lemma map_err_err [simp]: "map_err f r = Inl e \<longleftrightarrow> (\<exists>e'. r = Inl e' \<and> e = f e')"
  by (cases r) (auto simp: map_err_def)

lemma journal_of_result:
  "journal_of m s = (r, t) \<longleftrightarrow> (\<exists>q. m s = (q, t) \<and> r = map_err JournalState q)"
  by (auto simp: journal_of_def split: prod.splits)

lemma hash_of_journal_env [simp]:
  "sha256 (journal_env_of E) = sha256 E" "plan_json (journal_env_of E) = plan_json E"
  by (simp_all add: journal_env_of_def)

lemma verify_chain_env [simp]: "verify_audit_chain (journal_env_of E) j = verify_audit_chain E j"
  by (rule verify_audit_chain_hash) simp

lemma save_journal_result:
  assumes "save_journal (journal_env_of E) root h d = (r, t)"
  shows "(journal_at E root op t = journal_at E root op d \<and> (\<exists>e. r = Inl e)) \<or>
    (journal_at E root op t = (if op = journal_operation_id (handle_journal h)
       then Some (handle_journal h) else journal_at E root op d) \<and>
     verify_audit_chain E (handle_journal h) = Inr () \<and>
     (\<forall>h'. r = Inr h' \<longrightarrow> handle_journal h' = handle_journal h \<and> handle_owner h' = handle_owner h))"
proof -
  let ?J = "journal_env_of E"
  let ?p = "get_transition_journal_path root (journal_operation_id (handle_journal h))"
  let ?swap = "compare_and_swap (store_env ?J) 1 ?p (Some (handle_revision h)) (handle_owner h)
    (handle_journal h)"
  consider "t = d" "\<exists>e. r = Inl e"
    | q where "verify_audit_chain E (handle_journal h) = Inr ()" "?swap d = (q, t)"
      "r = (case q of Inl e \<Rightarrow> Inl (JournalState e) | Inr rv \<Rightarrow> Inr (h\<lparr>handle_revision := rv\<rparr>))"
    using assms by (auto simp: save_journal_def bind_exec_result journal_of_result map_err_eq)
  then show ?thesis
  proof cases
    case (2 q)
    have "held (store_env ?J) 1 t ?p = held (store_env ?J) 1 d ?p \<and> (\<exists>e. q = Inl e) \<or>
        (\<exists>rv. held (store_env ?J) 1 t ?p = Some (rv, handle_owner h, handle_journal h))"
      using compare_and_swap_held [OF 2(2)] by auto
    moreover have "op \<noteq> journal_operation_id (handle_journal h) \<Longrightarrow> journal_at E root op t = journal_at E root op d"
      using compare_and_swap_files [OF 2(2), of "get_transition_journal_path root op"]
        held_cong [of t "get_transition_journal_path root op" d "store_env ?J" 1]
      by (simp add: journal_at_def)
    ultimately show ?thesis using 2(1,3)
      by (cases "op = journal_operation_id (handle_journal h)")
        (auto simp: journal_at_def split: sum.splits)
  qed auto
qed

text \<open>
  What every provider write needs to find on disk: the human decision and the authenticated
  backup of the operation.
\<close>

definition cleared :: "string \<Rightarrow> 'e transition_journal \<Rightarrow> bool" where
  "cleared op j \<longleftrightarrow> journal_operation_id j = op \<and> authorization_decision j \<noteq> None \<and>
     backup_manifest j \<noteq> None"

definition durable ::
  "('e, 'z) coordinator_env_scheme \<Rightarrow> path \<Rightarrow> string \<Rightarrow> ('e, 'w) coordinator_state \<Rightarrow> bool" where
  "durable E root op s \<longleftrightarrow> (\<exists>j. journal_at E root op (journals s) = Some j \<and> cleared op j)"

lemma save_result:
  assumes "save E root h s = (r, t)"
  shows "world t = world s" "held_locks t = held_locks s"
    "r = Inr h' \<Longrightarrow> handle_journal h' = handle_journal h"
    "r = Inr h' \<Longrightarrow> journal_at E root (journal_operation_id (handle_journal h)) (journals t) =
       Some (handle_journal h)"
    "cleared op (handle_journal h) \<Longrightarrow> durable E root op s \<Longrightarrow> durable E root op t"
proof -
  obtain q d where q: "save_journal (journal_env_of E) root h (journals s) = (q, d)"
    "r = map_err CoordJournal q" "t = s\<lparr>journals := d\<rparr>"
    using assms by (auto simp: save_def on_journals_result)
  then show "world t = world s" "held_locks t = held_locks s" by auto
  note res = save_journal_result [OF q(1)]
  show "r = Inr h' \<Longrightarrow> handle_journal h' = handle_journal h"
    using res q(2) by auto
  show "r = Inr h' \<Longrightarrow> journal_at E root (journal_operation_id (handle_journal h)) (journals t) =
       Some (handle_journal h)"
    using res [of "journal_operation_id (handle_journal h)"] q by auto
  show "durable E root op t" if "cleared op (handle_journal h)" "durable E root op s"
    using res [of op] that q(3) by (auto simp: durable_def cleared_def)
qed

lemma record_in_ok:
  assumes "record_in H l c eff h = Inr h'"
  shows "\<exists>a. handle_journal h' = (handle_journal h)\<lparr>lifecycle := l, audit := a\<rparr>"
  using assms by (auto simp: record_in_def and_then_ok elim!: record_event_ok)

lemma cleared_record [simp]:
  "cleared op (j\<lparr>lifecycle := l, audit := a\<rparr>) = cleared op j"
  "cleared op (j\<lparr>terminal_code := c\<rparr>) = cleared op j"
  "cleared op (j\<lparr>checkpoints := cs\<rparr>) = cleared op j"
  "cleared op (set_status i st j) = cleared op j"
  by (auto simp: cleared_def set_status_def)

lemma record_and_save_result:
  assumes "record_and_save E root l c eff h s = (r, t)"
  shows "world t = world s" "held_locks t = held_locks s"
    "r = Inr h' \<Longrightarrow> \<exists>a. handle_journal h' = (handle_journal h)\<lparr>lifecycle := l, audit := a\<rparr>"
    "r = Inr h' \<Longrightarrow> journal_at E root (journal_operation_id (handle_journal h)) (journals t) =
       Some (handle_journal h')"
    "cleared op (handle_journal h) \<Longrightarrow> durable E root op s \<Longrightarrow> durable E root op t"
proof -
  have main: "world t = world s \<and> held_locks t = held_locks s \<and>
    (\<forall>h'. r = Inr h' \<longrightarrow> (\<exists>a. handle_journal h' = (handle_journal h)\<lparr>lifecycle := l, audit := a\<rparr>) \<and>
      journal_at E root (journal_operation_id (handle_journal h)) (journals t) =
       Some (handle_journal h')) \<and>
    (cleared op (handle_journal h) \<longrightarrow> durable E root op s \<longrightarrow> durable E root op t)" for op
  proof (cases "record_in E l c eff h")
    case (Inl e)
    with assms show ?thesis by (auto simp: record_and_save_def bind_exec_result)
  next
    case (Inr k)
    with assms have "save E root k s = (r, t)" by (simp add: record_and_save_def bind_exec_result)
    note sv = save_result [OF this]
    obtain a where k: "handle_journal k = (handle_journal h)\<lparr>lifecycle := l, audit := a\<rparr>"
      using record_in_ok [OF Inr] by blast
    have "cleared op (handle_journal k) = cleared op (handle_journal h)"
      "journal_operation_id (handle_journal k) = journal_operation_id (handle_journal h)"
      using k by simp_all
    then show ?thesis using sv(1,2,5) sv(3,4) k by metis
  qed
  show "world t = world s" "held_locks t = held_locks s"
    "r = Inr h' \<Longrightarrow> \<exists>a. handle_journal h' = (handle_journal h)\<lparr>lifecycle := l, audit := a\<rparr>"
    "r = Inr h' \<Longrightarrow> journal_at E root (journal_operation_id (handle_journal h)) (journals t) =
       Some (handle_journal h')"
    "cleared op (handle_journal h) \<Longrightarrow> durable E root op s \<Longrightarrow> durable E root op t"
    using main by blast+
qed

lemma needs_repair_result:
  assumes "needs_repair E root c eff h s = (r, t)"
  shows "world t = world s" "held_locks t = held_locks s"
    "r = Inr out \<Longrightarrow> outcome_status out = OutcomeNeedsRepair"
    "cleared op (handle_journal h) \<Longrightarrow> durable E root op s \<Longrightarrow> durable E root op t"
proof -
  let ?h = "update_journal (\<lambda>j. j\<lparr>checkpoints :=
              (case eff of None \<Rightarrow> checkpoints j | Some e \<Rightarrow> mark_needs_repair e (checkpoints j)),
              terminal_code := Some c\<rparr>) h"
  have clear: "cleared op (handle_journal ?h) = cleared op (handle_journal h)" for op
    by (simp add: update_journal_def)
  consider "t = s" "\<exists>e. r = Inl e"
    | q where "record_and_save E root NeedsRepair c eff ?h s = (q, t)" "\<exists>e. q = Inl e" "\<exists>e. r = Inl e"
    | k where "record_and_save E root NeedsRepair c eff ?h s = (Inr k, t)"
      "r = terminal_outcome (handle_journal k)"
    using assms by (auto simp: needs_repair_def bind_exec_result Let_def)
  then have "world t = world s \<and> held_locks t = held_locks s \<and>
    (\<forall>out. r = Inr out \<longrightarrow> outcome_status out = OutcomeNeedsRepair) \<and>
    (cleared op (handle_journal h) \<longrightarrow> durable E root op s \<longrightarrow> durable E root op t)"
  proof cases
    case (2 q)
    with record_and_save_result [OF 2(1)] clear show ?thesis by auto
  next
    case (3 k)
    note res = record_and_save_result [OF 3(1)]
    with 3(2) clear show ?thesis by (auto simp: terminal_outcome_def and_then_ok)
  qed auto
  then show "world t = world s" "held_locks t = held_locks s"
    "r = Inr out \<Longrightarrow> outcome_status out = OutcomeNeedsRepair"
    "cleared op (handle_journal h) \<Longrightarrow> durable E root op s \<Longrightarrow> durable E root op t" by auto
qed

definition status_of :: "transition_lifecycle \<Rightarrow> transition_outcome_status" where
  "status_of l = (case l of Committed \<Rightarrow> OutcomeCommitted | RolledBack \<Rightarrow> OutcomeRolledBack
     | _ \<Rightarrow> OutcomeNeedsRepair)"

lemma terminal_outcome_ok:
  "terminal_outcome j = Inr out \<Longrightarrow> is_terminal (lifecycle j) \<and> outcome_status out = status_of (lifecycle j) \<and>
     outcome_operation_id out = journal_operation_id j \<and> outcome_backup_id out = backup_id j \<and>
     outcome_reason out = terminal_code j"
  by (auto simp: terminal_outcome_def and_then_ok status_of_def is_terminal_def
      split: transition_lifecycle.splits)

lemma finish_result:
  assumes "finish E root l c reason h s = (r, t)"
  shows "world t = world s" "held_locks t = held_locks s"
    "r = Inr out \<Longrightarrow> outcome_status out = status_of l"
    "cleared op (handle_journal h) \<Longrightarrow> durable E root op s \<Longrightarrow> durable E root op t"
proof -
  let ?h = "update_journal (\<lambda>j. j\<lparr>terminal_code := Some reason\<rparr>) h"
  have clear: "cleared op (handle_journal ?h) = cleared op (handle_journal h)" for op
    by (simp add: update_journal_def)
  consider q where "record_and_save E root l c None ?h s = (q, t)" "\<exists>e. q = Inl e" "\<exists>e. r = Inl e"
    | k where "record_and_save E root l c None ?h s = (Inr k, t)"
      "r = terminal_outcome (handle_journal k)"
    using assms by (auto simp: finish_def bind_exec_result)
  then have "world t = world s \<and> held_locks t = held_locks s \<and>
    (\<forall>out. r = Inr out \<longrightarrow> outcome_status out = status_of l) \<and>
    (cleared op (handle_journal h) \<longrightarrow> durable E root op s \<longrightarrow> durable E root op t)"
  proof cases
    case (1 q)
    with record_and_save_result [OF 1(1)] clear show ?thesis by auto
  next
    case (2 k)
    note res = record_and_save_result [OF 2(1)]
    with 2(2) clear show ?thesis by (auto dest: terminal_outcome_ok)
  qed
  then show "world t = world s" "held_locks t = held_locks s"
    "r = Inr out \<Longrightarrow> outcome_status out = status_of l"
    "cleared op (handle_journal h) \<Longrightarrow> durable E root op s \<Longrightarrow> durable E root op t" by auto
qed

text \<open>The branches of one turn of each loop.\<close>

lemma apply_loop_cases:
  assumes "apply_loop E root B plan ((i, eff) # rest) h s = (r, t)"
  obtains (repair) c x where "needs_repair E root c x h s = (r, t)"
  | (skip) "current_fingerprint B eff (world s) = Inr (expected_post_fingerprint eff)"
      "apply_loop E root B plan rest h s = (r, t)"
  | (recovered) "current_fingerprint B eff (world s) = Inr (expected_post_fingerprint eff)"
      "bind_exec (record_and_save E root Recovering ''effect-recovered'' (Some (effect_id eff))
         (update_journal (set_status i EffectApplied) h)) (\<lambda>h1. apply_loop E root B plan rest h1) s = (r, t)"
  | (failed) c u where "on_world (apply_effect B eff) s = (Inl c, u)"
      "bind_exec (record_and_save E root Cancelling (''apply-'' @ c) (Some (effect_id eff)) h)
         (\<lambda>h1. rollback E root B plan ''apply-failed'' h1) u = (r, t)"
  | (unverified) c x v u where "on_world (apply_effect B eff) s = (Inr v, u)"
      "needs_repair E root c x h u = (r, t)"
  | (applied) v u where "on_world (apply_effect B eff) s = (Inr v, u)"
      "current_fingerprint B eff (world u) = Inr (expected_post_fingerprint eff)"
      "bind_exec (record_and_save E root Applying ''effect-applied'' (Some (effect_id eff))
         (update_journal (set_status i EffectApplied) h)) (\<lambda>h1. apply_loop E root B plan rest h1) u = (r, t)"
proof (cases "current_fingerprint B eff (world s)")
  case (Inl c)
  with assms repair show thesis by simp
next
  case (Inr current)
  let ?status = "checkpoint_status (checkpoints (handle_journal h) ! i)"
  show thesis
  proof (cases "?status \<in> {EffectPending, EffectBackedUp}")
    case False
    with assms Inr repair skip show thesis by (cases ?status) (auto split: if_splits)
  next
    case True
    obtain q u where u: "on_world (apply_effect B eff) s = (q, u)"
      by (cases "on_world (apply_effect B eff) s")
    have run: "(if current = expected_post_fingerprint eff then
             bind_exec (record_and_save E root Recovering ''effect-recovered'' (Some (effect_id eff))
                 (update_journal (set_status i EffectApplied) h)) (\<lambda>h1.
             apply_loop E root B plan rest h1) s
           else if current \<noteq> expected_pre_fingerprint eff then
             needs_repair E root ''pre-state-drift'' (Some (effect_id eff)) h s
           else
             (case q of
                Inl c \<Rightarrow>
                  bind_exec (record_and_save E root Cancelling (''apply-'' @ c) (Some (effect_id eff)) h)
                    (\<lambda>h1. rollback E root B plan ''apply-failed'' h1) u
              | Inr _ \<Rightarrow>
                  (case current_fingerprint B eff (world u) of
                     Inl _ \<Rightarrow> needs_repair E root ''post-state-unobservable'' (Some (effect_id eff)) h u
                   | Inr observed \<Rightarrow>
                       if observed \<noteq> expected_post_fingerprint eff then
                         needs_repair E root ''post-state-unverified'' (Some (effect_id eff)) h u
                       else
                         bind_exec (record_and_save E root Applying ''effect-applied''
                             (Some (effect_id eff)) (update_journal (set_status i EffectApplied) h))
                           (\<lambda>h1. apply_loop E root B plan rest h1) u))) = (r, t)"
      using assms Inr True u by (cases q) auto
    show thesis
    proof (cases q)
      case (Inl c)
      with run u Inr repair recovered failed \<open>current_fingerprint B eff (world s) = Inr current\<close>
      show thesis by (auto split: if_splits)
    next
      case (Inr v)
      with run u repair recovered unverified applied \<open>current_fingerprint B eff (world s) = Inr current\<close>
      show thesis by (cases "current_fingerprint B eff (world u)") (auto split: if_splits)
    qed
  qed
qed

lemma rollback_loop_cases:
  assumes "rollback_loop E root B reason ((i, eff) # rest) h s = (r, t)"
  obtains (repair) c x where "needs_repair E root c x h s = (r, t)"
  | (skip) "current_fingerprint B eff (world s) = Inr (expected_pre_fingerprint eff)"
      "rollback_loop E root B reason rest h s = (r, t)"
  | (recovered) "current_fingerprint B eff (world s) = Inr (expected_pre_fingerprint eff)"
      "bind_exec (record_and_save E root RollingBack ''rollback-recovered'' (Some (effect_id eff))
         (update_journal (set_status i EffectRolledBack) h)) (\<lambda>h1. rollback_loop E root B reason rest h1) s = (r, t)"
  | (failed) c x q u where "on_world (rollback_effect B eff (backup_id (handle_journal h))) s = (q, u)"
      "needs_repair E root c x h u = (r, t)"
  | (restored) v u where "on_world (rollback_effect B eff (backup_id (handle_journal h))) s = (Inr v, u)"
      "current_fingerprint B eff (world u) = Inr (expected_pre_fingerprint eff)"
      "bind_exec (record_and_save E root RollingBack ''effect-rolled-back'' (Some (effect_id eff))
         (update_journal (set_status i EffectRolledBack) h)) (\<lambda>h1. rollback_loop E root B reason rest h1) u = (r, t)"
proof (cases "current_fingerprint B eff (world s)")
  case (Inl c)
  with assms repair show thesis by simp
next
  case (Inr current)
  note cur = this
  obtain q u where u: "on_world (rollback_effect B eff (backup_id (handle_journal h))) s = (q, u)"
    by (cases "on_world (rollback_effect B eff (backup_id (handle_journal h))) s")
  show thesis
  proof (cases "current = expected_pre_fingerprint eff")
    case True
    with assms cur skip recovered show thesis by (auto split: if_splits)
  next
    case False
    show thesis
    proof (cases q)
      case (Inl c)
      with assms cur False u repair failed show thesis by (auto split: if_splits)
    next
      case (Inr v)
      with assms cur False u repair failed restored show thesis
        by (cases "current_fingerprint B eff (world u)") (auto split: if_splits)
    qed
  qed
qed

section \<open>The backend's contract\<close>

text \<open>
  What the coordinator relies on: a successful apply or rollback of an effect touches no other
  resource. A failing call may do anything.
\<close>

locale framed_backend =
  fixes B :: "'w transition_backend"
  assumes apply_frame: "apply_effect B eff w = (Inr u, v) \<Longrightarrow> resource_id other \<noteq> resource_id eff \<Longrightarrow>
      current_fingerprint B other v = current_fingerprint B other w"
    and rollback_frame: "rollback_effect B eff i w = (Inr u, v) \<Longrightarrow> resource_id other \<noteq> resource_id eff \<Longrightarrow>
      current_fingerprint B other v = current_fingerprint B other w"
begin

lemma rollback_loop_restores:
  assumes "rollback_loop E root B reason ies h s = (Inr out, t)"
    and "outcome_status out = OutcomeRolledBack" "distinct (map (resource_id \<circ> snd) ies)"
  shows "\<forall>eff\<in>snd ` set ies. current_fingerprint B eff (world t) = Inr (expected_pre_fingerprint eff)"
    and "resource_id other \<notin> resource_id ` snd ` set ies \<Longrightarrow>
      current_fingerprint B other (world t) = current_fingerprint B other (world s)"
proof -
  have "(\<forall>eff\<in>snd ` set ies. current_fingerprint B eff (world t) = Inr (expected_pre_fingerprint eff)) \<and>
    (\<forall>other. resource_id other \<notin> resource_id ` snd ` set ies \<longrightarrow>
      current_fingerprint B other (world t) = current_fingerprint B other (world s))"
    using assms
  proof (induction ies arbitrary: h s)
    case Nil
    then show ?case by (auto dest!: finish_result(1))
  next
    case (Cons ie ies)
    obtain i eff where ie: "ie = (i, eff)" by (cases ie)
    have nr: "needs_repair E root c x h' s' \<noteq> (Inr out, t)" for c x h' s'
      using Cons.prems(2) by (auto dest: needs_repair_result(3))
    have step: ?case
      if w: "\<forall>other. resource_id other \<noteq> resource_id eff \<longrightarrow>
          current_fingerprint B other (world s') = current_fingerprint B other (world s)"
        "current_fingerprint B eff (world s') = Inr (expected_pre_fingerprint eff)"
        and run: "rollback_loop E root B reason ies h' s' = (Inr out, t)" for h' s'
    proof -
      have d: "distinct (map (resource_id \<circ> snd) ies)" "resource_id eff \<notin> resource_id ` snd ` set ies"
        using Cons.prems(3) ie by (auto simp: image_comp o_def)
      from Cons.IH [OF run Cons.prems(2) d(1)] w d(2) show ?thesis by (auto simp: ie)
    qed
    have cont: ?case
      if w: "\<forall>other. resource_id other \<noteq> resource_id eff \<longrightarrow>
          current_fingerprint B other (world s') = current_fingerprint B other (world s)"
        "current_fingerprint B eff (world s') = Inr (expected_pre_fingerprint eff)"
        and run: "bind_exec (record_and_save E root l c x k) (\<lambda>h1. rollback_loop E root B reason ies h1) s' =
          (Inr out, t)" for l c x k s'
    proof -
      obtain h1 u where u: "record_and_save E root l c x k s' = (Inr h1, u)"
        "rollback_loop E root B reason ies h1 u = (Inr out, t)"
        using run by (auto simp: bind_exec_ok)
      with record_and_save_result(1) [OF u(1)] w show ?case by (intro step [of u h1]) simp_all
    qed
    from Cons.prems(1) [unfolded ie] show ?case
    proof (cases rule: rollback_loop_cases)
      case skip
      then show ?thesis by (intro step [of s h]) simp_all
    next
      case recovered
      then show ?thesis by (intro cont [of s]) simp_all
    next
      case (restored v u)
      have "\<forall>other. resource_id other \<noteq> resource_id eff \<longrightarrow>
          current_fingerprint B other (world u) = current_fingerprint B other (world s)"
        using restored(1) rollback_frame by (fastforce simp: on_world_def split: prod.splits)
      from cont [OF this restored(2,3)] show ?thesis .
    qed (simp_all add: nr)
  qed
  then show "\<forall>eff\<in>snd ` set ies. current_fingerprint B eff (world t) = Inr (expected_pre_fingerprint eff)"
    and "resource_id other \<notin> resource_id ` snd ` set ies \<Longrightarrow>
      current_fingerprint B other (world t) = current_fingerprint B other (world s)" by blast+
qed

lemma rollback_restores:
  assumes "rollback E root B plan reason h s = (Inr out, t)" "outcome_status out = OutcomeRolledBack"
    and "distinct (map resource_id (effects plan))"
  shows "\<forall>eff\<in>set (effects plan). current_fingerprint B eff (world t) = Inr (expected_pre_fingerprint eff)"
proof -
  obtain h1 u where "rollback_loop E root B reason (rev (indexed plan)) h1 u = (Inr out, t)"
    using assms(1) by (auto simp: rollback_def bind_exec_ok)
  moreover have "map snd (indexed plan) = effects plan" by (simp add: indexed_def)
  then have "distinct (map (resource_id \<circ> snd) (rev (indexed plan)))"
    "snd ` set (rev (indexed plan)) = set (effects plan)"
    using assms(3) by (metis map_map distinct_rev rev_map, metis list.set_map set_rev)
  ultimately show ?thesis using rollback_loop_restores(1) assms(2) by metis
qed

lemma rollback_never_commits:
  assumes "rollback_loop E root B reason ies h s = (Inr out, t)"
  shows "outcome_status out \<noteq> OutcomeCommitted"
  using assms
proof (induction ies arbitrary: h s)
  case Nil
  then show ?case by (auto dest!: finish_result(3) simp: status_of_def)
next
  case (Cons ie ies)
  obtain i eff where ie: "ie = (i, eff)" by (cases ie)
  from Cons.prems ie show ?case
    by (auto simp: bind_exec_ok dest: Cons.IH needs_repair_result(3) split: sum.splits if_splits prod.splits)
qed

lemma apply_loop_commits:
  assumes "apply_loop E root B plan ies h s = (Inr out, t)"
    and "outcome_status out = OutcomeCommitted" "distinct (map (resource_id \<circ> snd) ies)"
  shows "(\<forall>eff\<in>snd ` set ies. current_fingerprint B eff (world t) = Inr (expected_post_fingerprint eff)) \<and>
    (\<forall>other. resource_id other \<notin> resource_id ` snd ` set ies \<longrightarrow>
      current_fingerprint B other (world t) = current_fingerprint B other (world s))"
  using assms
proof (induction ies arbitrary: h s)
  case Nil
  then show ?case by (auto dest!: finish_result(1))
next
  case (Cons ie ies)
  obtain i eff where ie: "ie = (i, eff)" by (cases ie)
  have nr: "needs_repair E root c x h' s' \<noteq> (Inr out, t)" for c x h' s'
    using Cons.prems(2) by (auto dest: needs_repair_result(3))
  have rb: "bind_exec m (\<lambda>h1. rollback E root B plan x h1) s' \<noteq> (Inr out, t)" for m x s'
    using Cons.prems(2) by (auto simp: bind_exec_ok rollback_def dest: rollback_never_commits)
  have step: ?case
    if w: "\<forall>other. resource_id other \<noteq> resource_id eff \<longrightarrow>
        current_fingerprint B other (world s') = current_fingerprint B other (world s)"
      "current_fingerprint B eff (world s') = Inr (expected_post_fingerprint eff)"
      and run: "apply_loop E root B plan ies h' s' = (Inr out, t)" for h' s'
  proof -
    have d: "distinct (map (resource_id \<circ> snd) ies)" "resource_id eff \<notin> resource_id ` snd ` set ies"
      using Cons.prems(3) ie by (auto simp: image_comp o_def)
    from Cons.IH [OF run Cons.prems(2) d(1)] w d(2) show ?thesis by (auto simp: ie)
  qed
  have cont: ?case
    if w: "\<forall>other. resource_id other \<noteq> resource_id eff \<longrightarrow>
        current_fingerprint B other (world s') = current_fingerprint B other (world s)"
      "current_fingerprint B eff (world s') = Inr (expected_post_fingerprint eff)"
      and run: "bind_exec (record_and_save E root l c x k) (\<lambda>h1. apply_loop E root B plan ies h1) s' =
        (Inr out, t)" for l c x k s'
  proof -
    obtain h1 u where u: "record_and_save E root l c x k s' = (Inr h1, u)"
      "apply_loop E root B plan ies h1 u = (Inr out, t)"
      using run by (auto simp: bind_exec_ok)
    with record_and_save_result(1) [OF u(1)] w show ?case by (intro step [of u h1]) simp_all
  qed
  from Cons.prems(1) [unfolded ie] show ?case
  proof (cases rule: apply_loop_cases)
    case skip
    then show ?thesis by (intro step [of s h]) simp_all
  next
    case recovered
    then show ?thesis by (intro cont [of s]) simp_all
  next
    case (applied v u)
    have "\<forall>other. resource_id other \<noteq> resource_id eff \<longrightarrow>
        current_fingerprint B other (world u) = current_fingerprint B other (world s)"
      using applied(1) apply_frame by (fastforce simp: on_world_def split: prod.splits)
    from cont [OF this applied(2,3)] show ?thesis .
  qed (simp_all add: nr rb)
qed

lemma apply_loop_rolls_back:
  assumes "apply_loop E root B plan ies h s = (Inr out, t)"
    and "outcome_status out = OutcomeRolledBack" "distinct (map resource_id (effects plan))"
  shows "\<forall>eff\<in>set (effects plan). current_fingerprint B eff (world t) = Inr (expected_pre_fingerprint eff)"
  using assms
proof (induction ies arbitrary: h s)
  case Nil
  then show ?case by (auto dest!: finish_result(3) simp: status_of_def)
next
  case (Cons ie ies)
  obtain i eff where ie: "ie = (i, eff)" by (cases ie)
  have nr: "needs_repair E root c x h' s' \<noteq> (Inr out, t)" for c x h' s'
    using Cons.prems(2) by (auto dest: needs_repair_result(3))
  have loop: ?thesis if "apply_loop E root B plan ies h' s' = (Inr out, t)" for h' s'
    using Cons.IH [OF that Cons.prems(2,3)] .
  have rolled: ?thesis if "rollback E root B plan x h' s' = (Inr out, t)" for x h' s'
    using rollback_restores [OF that Cons.prems(2,3)] .
  have cont: ?thesis if "bind_exec m (\<lambda>h1. apply_loop E root B plan ies h1) s' = (Inr out, t)" for m s'
    using that loop by (auto simp: bind_exec_ok)
  have cont_back: ?thesis if "bind_exec m (\<lambda>h1. rollback E root B plan x h1) s' = (Inr out, t)" for m x s'
    using that rolled by (auto simp: bind_exec_ok)
  from Cons.prems(1) [unfolded ie] show ?thesis
    by (cases rule: apply_loop_cases) (use nr loop cont cont_back in blast)+
qed

end

section \<open>What an outcome says of the provider\<close>

definition all_read :: "'w transition_backend \<Rightarrow> bool \<Rightarrow> transition_plan \<Rightarrow> 'w \<Rightarrow> bool" where
  "all_read B post plan w \<longleftrightarrow>
     (\<forall>eff\<in>set (effects plan). current_fingerprint B eff w = Inr (expected_fingerprint post eff))"

definition truthful :: "'w transition_backend \<Rightarrow> transition_plan \<Rightarrow> transition_outcome \<Rightarrow> 'w \<Rightarrow> bool" where
  "truthful B plan out w \<longleftrightarrow>
     (outcome_status out = OutcomeCommitted \<longrightarrow> all_read B True plan w) \<and>
     (outcome_status out = OutcomeRolledBack \<longrightarrow> all_read B False plan w)"

lemma revalidate_effects_ok:
  "revalidate_effects B post op effs w = Inr u \<longleftrightarrow>
     (\<forall>eff\<in>set effs. current_fingerprint B eff w = Inr (expected_fingerprint post eff))"
  by (auto simp: revalidate_effects_def try_for_each_ok and_then_ok)

lemma cached_terminal_outcome_ok:
  assumes "cached_terminal_outcome B plan j w = Inr out"
  shows "truthful B plan out w" "is_terminal (lifecycle j)" "terminal_outcome j = Inr out"
proof -
  have t: "terminal_outcome j = Inr out"
    and r: "lifecycle j \<noteq> NeedsRepair \<Longrightarrow> all_read B (lifecycle j = Committed) plan w"
    using assms by (auto simp: cached_terminal_outcome_def and_then_ok all_read_def
        revalidate_effects_ok split: if_splits)
  from terminal_outcome_ok [OF t] r show "truthful B plan out w" "is_terminal (lifecycle j)"
    by (auto simp: truthful_def status_of_def is_terminal_def)
  show "terminal_outcome j = Inr out" by (rule t)
qed

lemma needs_repair_truthful: "needs_repair E root c x h s = (Inr out, t) \<Longrightarrow> truthful B plan out w"
  by (auto dest!: needs_repair_result(3) simp: truthful_def)

context framed_backend
begin

lemma rollback_truthful:
  assumes "rollback E root B plan reason h s = (Inr out, t)" "distinct (map resource_id (effects plan))"
  shows "truthful B plan out (world t)"
proof -
  have "outcome_status out \<noteq> OutcomeCommitted"
    using assms(1) by (auto simp: rollback_def bind_exec_ok dest: rollback_never_commits)
  with rollback_restores [OF assms(1) _ assms(2)] show ?thesis
    by (auto simp: truthful_def all_read_def expected_fingerprint_def)
qed

lemma apply_plan_truthful:
  assumes "apply_plan E root B plan h s = (Inr out, t)" "distinct (map resource_id (effects plan))"
  shows "truthful B plan out (world t)"
proof -
  obtain k u where loop: "apply_loop E root B plan (indexed plan) k u = (Inr out, t)"
    using assms(1) by (auto simp: apply_plan_def bind_exec_ok)
  have "map snd (indexed plan) = effects plan" by (simp add: indexed_def)
  then have "distinct (map (resource_id \<circ> snd) (indexed plan))" "snd ` set (indexed plan) = set (effects plan)"
    using assms(2) by (metis map_map, metis list.set_map)
  with apply_loop_commits [OF loop] apply_loop_rolls_back [OF loop _ assms(2)] show ?thesis
    by (auto simp: truthful_def all_read_def expected_fingerprint_def)
qed

lemma continue_run_truthful:
  assumes "continue_run E root B plan resume h s = (Inr out, t)" "distinct (map resource_id (effects plan))"
  shows "truthful B plan out (world t)"
  using assms(1) rollback_truthful [OF _ assms(2)] apply_plan_truthful [OF _ assms(2)]
  by (auto simp: continue_run_def split: if_splits)

lemma run_locked_truthful:
  assumes "run_locked E root B plan h s = (Inr out, t)" "distinct (map resource_id (effects plan))"
  shows "truthful B plan out (world t)"
proof -
  note cont = continue_run_truthful [OF _ assms(2)]
  obtain resume h1 u where "run_backed_up E root B plan resume h1 u = (Inr out, t)"
    using assms(1) by (auto simp: run_locked_def bind_exec_ok)
  then show ?thesis
    by (auto simp: run_backed_up_def bind_exec_ok dest: needs_repair_truthful cont
        split: if_splits sum.splits option.splits)
qed

lemma authorized_run_truthful:
  assumes "authorized_run E C B plan receipt key now nonce_owner owner h s = (Inr out, t)"
    "distinct (map resource_id (effects plan))"
  shows "truthful B plan out (world t)"
  using assms(1) unfolding authorized_run_def bind_exec_ok
  by (auto split: if_splits option.splits dest!: cached_terminal_outcome_ok(1)
      run_locked_truthful [OF _ assms(2)])

lemma execute_truthful:
  assumes "execute_with_recovery_policy E C B plan receipt key now owner policy s = (Inr out, t)"
  shows "truthful B plan out (world t)"
proof -
  have verified: "verify_plan_digest E plan = Inr ()"
    using assms by (auto simp: execute_with_recovery_policy_def bind_exec_def pure_exec_def
        map_err_def split: sum.splits prod.splits)
  then have d: "distinct (map resource_id (effects plan))" by (simp add: verify_plan_ok shape_ok_def)
  obtain jowner h u v where v: "world t = world v" "(if is_terminal (lifecycle (handle_journal h))
       then (cached_terminal_outcome B plan (handle_journal h) (world u), u)
       else if policy = NoResumeWrites \<and> lifecycle (handle_journal h) \<noteq> Planned
       then needs_repair E (app_state_root C) ''no-resume-writes'' None h u
       else authorized_run E C B plan receipt key now owner jowner h u) = (Inr out, v)"
    using assms unfolding execute_with_recovery_policy_def
    by (auto simp: bind_exec_ok split: prod.splits)
  then show ?thesis
    by (auto split: if_splits dest: cached_terminal_outcome_ok(1) needs_repair_truthful
        authorized_run_truthful [OF _ d])
qed

end

section \<open>Reading journals back\<close>

lemma journal_at_files: "files t = files d \<Longrightarrow> journal_at E root op t = journal_at E root op d"
  using held_cong [of t "get_transition_journal_path root op" d "store_env (journal_env_of E)" 1]
  by (simp add: journal_at_def)

lemma load_for_plan_result:
  assumes "load_for_plan (journal_env_of E) root plan owner d = (r, t)"
  shows "files t = files d"
    "r = Inr h \<Longrightarrow> journal_at E root (operation_id plan) d = Some (handle_journal h)"
    "r = Inr h \<Longrightarrow> verify_plan E (handle_journal h) plan = Inr ()"
proof -
  let ?p = "get_transition_journal_path root (operation_id plan)"
  have v: "verify_plan (journal_env_of E) j plan = verify_plan E j plan" for j :: "'a transition_journal"
    by (simp add: verify_plan_def)
  consider e where "load_journal (journal_env_of E) ?p d = (Inl e, t)" "r = Inl e"
    | snapshot where "load_journal (journal_env_of E) ?p d = (Inr snapshot, t)"
      "r = and_then (verify_plan E (snapshot_value snapshot) plan)
         (\<lambda>_. Inr (handle_from_snapshot snapshot owner))"
    using assms by (fastforce simp: load_for_plan_def bind_exec_result and_then_def v split: sum.splits)
  then have "files t = files d \<and> (\<forall>h. r = Inr h \<longrightarrow>
      journal_at E root (operation_id plan) d = Some (handle_journal h) \<and>
      verify_plan E (handle_journal h) plan = Inr ())"
  proof cases
    case (1 e)
    then show ?thesis by (auto dest: load_journal_files)
  next
    case (2 snapshot)
    with load_journal_ok [OF 2(1)] show ?thesis
      by (auto simp: and_then_ok handle_from_snapshot_def journal_at_def held_def)
  qed
  then show "files t = files d"
    "r = Inr h \<Longrightarrow> journal_at E root (operation_id plan) d = Some (handle_journal h)"
    "r = Inr h \<Longrightarrow> verify_plan E (handle_journal h) plan = Inr ()" by auto
qed

lemma verify_plan_id: "verify_plan H j plan = Inr u \<Longrightarrow> journal_operation_id j = operation_id plan"
  by (auto simp: verify_plan_def journal_matches_plan_def split: if_splits)

lemma from_plan_ok:
  assumes "from_plan E plan = Inr j"
  shows "journal_operation_id j = operation_id plan" "verify_audit_chain E j = Inr ()"
    "lifecycle j = Planned" "authorization_decision j = None" "backup_manifest j = None"
    "journal_matches_plan j plan"
proof -
  let ?k = "initial_journal E plan :: 'a transition_journal"
  have k: "record_event E Planned ''planned'' None ?k = Inr j" "audit ?k = []"
    "journal_operation_id ?k = operation_id plan" "authorization_decision ?k = None"
    "backup_manifest ?k = None" "journal_matches_plan ?k plan"
    using assms by (auto simp: from_plan_def initial_journal_def journal_matches_plan_def
        pending_checkpoint_def checkpoint_of_effect_def list_all_iff set_zip)
  from k(1) show "journal_operation_id j = operation_id plan" "lifecycle j = Planned"
    "authorization_decision j = None" "backup_manifest j = None" "journal_matches_plan j plan"
    using k by (auto elim!: record_event_ok simp: journal_matches_plan_def)
  show "verify_audit_chain E j = Inr ()" using record_keeps_chain [OF k(1)] k(2) by simp
qed

lemma create_or_attach_result:
  assumes "create_or_attach (journal_env_of E) root plan owner d = (Inr h, t)"
  shows "journal_at E root (operation_id plan) t = Some (handle_journal h)"
    "journal_operation_id (handle_journal h) = operation_id plan"
proof -
  let ?J = "journal_env_of E"
  let ?p = "get_transition_journal_path root (operation_id plan)"
  obtain j where j: "from_plan ?J plan = Inr j"
    and swap: "(case compare_and_swap (store_env ?J) 1 ?p None owner j d of
        (Inr revision, t) \<Rightarrow>
          (Inr \<lparr>handle_journal = j, handle_revision = revision, handle_owner = owner\<rparr>, t)
      | (Inl (StaleRevision x y), t) \<Rightarrow> load_for_plan ?J root plan owner t
      | (Inl e, t) \<Rightarrow> (Inl (JournalState e), t)) = (Inr h, t)"
    using assms unfolding create_or_attach_def bind_exec_ok pure_exec_result by blast
  obtain q u where q: "compare_and_swap (store_env ?J) 1 ?p None owner j d = (q, u)"
    by (cases "compare_and_swap (store_env ?J) 1 ?p None owner j d")
  have run: "(case q of Inr revision \<Rightarrow>
          (Inr \<lparr>handle_journal = j, handle_revision = revision, handle_owner = owner\<rparr>, u)
      | Inl (StaleRevision x y) \<Rightarrow> load_for_plan ?J root plan owner u
      | Inl e \<Rightarrow> (Inl (JournalState e), u)) = (Inr h, t)"
    using swap q by (cases q) simp_all
  have "journal_at E root (operation_id plan) t = Some (handle_journal h) \<and>
    journal_operation_id (handle_journal h) = operation_id plan"
  proof (cases q)
    case (Inr rv)
    with run have h: "handle_journal h = j" "t = u" by auto
    with compare_and_swap_ok(1) [OF q [unfolded Inr]] from_plan_ok(1) [OF j] show ?thesis
      by (simp add: journal_at_def held_def)
  next
    case (Inl e)
    with run have "load_for_plan ?J root plan owner u = (Inr h, t)" by (cases e) auto
    note res = load_for_plan_result [OF this]
    from res(2,3) [OF refl] res(1) show ?thesis
      by (auto simp: journal_at_files [of t u] dest: verify_plan_id)
  qed
  then show "journal_at E root (operation_id plan) t = Some (handle_journal h)"
    "journal_operation_id (handle_journal h) = operation_id plan" by blast+
qed

lemma create_or_attach_keeps:
  assumes "create_or_attach (journal_env_of E) root plan owner d = (r, t)"
    and j: "journal_at E root (operation_id plan) d = Some j"
  shows "journal_at E root (operation_id plan) t = Some j"
proof -
  let ?J = "journal_env_of E"
  let ?p = "get_transition_journal_path root (operation_id plan)"
  consider "t = d" | k where "(case compare_and_swap (store_env ?J) 1 ?p None owner k d of
        (Inr revision, t) \<Rightarrow>
          (Inr \<lparr>handle_journal = k, handle_revision = revision, handle_owner = owner\<rparr>, t)
      | (Inl (StaleRevision x y), t) \<Rightarrow> load_for_plan ?J root plan owner t
      | (Inl e, t) \<Rightarrow> (Inl (JournalState e), t)) = (r, t)"
    using assms(1) unfolding create_or_attach_def bind_exec_result pure_exec_result by blast
  then show ?thesis
  proof cases
    case (2 k)
    obtain q u where q: "compare_and_swap (store_env ?J) 1 ?p None owner k d = (q, u)"
      by (cases "compare_and_swap (store_env ?J) 1 ?p None owner k d")
    have u: "journal_at E root (operation_id plan) u = Some j"
      using compare_and_swap_held [OF q] j by (auto simp: journal_at_def)
    from 2 q consider "t = u" | "load_for_plan ?J root plan owner u = (r, t)"
      by (cases q) (auto split: state_error.splits)
    then show ?thesis
    proof cases
      case 2
      with u load_for_plan_result(1) [OF 2] show ?thesis by (simp add: journal_at_files [of t u])
    qed (use u in simp)
  qed (use j in simp)
qed

lemma read_listed_files: "read_listed E root p s = (r, t) \<Longrightarrow> files t = files s"
  by (auto simp: read_listed_def Let_def bind_exec_result dest!: load_journal_files)

lemma first_blocking_files: "first_blocking E root c res ps s = (r, t) \<Longrightarrow> files t = files s"
proof (induction ps arbitrary: s)
  case (Cons p ps)
  then show ?case
    by (auto simp: bind_exec_result dest: read_listed_files split: if_splits)
qed simp

lemma blocking_operation_for_files:
  assumes "blocking_operation_for E root plan s = (r, t)"
  shows "files t = files s"
proof -
  have "journal_paths root s = (q, u) \<Longrightarrow> files u = files s" for q u
    by (auto simp: journal_paths_def split: prod.splits sum.splits dest!: access_result)
  with assms show ?thesis
    by (auto simp: blocking_operation_for_def bind_exec_result dest!: first_blocking_files)
qed

lemma save_approval_result:
  assumes "save_approval E root plan jowner h s = (r, t)"
    and "journal_operation_id (handle_journal h) = operation_id plan"
    and "authorization_decision (handle_journal h) \<noteq> None"
  shows "world t = world s" "held_locks t = held_locks s"
    "r = Inr h' \<Longrightarrow> \<exists>j. journal_at E root (operation_id plan) (journals t) = Some j \<and>
       authorization_decision j \<noteq> None"
proof -
  obtain q v where q: "save E root h s = (q, v)" by (cases "save E root h s")
  note sv = save_result [OF q]
  have "world t = world s \<and> held_locks t = held_locks s \<and>
    (\<forall>h'. r = Inr h' \<longrightarrow> (\<exists>j. journal_at E root (operation_id plan) (journals t) = Some j \<and>
       authorization_decision j \<noteq> None))"
  proof (cases "\<exists>e. q = Inl e \<and> is_stale_journal e")
    case True
    with assms(1) q have "bind_exec (on_journals (load_for_plan (journal_env_of E) root plan jowner))
        (\<lambda>loaded. pure_exec (if authorization_decision (handle_journal loaded) =
            authorization_decision (handle_journal h)
          then Inr loaded else Inl AuthorizationDecisionConflict)) v = (r, t)"
      by (auto simp: save_approval_def)
    then obtain p d where load: "load_for_plan (journal_env_of E) root plan jowner (journals v) = (p, d)"
      "t = v\<lparr>journals := d\<rparr>" "\<forall>h'. r = Inr h' \<longrightarrow> p = Inr h' \<and>
         authorization_decision (handle_journal h') = authorization_decision (handle_journal h)"
      by (auto simp: bind_exec_result on_journals_result map_err_eq split: if_splits)
    note res = load_for_plan_result [OF load(1)]
    with load(2,3) sv(1,2) assms(3) show ?thesis by (auto simp: journal_at_files [OF res(1)])
  next
    case False
    with assms(1) q have "(q, v) = (r, t)" by (auto simp: save_approval_def split: sum.splits)
    with sv(1,2) sv(4) assms(2,3) show ?thesis by auto
  qed
  then show "world t = world s" "held_locks t = held_locks s"
    "r = Inr h' \<Longrightarrow> \<exists>j. journal_at E root (operation_id plan) (journals t) = Some j \<and>
       authorization_decision j \<noteq> None" by auto
qed

lemma on_approvals_other:
  "on_approvals m s = (q, u) \<Longrightarrow> world u = world s \<and> held_locks u = held_locks s \<and>
     journals u = journals s"
  by (auto simp: on_approvals_def split: prod.splits)

lemma ensure_authorized_result:
  assumes "ensure_authorized E C plan receipt key now nonce_owner jowner h s = (r, t)"
    and "journal_at E (app_state_root C) (operation_id plan) (journals s) = Some (handle_journal h)"
    and "journal_operation_id (handle_journal h) = operation_id plan"
  shows "world t = world s" "held_locks t = held_locks s"
    "r = Inr h' \<Longrightarrow> \<exists>j. journal_at E (app_state_root C) (operation_id plan) (journals t) = Some j \<and>
       authorization_decision j \<noteq> None"
proof -
  let ?root = "app_state_root C"
  have "world t = world s \<and> held_locks t = held_locks s \<and>
    (\<forall>h'. r = Inr h' \<longrightarrow> (\<exists>j. journal_at E ?root (operation_id plan) (journals t) = Some j \<and>
       authorization_decision j \<noteq> None))"
  proof (cases "authorization_decision (handle_journal h)")
    case (Some d)
    with assms show ?thesis by (auto simp: ensure_authorized_def split: if_splits)
  next
    case None
    with assms(1) consider
        "\<exists>e. r = Inl e" "world t = world s \<and> held_locks t = held_locks s"
      | approval :: verified_approval and u h1 where "world u = world s" "held_locks u = held_locks s" "journals u = journals s"
        "record_in E Approved ''approval-recorded'' None
           (update_journal (\<lambda>j. j\<lparr>authorization_decision := Some (approved_decision_digest approval)\<rparr>) h) = Inr h1"
        "save_approval E ?root plan jowner h1 u = (r, t)"
      by (auto simp: ensure_authorized_def bind_exec_result dest!: on_approvals_other)
    then show ?thesis
    proof cases
      case (2 approval u h1)
      obtain a where "handle_journal h1 = (handle_journal h)
          \<lparr>authorization_decision := Some (approved_decision_digest approval), lifecycle := Approved, audit := a\<rparr>"
        using record_in_ok [OF 2(4)] by (auto simp: update_journal_def)
      with save_approval_result [OF 2(5)] assms(3) 2(1,2) show ?thesis by auto
    qed auto
  qed
  then show "world t = world s" "held_locks t = held_locks s"
    "r = Inr h' \<Longrightarrow> \<exists>j. journal_at E (app_state_root C) (operation_id plan) (journals t) = Some j \<and>
       authorization_decision j \<noteq> None" by auto
qed

section \<open>Nothing is written before decision and backup are on disk\<close>

lemma on_world_result:
  "on_world m s = (r, t) \<longleftrightarrow> (\<exists>v. m (world s) = (r, v) \<and> t = s\<lparr>world := v\<rparr>)"
  by (cases "m (world s)") (auto simp: on_world_def)

lemma on_world_journals [simp]:
  "on_world m s = (r, t) \<Longrightarrow> journals t = journals s"
  by (auto simp: on_world_def split: prod.splits)

lemma on_world_durable:
  "on_world m s = (r, t) \<Longrightarrow> durable E root op s \<Longrightarrow> durable E root op t"
  by (simp add: durable_def)

lemma cleared_journal [simp]:
  "cleared op (handle_journal (update_journal (set_status i st) h)) = cleared op (handle_journal h)"
  by (simp add: update_journal_def)

lemma record_and_save_cleared:
  "record_and_save E root l c eff h s = (Inr h', t) \<Longrightarrow> cleared op (handle_journal h) \<Longrightarrow>
     cleared op (handle_journal h')"
  by (drule record_and_save_result(3) [OF _ refl]) auto

text \<open>A write of the journal followed by work that keeps its clearance on disk.\<close>

lemma bind_save_durable:
  assumes "bind_exec (record_and_save E root l c eff h) k s = (r, t)"
    and "cleared op (handle_journal h)" "durable E root op s"
    and "\<And>h' u. cleared op (handle_journal h') \<Longrightarrow> durable E root op u \<Longrightarrow> k h' u = (r, t) \<Longrightarrow>
      durable E root op t"
  shows "durable E root op t"
proof -
  obtain q u where u: "record_and_save E root l c eff h s = (q, u)"
    by (cases "record_and_save E root l c eff h s")
  note d = record_and_save_result(5) [OF u assms(2,3)]
  show ?thesis
  proof (cases q)
    case (Inl e)
    with assms(1) u d show ?thesis by simp
  next
    case (Inr h')
    with assms(1) u have "k h' u = (r, t)" by simp
    with assms(4) [OF record_and_save_cleared [OF u [unfolded Inr] assms(2)] d] show ?thesis .
  qed
qed

lemma rollback_loop_durable:
  "rollback_loop E root B reason ies h s = (r, t) \<Longrightarrow> cleared op (handle_journal h) \<Longrightarrow>
     durable E root op s \<Longrightarrow> durable E root op t"
proof (induction ies arbitrary: h s)
  case Nil
  then show ?case by (auto dest: finish_result(4))
next
  case (Cons ie ies)
  obtain i eff where ie: "ie = (i, eff)" by (cases ie)
  from Cons.prems(1) [unfolded ie] show ?case
  proof (cases rule: rollback_loop_cases)
    case (repair c x)
    then show ?thesis using Cons.prems(2,3) by (rule needs_repair_result(4))
  next
    case skip
    then show ?thesis using Cons.IH Cons.prems(2,3) by blast
  next
    case recovered
    show ?thesis
      by (rule bind_save_durable [OF recovered(2)]) (use Cons.IH Cons.prems(2,3) in auto)
  next
    case (failed c x q u)
    show ?thesis
      by (rule needs_repair_result(4) [OF failed(2) Cons.prems(2) on_world_durable [OF failed(1) Cons.prems(3)]])
  next
    case (restored v u)
    show ?thesis
      by (rule bind_save_durable [OF restored(3)])
        (use Cons.IH Cons.prems(2) on_world_durable [OF restored(1) Cons.prems(3)] in auto)
  qed
qed

lemma rollback_durable:
  "rollback E root B plan reason h s = (r, t) \<Longrightarrow> cleared op (handle_journal h) \<Longrightarrow>
     durable E root op s \<Longrightarrow> durable E root op t"
  unfolding rollback_def by (erule bind_save_durable) (auto intro: rollback_loop_durable)

lemma apply_loop_durable:
  "apply_loop E root B plan ies h s = (r, t) \<Longrightarrow> cleared op (handle_journal h) \<Longrightarrow>
     durable E root op s \<Longrightarrow> durable E root op t"
proof (induction ies arbitrary: h s)
  case Nil
  then show ?case by (auto dest: finish_result(4))
next
  case (Cons ie ies)
  obtain i eff where ie: "ie = (i, eff)" by (cases ie)
  from Cons.prems(1) [unfolded ie] show ?case
  proof (cases rule: apply_loop_cases)
    case (repair c x)
    then show ?thesis using Cons.prems(2,3) by (rule needs_repair_result(4))
  next
    case skip
    then show ?thesis using Cons.IH Cons.prems(2,3) by blast
  next
    case recovered
    show ?thesis
      by (rule bind_save_durable [OF recovered(2)]) (use Cons.IH Cons.prems(2,3) in auto)
  next
    case (failed c u)
    show ?thesis
      by (rule bind_save_durable [OF failed(2)])
        (use Cons.prems(2) on_world_durable [OF failed(1) Cons.prems(3)] rollback_durable in auto)
  next
    case (unverified c x v u)
    show ?thesis
      by (rule needs_repair_result(4) [OF unverified(2) Cons.prems(2) on_world_durable [OF unverified(1) Cons.prems(3)]])
  next
    case (applied v u)
    show ?thesis
      by (rule bind_save_durable [OF applied(3)])
        (use Cons.IH Cons.prems(2) on_world_durable [OF applied(1) Cons.prems(3)] in auto)
  qed
qed

lemma apply_plan_durable:
  "apply_plan E root B plan h s = (r, t) \<Longrightarrow> cleared op (handle_journal h) \<Longrightarrow>
     durable E root op s \<Longrightarrow> durable E root op t"
  unfolding apply_plan_def by (erule bind_save_durable) (auto intro: apply_loop_durable)

definition untouched :: "'w transition_backend \<Rightarrow> 'w \<Rightarrow> 'w \<Rightarrow> bool" where
  "untouched B w v \<longleftrightarrow> (\<forall>eff. current_fingerprint B eff v = current_fingerprint B eff w)"

lemma untouched_refl [simp]: "untouched B w w"
  by (simp add: untouched_def)

text \<open>A backend whose backup changes nothing that is observed, whether it succeeds or fails.\<close>

locale backed_up_backend =
  fixes B :: "'w transition_backend"
  assumes backup_frame: "backup_transition B plan i w = (r, v) \<Longrightarrow> untouched B w v"
begin

lemma create_backup_result:
  assumes "create_backup E root B plan h s = (r, t)"
    and "journal_operation_id (handle_journal h) = op" "authorization_decision (handle_journal h) \<noteq> None"
  shows "untouched B (world s) (world t)"
    "r = Inr h' \<Longrightarrow> cleared op (handle_journal h') \<and> durable E root op t"
proof -
  obtain q u where u: "on_world (backup_transition B plan (backup_id (handle_journal h))) s = (q, u)"
    by (cases "on_world (backup_transition B plan (backup_id (handle_journal h))) s")
  have w: "untouched B (world s) (world u)"
  proof -
    obtain v where "backup_transition B plan (backup_id (handle_journal h)) (world s) = (q, v)" "u = s\<lparr>world := v\<rparr>"
      using u unfolding on_world_result by blast
    with backup_frame show ?thesis by simp
  qed
  have "untouched B (world s) (world t) \<and>
    (\<forall>h'. r = Inr h' \<longrightarrow> cleared op (handle_journal h') \<and> durable E root op t)"
  proof (cases q)
    case (Inl c)
    with assms(1) u obtain q' where q': "\<exists>e. r = Inl e"
      "record_and_save E root Recovering (''backup-'' @ c) None h u = (q', t)"
      by (auto simp: create_backup_def bind_exec_result)
    from w record_and_save_result(1) [OF q'(2)] q'(1) show ?thesis by auto
  next
    case (Inr manifest)
    let ?h = "update_journal (\<lambda>j. j\<lparr>backup_manifest := Some manifest,
               checkpoints := map (\<lambda>c. c\<lparr>checkpoint_status := EffectBackedUp\<rparr>) (checkpoints j)\<rparr>) h"
    consider "t = u" "\<exists>e. r = Inl e"
      | "record_and_save E root BackedUp ''backup-authenticated'' None ?h u = (r, t)"
      using assms(1) u Inr by (auto simp: create_backup_def bind_exec_result)
    then show ?thesis
    proof cases
      case 2
      note res = record_and_save_result [OF 2]
      have clear: "cleared op (handle_journal ?h)" using assms(2,3)
        by (simp add: cleared_def update_journal_def)
      have "cleared op (handle_journal h') \<and> durable E root op t" if r: "r = Inr h'" for h'
      proof -
        have c: "cleared op (handle_journal h')"
          using record_and_save_cleared [OF 2 [unfolded r] clear] .
        with res(4) [OF r] assms(2) show ?thesis
          by (auto simp: durable_def update_journal_def)
      qed
      with res(1) w show ?thesis by simp
    qed (use w in auto)
  qed
  then show "untouched B (world s) (world t)"
    "r = Inr h' \<Longrightarrow> cleared op (handle_journal h') \<and> durable E root op t" by auto
qed

end

text \<open>
  How far an execution came: rejected before it held its locks, or running on the handle it
  created or attached to.
\<close>

lemma lock_access_other:
  "lock_access s = (r, t) \<Longrightarrow> world t = world s \<and> journals t = journals s \<and> held_locks t = held_locks s"
  by (auto simp: lock_access_def split: list.splits option.splits)

lemma acquire_each_other:
  "acquire_each H rs s = (r, t) \<Longrightarrow> world t = world s \<and> journals t = journals s"
proof (induction rs arbitrary: s)
  case (Cons x rs)
  obtain q u where u: "lock_access s = (q, u)" by (cases "lock_access s")
  note other = lock_access_other [OF u]
  consider "t = s" | "t = u"
    | "acquire_each H rs (u\<lparr>held_locks := lock_name H x # held_locks u\<rparr>) = (r, t)"
    using Cons.prems u by (cases q) (auto simp: bind_exec_pure split: if_splits)
  then show ?case using other by cases (auto dest: Cons.IH)
qed simp

lemma try_acquire_other:
  "try_acquire H rs s = (r, t) \<Longrightarrow> world t = world s \<and> journals t = journals s"
  by (auto simp: try_acquire_def bind_exec_result split: prod.splits sum.splits
      dest!: lock_access_other acquire_each_other)

lemma legacy_lock_other:
  "legacy_mutation_compatibility_lock kind s = (r, t) \<Longrightarrow> t = s"
  by (auto simp: legacy_mutation_compatibility_lock_def split: if_splits option.splits)

lemma execute_cases:
  assumes "execute_with_recovery_policy E C B plan receipt key now owner policy s = (r, t)"
  obtains (rejected) e where "r = Inl e" "world t = world s"
      "\<forall>j. journal_at E (app_state_root C) (operation_id plan) (journals s) = Some j \<longrightarrow>
         journal_at E (app_state_root C) (operation_id plan) (journals t) = Some j"
  | (ran) jowner h u v where
      "journal_at E (app_state_root C) (operation_id plan) (journals u) = Some (handle_journal h)"
      "journal_operation_id (handle_journal h) = operation_id plan"
      "world u = world s" "t = v\<lparr>held_locks := held_locks s\<rparr>"
      "(if is_terminal (lifecycle (handle_journal h))
        then (cached_terminal_outcome B plan (handle_journal h) (world u), u)
        else if policy = NoResumeWrites \<and> lifecycle (handle_journal h) \<noteq> Planned
        then needs_repair E (app_state_root C) ''no-resume-writes'' None h u
        else authorized_run E C B plan receipt key now owner jowner h u) = (r, v)"
      "\<forall>j. journal_at E (app_state_root C) (operation_id plan) (journals s) = Some j \<longrightarrow>
         journal_at E (app_state_root C) (operation_id plan) (journals u) = Some j"
proof -
  let ?root = "app_state_root C"
  let ?create = "\<lambda>jowner. on_journals (create_or_attach (journal_env_of E) ?root plan jowner)"
  let ?run = "\<lambda>jowner h s. if is_terminal (lifecycle (handle_journal h))
       then (cached_terminal_outcome B plan (handle_journal h) (world s), s)
       else if policy = NoResumeWrites \<and> lifecycle (handle_journal h) \<noteq> Planned
       then needs_repair E ?root ''no-resume-writes'' None h s
       else authorized_run E C B plan receipt key now owner jowner h s"
  let ?locked = "\<lambda>jowner h. bind_exec (try_acquire E (map resource_id (effects plan))) (\<lambda>_.
       bind_exec (legacy_mutation_compatibility_lock (plan_kind plan)) (\<lambda>_. ?run jowner h))"
  obtain v where v: "bind_exec (pure_exec (map_err CoordPlan (verify_plan_digest E plan))) (\<lambda>_.
       bind_exec (pure_exec (transition_journal_owner plan)) (\<lambda>jowner.
       bind_exec (pure_exec (map_err TransitionConflict (conflict_checker C plan))) (\<lambda>_.
       bind_exec (?create jowner) (?locked jowner)))) s = (r, v)" "t = v\<lparr>held_locks := held_locks s\<rparr>"
    using assms by (auto simp: execute_with_recovery_policy_def split: prod.splits)
  then consider "\<exists>e. r = Inl e" "v = s"
    | jowner where "bind_exec (?create jowner) (?locked jowner) s = (r, v)"
    unfolding bind_exec_pure by blast
  then show thesis
  proof cases
    case 1
    with v(2) rejected show thesis by auto
  next
    case (2 jowner)
    obtain p c where c: "?create jowner s = (p, c)" by (cases "?create jowner s")
    then have wc: "world c = world s" by (auto simp: on_journals_result)
    have kept: "\<forall>j. journal_at E ?root (operation_id plan) (journals s) = Some j \<longrightarrow>
        journal_at E ?root (operation_id plan) (journals c) = Some j"
      using c by (auto simp: on_journals_result dest: create_or_attach_keeps)
    show thesis
    proof (cases p)
      case (Inl e)
      with 2 c have "r = Inl e" "v = c" by auto
      with wc v(2) kept rejected show thesis by simp
    next
      case (Inr h)
      with 2 c have locked: "?locked jowner h c = (r, v)" by simp
      obtain d where d: "create_or_attach (journal_env_of E) ?root plan jowner (journals s) = (Inr h, d)"
        "journals c = d" using c Inr by (auto simp: on_journals_result map_err_eq)
      note res = create_or_attach_result [OF d(1)]
      obtain q a where a: "try_acquire E (map resource_id (effects plan)) c = (q, a)"
        by (cases "try_acquire E (map resource_id (effects plan)) c")
      note oa = try_acquire_other [OF a]
      obtain q' b where b: "legacy_mutation_compatibility_lock (plan_kind plan) a = (q', b)"
        by (cases "legacy_mutation_compatibility_lock (plan_kind plan) a")
      note ob = legacy_lock_other [OF b]
      from locked a b consider "\<exists>e. r = Inl e" "v = a \<or> v = b" | "?run jowner h b = (r, v)"
        by (cases q; cases q') auto
      then show thesis
      proof cases
        case 1
        with v(2) wc oa ob kept rejected show thesis by auto
      next
        case 2
        show thesis
          by (rule ran [OF _ res(2) _ v(2) 2]) (use res(1) d(2) oa ob wc kept in auto)
      qed
    qed
  qed
qed

definition guarded ::
  "('e, 'z) coordinator_env_scheme \<Rightarrow> path \<Rightarrow> string \<Rightarrow> 'w transition_backend \<Rightarrow>
     ('e, 'w) coordinator_state \<Rightarrow> ('e, 'w) coordinator_state \<Rightarrow> bool" where
  "guarded E root op B s t \<longleftrightarrow> untouched B (world s) (world t) \<or> durable E root op t"

lemma guarded_same: "world t = world s \<Longrightarrow> guarded E root op B s t"
  by (simp add: guarded_def)

context backed_up_backend
begin

lemma continue_run_durable:
  "continue_run E root B plan resume h s = (r, t) \<Longrightarrow> cleared op (handle_journal h) \<Longrightarrow>
     durable E root op s \<Longrightarrow> durable E root op t"
  using rollback_durable apply_plan_durable by (auto simp: continue_run_def split: if_splits)

lemma run_backed_up_guarded:
  assumes run: "run_backed_up E root B plan resume h s = (r, t)"
    and stored: "journal_at E root op (journals s) = Some (handle_journal h)"
      "journal_operation_id (handle_journal h) = op" "authorization_decision (handle_journal h) \<noteq> None"
  shows "guarded E root op B s t"
proof (cases "backup_manifest (handle_journal h) = None")
  case False
  then have c: "cleared op (handle_journal h)" "durable E root op s"
    using stored by (auto simp: cleared_def durable_def)
  have "continue_run E root B plan resume h s = (r, t)"
    using run False by (simp add: run_backed_up_def)
  from continue_run_durable [OF this c] show ?thesis by (simp add: guarded_def)
next
  case True
  then consider "t = s" | eff where "needs_repair E root ''pre-state-drift'' (Some eff) h s = (r, t)"
    | "bind_exec (create_backup E root B plan h) (continue_run E root B plan resume) s = (r, t)"
    using run by (auto simp: run_backed_up_def split: sum.splits option.splits)
  then show ?thesis
  proof cases
    case 3
    obtain p v where v: "create_backup E root B plan h s = (p, v)"
      by (cases "create_backup E root B plan h s")
    note backup = create_backup_result [OF v stored(2,3)]
    show ?thesis
    proof (cases p)
      case (Inl e)
      with 3 v backup(1) show ?thesis by (simp add: guarded_def)
    next
      case (Inr h2)
      with 3 v have "continue_run E root B plan resume h2 v = (r, t)" by simp
      from continue_run_durable [OF this conjunct1 [OF backup(2) [OF Inr]] conjunct2 [OF backup(2) [OF Inr]]]
      show ?thesis by (simp add: guarded_def)
    qed
  qed (auto intro: guarded_same dest: needs_repair_result(1))
qed

lemma run_locked_guarded:
  assumes run: "run_locked E root B plan h s = (r, t)"
    and stored: "journal_at E root op (journals s) = Some (handle_journal h)"
      "journal_operation_id (handle_journal h) = op" "authorization_decision (handle_journal h) \<noteq> None"
  shows "guarded E root op B s t"
proof -
  let ?l = "fst (relock (lifecycle (handle_journal h)))"
  let ?c = "snd (relock (lifecycle (handle_journal h)))"
  obtain q u where u: "record_and_save E root ?l ?c None h s = (q, u)"
    by (cases "record_and_save E root ?l ?c None h s")
  note sv = record_and_save_result [OF u]
  show ?thesis
  proof (cases q)
    case (Inl e)
    with run u sv(1) show ?thesis by (auto simp: run_locked_def intro: guarded_same)
  next
    case (Inr h1)
    have h1: "journal_operation_id (handle_journal h1) = op" "authorization_decision (handle_journal h1) \<noteq> None"
      using sv(3) [OF Inr] stored by auto
    have at: "journal_at E root op (journals u) = Some (handle_journal h1)"
      using sv(4) [OF Inr] stored(2) by simp
    have "run_backed_up E root B plan (lifecycle (handle_journal h) \<in> {Cancelling, RollingBack}) h1 u = (r, t)"
      using run u Inr by (simp add: run_locked_def)
    from run_backed_up_guarded [OF this at h1] sv(1) show ?thesis by (simp add: guarded_def)
  qed
qed

lemma authorized_run_guarded:
  assumes run: "authorized_run E C B plan receipt key now nonce_owner owner h s = (r, t)"
    and stored: "journal_at E (app_state_root C) (operation_id plan) (journals s) = Some (handle_journal h)"
      "journal_operation_id (handle_journal h) = operation_id plan"
  shows "guarded E (app_state_root C) (operation_id plan) B s t"
proof -
  let ?root = "app_state_root C"
  let ?auth = "ensure_authorized E C plan receipt key now nonce_owner owner h"
  let ?block = "on_journals (blocking_operation_for (journal_env_of E) ?root plan)"
  let ?load = "on_journals (load_for_plan (journal_env_of E) ?root plan owner)"
  let ?rest = "\<lambda>h1 s. if is_terminal (lifecycle (handle_journal h1))
     then (cached_terminal_outcome B plan (handle_journal h1) (world s), s)
     else if (case receipt of None \<Rightarrow> False
              | Some r \<Rightarrow> authorization_decision (handle_journal h1) \<noteq> Some (decision_digest E r))
     then (Inl AuthorizationDecisionConflict, s)
     else run_locked E ?root B plan h1 s"
  obtain qa sa where a: "?auth s = (qa, sa)" by (cases "?auth s")
  note auth = ensure_authorized_result [OF a stored]
  obtain qb sb where b: "?block sa = (qb, sb)" by (cases "?block sa")
  obtain ql sl where l: "?load sb = (ql, sl)" by (cases "?load sb")
  have wb: "world sb = world sa" and fb: "files (journals sb) = files (journals sa)"
    using b by (auto simp: on_journals_result dest: blocking_operation_for_files)
  have wl: "world sl = world sb" using l by (auto simp: on_journals_result)
  consider "world t = world s" | h1 x where "qa = Inr x" "ql = Inr h1" "?rest h1 sl = (r, t)"
  proof -
    have "world t = world s \<or> (\<exists>h1 x. qa = Inr x \<and> ql = Inr h1 \<and> ?rest h1 sl = (r, t))"
    proof (cases qa)
      case (Inl e)
      with run a auth(1) show ?thesis by (simp add: authorized_run_def)
    next
      case (Inr x)
      note qa = this
      show ?thesis
      proof (cases qb)
        case (Inl e)
        with run a qa b auth(1) wb show ?thesis by (simp add: authorized_run_def)
      next
        case (Inr blocking)
        have after: "bind_exec (pure_exec (case blocking of None \<Rightarrow> Inr () | Some op \<Rightarrow> Inl (RecoveryRequired op)))
            (\<lambda>_. bind_exec ?load ?rest) sb = (r, t)"
          using run a qa b Inr by (simp add: authorized_run_def)
        show ?thesis
        proof (cases blocking)
          case (Some op)
          with after wb auth(1) show ?thesis by (simp add: bind_exec_pure)
        next
          case None
          with after have "bind_exec ?load ?rest sb = (r, t)" by (simp add: bind_exec_pure)
          with l qa wl wb auth(1) show ?thesis by (cases ql) simp_all
        qed
      qed
    qed
    then show thesis using that by blast
  qed
  then show ?thesis
  proof cases
    case 1
    then show ?thesis by (rule guarded_same)
  next
    case (2 h1 x)
    from l 2(2) obtain d where d: "load_for_plan (journal_env_of E) ?root plan owner (journals sb) = (Inr h1, d)"
      "journals sl = d" by (auto simp: on_journals_result map_err_eq)
    note res = load_for_plan_result [OF d(1)]
    have at: "journal_at E ?root (operation_id plan) (journals sl) = Some (handle_journal h1)"
      using res(2) [OF refl] journal_at_files [OF res(1), of E] d(2) by simp
    obtain j where j: "journal_at E ?root (operation_id plan) (journals sa) = Some j"
      "authorization_decision j \<noteq> None" using auth(3) [OF 2(1)] by blast
    have "journal_at E ?root (operation_id plan) (journals sb) = Some j"
      using j(1) journal_at_files [OF fb, of E] by simp
    with res(2) [OF refl] j(2) have dec: "authorization_decision (handle_journal h1) \<noteq> None" by simp
    have op: "journal_operation_id (handle_journal h1) = operation_id plan"
      using res(3) [OF refl] by (rule verify_plan_id)
    consider "t = sl" | "run_locked E ?root B plan h1 sl = (r, t)"
      using 2(3) by (auto split: if_splits)
    then show ?thesis
    proof cases
      case 1
      with wl wb auth(1) show ?thesis by (intro guarded_same) simp
    next
      case 2
      from run_locked_guarded [OF 2 at op dec] wl wb auth(1) show ?thesis by (simp add: guarded_def)
    qed
  qed
qed

lemma execute_guarded:
  assumes "execute_with_recovery_policy E C B plan receipt key now owner policy s = (r, t)"
  shows "guarded E (app_state_root C) (operation_id plan) B s t"
proof -
  let ?root = "app_state_root C"
  show ?thesis
    using assms
  proof (cases rule: execute_cases)
    case (rejected e)
    then show ?thesis by (intro guarded_same) simp
  next
    case (ran jowner h u v)
    note stored = ran(1,2)
    from ran(5) consider "v = u" | "needs_repair E ?root ''no-resume-writes'' None h u = (r, v)"
      | "authorized_run E C B plan receipt key now owner jowner h u = (r, v)"
      by (auto split: if_splits)
    then have "guarded E ?root (operation_id plan) B u v"
    proof cases
      case 2
      then show ?thesis by (auto intro: guarded_same dest: needs_repair_result(1))
    next
      case 3
      from authorized_run_guarded [OF 3 stored] show ?thesis .
    qed (auto intro: guarded_same)
    with ran(3,4) show ?thesis by (auto simp: guarded_def durable_def)
  qed
qed

end

section \<open>Terminal journals\<close>

lemma terminal_outcome_of: "terminal_outcome j = Inr out \<Longrightarrow> is_terminal (lifecycle j)"
  by (auto simp: terminal_outcome_def is_terminal_def split: transition_lifecycle.splits)

lemma execute_terminal:
  assumes "execute_with_recovery_policy E C B plan receipt key now owner policy s = (r, t)"
    and j: "journal_at E (app_state_root C) (operation_id plan) (journals s) = Some j"
    and "is_terminal (lifecycle j)"
  shows "world t = world s \<and> journal_at E (app_state_root C) (operation_id plan) (journals t) = Some j \<and>
    ((\<exists>e. r = Inl e) \<or> r = terminal_outcome j)"
  using assms(1)
proof (cases rule: execute_cases)
  case (ran jowner h u v)
  have at: "journal_at E (app_state_root C) (operation_id plan) (journals u) = Some j"
    using ran(6) j by blast
  with ran(1) have h: "handle_journal h = j" by simp
  with ran(5) assms(3) have u: "v = u" "r = cached_terminal_outcome B plan j (world u)" by auto
  have "(\<exists>e. r = Inl e) \<or> r = terminal_outcome j"
    using cached_terminal_outcome_ok(3) [of B plan j "world u"] u(2)
    by (cases "cached_terminal_outcome B plan j (world u)") simp_all
  with ran(3,4) u(1) at show ?thesis by simp
qed (use j in auto)

section \<open>Locks\<close>

lemma acquire_each_holds:
  "acquire_each H rs s = (Inr u, t) \<Longrightarrow>
     set (held_locks t) = set (held_locks s) \<union> lock_name H ` set rs \<and>
     lock_name H ` set rs \<inter> set (held_locks s) = {}"
proof (induction rs arbitrary: s)
  case (Cons x rs)
  obtain v where v: "lock_access s = (Inr (), v)" "lock_name H x \<notin> set (held_locks v)"
    "acquire_each H rs (v\<lparr>held_locks := lock_name H x # held_locks v\<rparr>) = (Inr u, t)"
    using Cons.prems by (auto simp: bind_exec_ok split: if_splits)
  from Cons.IH [OF v(3)] lock_access_other [OF v(1)] v(2) show ?case by auto
qed simp

lemma try_acquire_holds:
  assumes "try_acquire H rs s = (Inr u, t)"
  shows "set (held_locks t) = set (held_locks s) \<union> lock_name H ` set rs"
    "lock_name H ` set rs \<inter> set (held_locks s) = {}"
proof -
  obtain a b where "lock_access s = (Inr (), a)" "acquire_each H (sort (remdups rs)) a = (Inr (), b)"
    "lock_access b = (Inr (), t)"
    using assms by (auto simp: try_acquire_def bind_exec_ok split: prod.splits sum.splits)
  from acquire_each_holds [OF this(2)] lock_access_other [OF this(1)] lock_access_other [OF this(3)]
  show "set (held_locks t) = set (held_locks s) \<union> lock_name H ` set rs"
    "lock_name H ` set rs \<inter> set (held_locks s) = {}" by auto
qed

end
