(* ===== verification/Mock_Backend.thy ===== *)
theory Mock_Backend
  imports Coordinator_Safety
begin

text \<open>
  The backend of the transition tests (\<open>tests/transitions.rs\<close>): resources are byte strings in a
  map, a chosen effect fails and may drift another resource when it does. Panics (injected ones and
  those of missing keys) are not modelled. It provides both contracts of \<open>Coordinator_Safety\<close>.
\<close>

record mock_world =
  mock_state :: "(string, string) btree"
  mock_desired :: "(string, string) btree"
  mock_backups :: "(string, (string, string) btree) btree"
  mock_backup_calls :: nat
  mock_apply_calls :: "(string, nat) btree"
  mock_rollback_calls :: "(string, nat) btree"
  mock_fail_apply :: "string option"
  mock_drift_on_failure :: "(string \<times> string) option"

definition count_call :: "string \<Rightarrow> (string, nat) btree \<Rightarrow> (string, nat) btree" where
  "count_call k m = btree_insert k (Suc (case map_of m k of None \<Rightarrow> 0 | Some n \<Rightarrow> n)) m"

definition set_bytes :: "string \<Rightarrow> string \<Rightarrow> mock_world \<Rightarrow> mock_world" where
  "set_bytes res bytes w = w\<lparr>mock_state := btree_insert res bytes (mock_state w)\<rparr>"

definition mock_fingerprint ::
  "('z) hashing_scheme \<Rightarrow> transition_effect \<Rightarrow> mock_world \<Rightarrow> string + string option" where
  "mock_fingerprint H eff w =
     Inr (map_option (\<lambda>bytes. encode_lower_hex (sha256 H bytes)) (map_of (mock_state w) (resource_id eff)))"

definition mock_backup ::
  "('z) hashing_scheme \<Rightarrow> transition_plan \<Rightarrow> string \<Rightarrow> (mock_world, string, string) exec" where
  "mock_backup H plan i w =
     (let snapshot = btree_of (map (\<lambda>eff. (resource_id eff,
            the (map_of (mock_state w) (resource_id eff)))) (effects plan));
          digest = encode_lower_hex (sha256 H i);
          v = w\<lparr>mock_backup_calls := Suc (mock_backup_calls w),
                mock_backups := (case map_of (mock_backups w) i of
                    None \<Rightarrow> btree_insert i snapshot (mock_backups w)
                  | Some _ \<Rightarrow> mock_backups w)\<rparr> in
      (if is_lower_hex_digest digest then Inr digest else Inl ''backup-evidence'', v))"

definition mock_apply :: "transition_effect \<Rightarrow> (mock_world, string, unit) exec" where
  "mock_apply eff w =
     (let w1 = w\<lparr>mock_apply_calls := count_call (effect_id eff) (mock_apply_calls w)\<rparr> in
      if mock_fail_apply w = Some (effect_id eff) then
        (Inl ''injected-apply-failure'',
         case mock_drift_on_failure w of None \<Rightarrow> w1 | Some (res, bytes) \<Rightarrow> set_bytes res bytes w1)
      else (Inr (), set_bytes (resource_id eff) (the (map_of (mock_desired w) (effect_id eff))) w1))"

definition mock_rollback :: "transition_effect \<Rightarrow> string \<Rightarrow> (mock_world, string, unit) exec" where
  "mock_rollback eff i w =
     (let w1 = w\<lparr>mock_rollback_calls := count_call (effect_id eff) (mock_rollback_calls w)\<rparr>;
          bytes = the (map_of (the (map_of (mock_backups w) i)) (resource_id eff)) in
      (Inr (), set_bytes (resource_id eff) bytes w1))"

definition mock_backend :: "('z) hashing_scheme \<Rightarrow> mock_world transition_backend" where
  "mock_backend H = \<lparr>current_fingerprint = mock_fingerprint H, backup_transition = mock_backup H,
     apply_effect = mock_apply, rollback_effect = mock_rollback\<rparr>"

lemma map_of_btree_insert_other: "k \<noteq> j \<Longrightarrow> map_of (btree_insert k v m) j = map_of m j"
  by (induction m) auto

interpretation mock: framed_backend "mock_backend H" for H :: "('z) hashing_scheme"
proof unfold_locales
  show "current_fingerprint (mock_backend H) other v = current_fingerprint (mock_backend H) other w"
    if "apply_effect (mock_backend H) eff w = (Inr u, v)" "resource_id other \<noteq> resource_id eff"
    for eff other w u v
    using that by (auto simp: mock_backend_def mock_apply_def mock_fingerprint_def set_bytes_def Let_def
        map_of_btree_insert_other split: if_splits)
  show "current_fingerprint (mock_backend H) other v = current_fingerprint (mock_backend H) other w"
    if "rollback_effect (mock_backend H) eff i w = (Inr u, v)" "resource_id other \<noteq> resource_id eff"
    for eff i other w u v
    using that by (auto simp: mock_backend_def mock_rollback_def mock_fingerprint_def set_bytes_def Let_def
        map_of_btree_insert_other)
qed

interpretation mock_backed: backed_up_backend "mock_backend H" for H :: "('z) hashing_scheme"
proof unfold_locales
  show "untouched (mock_backend H) w v" if "backup_transition (mock_backend H) plan i w = (r, v)"
    for plan i w r v
    using that by (auto simp: mock_backend_def mock_backup_def untouched_def mock_fingerprint_def Let_def)
qed

end
