(* ===== verification/Json_Value.thy ===== *)
theory Json_Value
  imports Prelude
begin

text \<open>
  \<open>serde_json::Value\<close>, as the code reads manifests and definitions with it. An object is its
  \<open>BTreeMap\<close> of members (the crate does not enable \<open>preserve_order\<close>); a number is kept as its
  text, since no modelled code looks inside one. Parsing itself is a library call.
\<close>

datatype json =
    JNull
  | JBool bool
  | JNumber string
  | JString string
  | JArray "json list"
  | JObject "(string \<times> json) list"

text \<open>\<open>Value::get\<close> with a key, \<open>Value::as_str\<close>.\<close>

fun json_get :: "string \<Rightarrow> json \<Rightarrow> json option" where
  "json_get k (JObject members) = map_of members k"
| "json_get k _ = None"

fun json_str :: "json \<Rightarrow> string option" where
  "json_str (JString s) = Some s"
| "json_str _ = None"

text \<open>\<open>or_else\<close> on options.\<close>

definition or_else :: "'a option \<Rightarrow> 'a option \<Rightarrow> 'a option" where
  "or_else a b = (case a of None \<Rightarrow> b | Some x \<Rightarrow> Some x)"

text \<open>\<open>iter().filter_map(f)\<close>.\<close>

fun filter_map :: "('a \<Rightarrow> 'b option) \<Rightarrow> 'a list \<Rightarrow> 'b list" where
  "filter_map f [] = []"
| "filter_map f (x # xs) = (case f x of None \<Rightarrow> filter_map f xs | Some y \<Rightarrow> y # filter_map f xs)"

lemma set_filter_map: "set (filter_map f xs) = {y. \<exists>x\<in>set xs. f x = Some y}"
  by (induction xs) (auto split: option.splits)

text \<open>\<open>dedup_by\<close> with a key: of equal neighbours the first stays.\<close>

fun dedup_by :: "('a \<Rightarrow> 'k) \<Rightarrow> 'a list \<Rightarrow> 'a list" where
  "dedup_by f (x # y # xs) = (if f x = f y then dedup_by f (x # xs) else x # dedup_by f (y # xs))"
| "dedup_by f xs = xs"

lemma set_dedup_by: "set (dedup_by f xs) \<subseteq> set xs"
proof (induction f xs rule: dedup_by.induct)
  case (1 f x y xs)
  then show ?case by auto
qed auto

lemma keys_dedup_by [simp]: "f ` set (dedup_by f xs) = f ` set xs"
proof (induction f xs rule: dedup_by.induct)
  case (1 f x y xs)
  then show ?case by (cases "f x = f y") (simp_all add: insert_absorb2)
qed auto

lemma dedup_by_Cons: "\<exists>ys. dedup_by f (x # xs) = x # ys"
proof (induction xs)
  case (Cons y ys)
  then show ?case by auto
qed simp

lemma sorted_dedup_by:
  fixes f :: "'a \<Rightarrow> 'k::linorder"
  shows "sorted (map f xs) \<Longrightarrow> sorted_wrt (<) (map f (dedup_by f xs))"
proof (induction f xs rule: dedup_by.induct)
  case (1 f x y xs)
  show ?case
  proof (cases "f x = f y")
    case True
    with 1 show ?thesis by simp
  next
    case False
    have "f x < f z" if "z \<in> set (y # xs)" for z
      using 1(3) False that by (auto simp: order.strict_iff_order)
    moreover have "set (dedup_by f (y # xs)) \<subseteq> set (y # xs)" by (rule set_dedup_by)
    ultimately show ?thesis using 1 False by auto
  qed
qed auto

end
