(* ===== verification/Catalog.thy ===== *)
theory Catalog
  imports Atomic_Json Providers Json_Value "HOL-Library.Product_Lexorder"
begin

text \<open>
  \<open>catalog/model.rs\<close>, \<open>catalog/mod.rs\<close> and \<open>catalog/store.rs\<close>: the capability catalog, how it
  is derived from discovered items and plugin manifests, and the content-addressed store it is
  published to. What the file system answers (the canonical form of a path, the bytes of a
  manifest) is a parameter; reading a manifest starts from its parsed JSON.
\<close>

section \<open>Items the discovery finds\<close>

datatype discovery_layer = GlobalLayer | ProjectLayer

fun layer_str :: "discovery_layer \<Rightarrow> string" where
  "layer_str GlobalLayer = ''global''"
| "layer_str ProjectLayer = ''project''"

datatype discovery_mutability = DiscReadWrite | DiscReadOnly | DiscUnsupported

datatype discovery_kind = DiscSkill | DiscMcp | DiscPlugin | DiscAgent | DiscHook | DiscSetting

datatype discovery_category =
    CatSkill | ConfiguredMcp | CatTool | CatAgent | CatHook | ProviderSetting | PluginConfig
  | PluginManifest

datatype hook_action_type =
    ActCommand | ActHttp | ActMcpTool | ActPrompt | ActAgent | ActProviderComponent | ActUnknown

text \<open>Of the inventory metadata of a hook, the members the catalog reads.\<close>

record hook_inventory =
  hook_native_event :: string
  hook_matcher :: string
  hook_action_type :: hook_action_type

record discovery_item =
  item_provider :: provider_id
  item_kind :: discovery_kind
  item_category :: discovery_category
  item_layer :: discovery_layer
  item_id :: string
  item_display_name :: string
  item_enabled :: bool
  item_mutability :: discovery_mutability
  item_source_path :: string
  item_state_path :: string
  item_source_fingerprint :: "string option"
  item_hook :: "hook_inventory option"

text \<open>
  \<open>Path::components\<close> of a path that is read only for its normal components: \<open>/\<close> separates, and
  empty and \<open>.\<close> components vanish.
\<close>

fun split_slash :: "string \<Rightarrow> string \<Rightarrow> string list" where
  "split_slash acc [] = [rev acc]"
| "split_slash acc (c # s) = (if c = CHR ''/'' then rev acc # split_slash [] s else split_slash (c # acc) s)"

definition path_components :: "string \<Rightarrow> string list" where
  "path_components s = filter (\<lambda>c. c \<noteq> [] \<and> c \<noteq> ''.'') (split_slash [] s)"

definition starts_with_any :: "string list \<Rightarrow> string \<Rightarrow> bool" where
  "starts_with_any ps s \<longleftrightarrow> list_ex (\<lambda>p. take (length p) s = p) ps"

definition strip_prefix :: "string \<Rightarrow> string \<Rightarrow> string option" where
  "strip_prefix p s = (if take (length p) s = p then Some (drop (length p) s) else None)"

fun skill_id_prefix :: "provider_id \<Rightarrow> discovery_layer \<Rightarrow> string" where
  "skill_id_prefix p l = provider_str p @ '':'' @ layer_str l @ '':skill:''"

definition is_shared_skill_source :: "discovery_item \<Rightarrow> bool" where
  "is_shared_skill_source i \<longleftrightarrow>
     (if item_category i \<noteq> CatSkill then False
      else case item_provider i of
        Claude \<Rightarrow> True
      | Zed \<Rightarrow> True
      | Cursor \<Rightarrow>
          (case strip_prefix (skill_id_prefix Cursor (item_layer i)) (item_id i) of
             None \<Rightarrow> False
           | Some rest \<Rightarrow> starts_with_any [''@compat/agents/'', ''@compat/claude/'', ''@compat/codex/''] rest)
      | Codex \<Rightarrow> list_ex (\<lambda>p. fst p = ''.agents'' \<and> snd p = ''skills'')
          (windows2 (path_components (item_source_path i)))
      | Pi \<Rightarrow>
          (case strip_prefix (skill_id_prefix Pi (item_layer i)) (item_id i) of
             None \<Rightarrow> False | Some rest \<Rightarrow> starts_with_any [''@compat/agents/''] rest)
      | OpenCode \<Rightarrow>
          (case strip_prefix (skill_id_prefix OpenCode (item_layer i)) (item_id i) of
             None \<Rightarrow> False
           | Some rest \<Rightarrow> starts_with_any [''@compat/agents/'', ''@compat/claude/''] rest))"

section \<open>The catalog model\<close>

type_synonym capability_id = string

datatype catalog_model_error = InvalidCapabilityId string | DuplicateCapability capability_id

text \<open>\<open>char::is_whitespace\<close> somewhere in the UTF-8 bytes.\<close>

fun has_white :: "string \<Rightarrow> bool" where
  "has_white [] \<longleftrightarrow> False"
| "has_white [a] \<longleftrightarrow> white1 a"
| "has_white [a, b] \<longleftrightarrow> white1 a \<or> white2 a b \<or> white1 b"
| "has_white (a # b # c # s) \<longleftrightarrow> white1 a \<or> white2 a b \<or> white3 a b c \<or> has_white (b # c # s)"

definition valid_capability_id :: "string \<Rightarrow> bool" where
  "valid_capability_id v \<longleftrightarrow>
     \<not> (blank v \<or> length v > 256 \<or> has_control v \<or> has_white v \<or>
        CHR ''/'' \<in> set v \<or> CHR 0x5C \<in> set v)"

definition new_capability_id :: "string \<Rightarrow> catalog_model_error + capability_id" where
  "new_capability_id v = (if valid_capability_id v then Inr v else Inl (InvalidCapabilityId v))"

datatype capability_kind = KSkill | KMcpServer | KMcpTool | KPlugin | KAgent | KHook | KSetting

fun kind_str :: "capability_kind \<Rightarrow> string" where
  "kind_str KSkill = ''skill''"
| "kind_str KMcpServer = ''mcp-server''"
| "kind_str KMcpTool = ''mcp-tool''"
| "kind_str KPlugin = ''plugin''"
| "kind_str KAgent = ''agent''"
| "kind_str KHook = ''hook''"
| "kind_str KSetting = ''setting''"

fun kind_rank :: "capability_kind \<Rightarrow> nat" where
  "kind_rank KSkill = 0"
| "kind_rank KMcpServer = 1"
| "kind_rank KMcpTool = 2"
| "kind_rank KPlugin = 3"
| "kind_rank KAgent = 4"
| "kind_rank KHook = 5"
| "kind_rank KSetting = 6"

datatype capability_scope = ScopeGlobal | ScopeRepository

datatype capability_ownership = OwnUser | OwnProviderManaged | OwnExternal

datatype capability_mutability = CapReadWrite | CapReadOnly | CapUnsupported

fun capability_mutability_of :: "discovery_mutability \<Rightarrow> capability_mutability" where
  "capability_mutability_of DiscReadWrite = CapReadWrite"
| "capability_mutability_of DiscReadOnly = CapReadOnly"
| "capability_mutability_of DiscUnsupported = CapUnsupported"

record canonical_origin =
  canonical_key :: string
  origin_source_path :: string
  origin_state_path :: string
  origin_scope :: capability_scope
  origin_source_fingerprint :: "string option"

record provider_view =
  view_provider :: provider_id
  view_discovery_id :: string
  view_layer :: discovery_layer
  view_enabled :: bool
  view_mutability :: capability_mutability
  view_source_path :: string
  view_state_path :: string
  view_source_fingerprint :: "string option"

record capability_lifecycle =
  cataloged :: bool
  installed :: bool
  active :: bool
  exposed :: bool
  loaded :: bool
  connected :: bool

definition discovered :: "bool \<Rightarrow> capability_lifecycle" where
  "discovered enabled = \<lparr>cataloged = True, installed = True, active = enabled, exposed = enabled,
     loaded = False, connected = False\<rparr>"

record capability_state_evidence =
  observation :: string
  observed_enabled :: bool

record trust_requirements =
  executable_review :: bool
  network_review :: bool
  credential_authorization :: bool

definition requires_local_review :: "trust_requirements \<Rightarrow> bool" where
  "requires_local_review t \<longleftrightarrow>
     executable_review t \<or> network_review t \<or> credential_authorization t"

record tool_namespace =
  namespace :: string
  namespace_name :: string

datatype contribution_control = Independent | Atomic

record contribution_edge =
  edge_capability :: capability_id
  edge_control :: contribution_control

record catalog_record =
  cap_id :: capability_id
  cap_kind :: capability_kind
  cap_display_name :: string
  cap_origin :: canonical_origin
  cap_ownership :: capability_ownership
  cap_fingerprint :: string
  cap_lifecycle :: capability_lifecycle
  cap_evidence :: capability_state_evidence
  cap_trust :: trust_requirements
  cap_views :: "provider_view list"
  cap_dependencies :: "capability_id list"
  cap_contributions :: "contribution_edge list"
  cap_contributed_by :: "capability_id option"
  cap_atomic_unknown :: bool
  cap_tool_namespace :: "tool_namespace option"
  cap_hook_conflict_key :: "string option"

definition supports_provider :: "catalog_record \<Rightarrow> provider_id \<Rightarrow> bool" where
  "supports_provider r p \<longleftrightarrow> list_ex (\<lambda>v. view_provider v = p) (cap_views r)"

datatype catalog_warning_code = InvalidManifest | OversizedManifest | UnknownDynamicContributions

record catalog_warning =
  warning_capability :: capability_id
  warning_code :: catalog_warning_code

record catalog =
  records :: "(capability_id, catalog_record) btree"
  warnings :: "catalog_warning list"

definition empty_catalog :: catalog where
  "empty_catalog = \<lparr>records = [], warnings = []\<rparr>"

text \<open>
  \<open>Catalog::insert\<close>: the map is written before the duplicate is reported, so a failed insert has
  replaced the record.
\<close>

definition catalog_insert :: "catalog_record \<Rightarrow> (catalog, catalog_model_error, unit) exec" where
  "catalog_insert r c =
     (ensure (map_of (records c) (cap_id r) = None) (DuplicateCapability (cap_id r)),
      c\<lparr>records := btree_insert (cap_id r) r (records c)\<rparr>)"

fun insert_all :: "catalog_record list \<Rightarrow> catalog \<Rightarrow> catalog_model_error + catalog" where
  "insert_all [] c = Inr c"
| "insert_all (r # rs) c =
     (case catalog_insert r c of (Inl e, _) \<Rightarrow> Inl e | (Inr _, d) \<Rightarrow> insert_all rs d)"

definition from_records :: "catalog_record list \<Rightarrow> catalog_model_error + catalog" where
  "from_records rs = insert_all rs empty_catalog"

definition catalog_get :: "catalog \<Rightarrow> capability_id \<Rightarrow> catalog_record option" where
  "catalog_get c i = map_of (records c) i"

definition find_provider_view :: "catalog \<Rightarrow> provider_id \<Rightarrow> string \<Rightarrow> catalog_record option" where
  "find_provider_view c p i =
     find (\<lambda>r. list_ex (\<lambda>v. view_provider v = p \<and> view_discovery_id v = i) (cap_views r))
       (map snd (records c))"

section \<open>From discovered items to records\<close>

text \<open>
  What the catalog asks of the file system: the canonical form of an origin path, and what a plugin
  manifest holds.
\<close>

datatype manifest_file = ManifestAbsent | ManifestUnreadable | ManifestTooLarge | ManifestJson json

record catalog_env = hashing +
  canonical_origin_path :: "string \<Rightarrow> string"
  manifest_file :: "string \<Rightarrow> manifest_file"

definition stable_hash :: "('z) hashing_scheme \<Rightarrow> string \<Rightarrow> string" where
  "stable_hash H bytes = encode_lower_hex (sha256 H bytes)"

definition group_key :: "('z) catalog_env_scheme \<Rightarrow> discovery_item \<Rightarrow> string" where
  "group_key E i =
     (if is_shared_skill_source i
      then ''shared-skill:'' @ canonical_origin_path E (item_source_path i)
      else provider_str (item_provider i) @ '':'' @ item_id i)"

fun capability_kind_of :: "discovery_kind \<Rightarrow> discovery_category \<Rightarrow> capability_kind" where
  "capability_kind_of DiscSkill c = KSkill"
| "capability_kind_of DiscMcp c = (if c = CatTool then KMcpTool else KMcpServer)"
| "capability_kind_of DiscPlugin c = KPlugin"
| "capability_kind_of DiscAgent c = KAgent"
| "capability_kind_of DiscHook c = KHook"
| "capability_kind_of DiscSetting c = KSetting"

text \<open>The loop of \<open>ownership_for\<close> with its early return.\<close>

fun ownership_from :: "capability_ownership \<Rightarrow> discovery_mutability list \<Rightarrow> capability_ownership" where
  "ownership_from owner [] = owner"
| "ownership_from owner (m # ms) =
     (case m of
        DiscReadWrite \<Rightarrow> OwnUser
      | DiscReadOnly \<Rightarrow> ownership_from OwnProviderManaged ms
      | DiscUnsupported \<Rightarrow> ownership_from owner ms)"

definition ownership_for :: "discovery_mutability list \<Rightarrow> capability_ownership" where
  "ownership_for ms = ownership_from OwnExternal ms"

definition trust_for :: "capability_kind \<Rightarrow> discovery_item option \<Rightarrow> trust_requirements" where
  "trust_for k item =
     (case k of
        KMcpServer \<Rightarrow>
          \<lparr>executable_review = True, network_review = True, credential_authorization = True\<rparr>
      | KMcpTool \<Rightarrow>
          \<lparr>executable_review = False, network_review = True, credential_authorization = True\<rparr>
      | KPlugin \<Rightarrow>
          \<lparr>executable_review = True, network_review = True, credential_authorization = True\<rparr>
      | KHook \<Rightarrow>
          (let act = (case Option.bind item item_hook of None \<Rightarrow> ActUnknown | Some h \<Rightarrow> hook_action_type h) in
           \<lparr>executable_review = act \<in> {ActCommand, ActPrompt, ActAgent, ActProviderComponent, ActUnknown},
            network_review = act \<in> {ActHttp, ActMcpTool},
            credential_authorization = (act = ActMcpTool)\<rparr>)
      | _ \<Rightarrow>
          \<lparr>executable_review = False, network_review = False, credential_authorization = False\<rparr>)"

definition view_of_item :: "discovery_item \<Rightarrow> provider_view" where
  "view_of_item i = \<lparr>view_provider = item_provider i, view_discovery_id = item_id i,
     view_layer = item_layer i, view_enabled = item_enabled i,
     view_mutability = capability_mutability_of (item_mutability i),
     view_source_path = item_source_path i, view_state_path = item_state_path i,
     view_source_fingerprint = item_source_fingerprint i\<rparr>"

definition view_key :: "provider_view \<Rightarrow> provider_id \<times> string \<times> string" where
  "view_key v = (view_provider v, layer_str (view_layer v), view_discovery_id v)"

text \<open>\<open>slice::join\<close> with a newline; \<open>str::rsplit_once(':')\<close>, the part before the last colon.\<close>

fun join_lines :: "string list \<Rightarrow> string" where
  "join_lines [] = []"
| "join_lines [s] = s"
| "join_lines (s # t # ss) = s @ [CHR 0x0A] @ join_lines (t # ss)"

definition before_last_colon :: "string \<Rightarrow> string option" where
  "before_last_colon s =
     (if CHR '':'' \<in> set s then Some (rev (tl (dropWhile (\<lambda>c. c \<noteq> CHR '':'') (rev s)))) else None)"

definition item_tool_namespace :: "capability_kind \<Rightarrow> discovery_item \<Rightarrow> tool_namespace option" where
  "item_tool_namespace k i =
     (if k = KMcpTool then Some
        \<lparr>namespace = (case before_last_colon (item_id i) of
             None \<Rightarrow> provider_str (item_provider i)
           | Some n \<Rightarrow> if n = [] then provider_str (item_provider i) else n),
         namespace_name = item_display_name i\<rparr>
      else None)"

definition record_from_items ::
  "('z) catalog_env_scheme \<Rightarrow> string \<Rightarrow> discovery_item list \<Rightarrow> catalog_model_error + catalog_record" where
  "record_from_items E key items =
     (let i = hd items; k = capability_kind_of (item_kind i) (item_category i);
          fingerprints = sort (remdups (filter_map item_source_fingerprint items));
          is_active = list_ex item_enabled items in
      and_then (new_capability_id (''catalog:'' @ kind_str k @ '':'' @ take 24 (stable_hash E key))) (\<lambda>cid.
      Inr \<lparr>cap_id = cid, cap_kind = k, cap_display_name = item_display_name i,
           cap_origin = \<lparr>canonical_key = stable_hash E key,
             origin_source_path = canonical_origin_path E (item_source_path i),
             origin_state_path = item_state_path i,
             origin_scope = (if list_ex (\<lambda>x. item_layer x = GlobalLayer) items
                             then ScopeGlobal else ScopeRepository),
             origin_source_fingerprint = item_source_fingerprint i\<rparr>,
           cap_ownership = ownership_for (map item_mutability items),
           cap_fingerprint = stable_hash E (key @ [CHR 0x0A] @ kind_str k @ [CHR 0x0A] @
             join_lines fingerprints),
           cap_lifecycle = discovered is_active,
           cap_evidence = \<lparr>observation = ''provider-discovery'', observed_enabled = is_active\<rparr>,
           cap_trust = trust_for k (Some i),
           cap_views = sort_key view_key (map view_of_item items),
           cap_dependencies = [], cap_contributions = [], cap_contributed_by = None,
           cap_atomic_unknown = False, cap_tool_namespace = item_tool_namespace k i,
           cap_hook_conflict_key = map_option (\<lambda>h. provider_str (item_provider i) @ '':'' @
             hook_native_event h @ '':'' @ hook_matcher h) (item_hook i)\<rparr>))"

section \<open>What a plugin manifest contributes\<close>

definition max_declared_contributions :: nat where
  "max_declared_contributions = 512"

datatype manifest_read =
    Declared "(capability_kind \<times> string) list"
  | DynamicOrUnknown
  | ReadInvalid
  | ReadOversized

definition array_name :: "json \<Rightarrow> string option" where
  "array_name v = or_else (json_str v)
     (Option.bind (or_else (json_get ''id'' v) (json_get ''name'' v)) json_str)"

fun raw_names :: "json \<Rightarrow> string list" where
  "raw_names (JArray vs) = filter (\<lambda>s. \<not> blank s) (filter_map array_name vs)"
| "raw_names (JObject ms) = map fst ms"
| "raw_names (JString s) = (if blank s then [] else [s])"
| "raw_names _ = []"

definition contribution_names :: "json \<Rightarrow> string list option" where
  "contribution_names v =
     (if length (raw_names v) > max_declared_contributions \<or>
         list_ex (\<lambda>n. blank n \<or> length n > 256 \<or> has_control n) (raw_names v)
      then None else Some (raw_names v))"

fun declare_kinds ::
  "json \<Rightarrow> (string \<times> capability_kind) list \<Rightarrow> (capability_kind \<times> string) list \<Rightarrow>
     (capability_kind \<times> string) list option" where
  "declare_kinds root [] declared = Some declared"
| "declare_kinds root ((key, k) # rest) declared =
     (case json_get key root of
        None \<Rightarrow> declare_kinds root rest declared
      | Some v \<Rightarrow>
          (case contribution_names v of
             None \<Rightarrow> None
           | Some names \<Rightarrow>
               (let declared' = declared @ map (Pair k) names in
                if names \<noteq> [] \<and> length declared' > max_declared_contributions then None
                else declare_kinds root rest declared')))"

definition declared_key :: "capability_kind \<times> string \<Rightarrow> nat \<times> string" where
  "declared_key d = (kind_rank (fst d), snd d)"

definition declared_contributions :: "json \<Rightarrow> (capability_kind \<times> string) list option" where
  "declared_contributions v =
     (let root = (case json_get ''contributions'' v of None \<Rightarrow> v | Some r \<Rightarrow> r) in
      map_option (\<lambda>ds. dedup_by declared_key (sort_key declared_key ds))
        (declare_kinds root [(''skills'', KSkill), (''mcpServers'', KMcpServer),
           (''tools'', KMcpTool), (''hooks'', KHook)] []))"

fun manifest_read_of :: "manifest_file \<Rightarrow> manifest_read" where
  "manifest_read_of ManifestAbsent = DynamicOrUnknown"
| "manifest_read_of ManifestUnreadable = ReadInvalid"
| "manifest_read_of ManifestTooLarge = ReadOversized"
| "manifest_read_of (ManifestJson v) =
     (case declared_contributions v of None \<Rightarrow> ReadInvalid | Some ds \<Rightarrow> Declared ds)"

definition contribution_identity :: "catalog_record \<Rightarrow> capability_kind \<times> string \<Rightarrow> string" where
  "contribution_identity plugin d = cap_id plugin @ ''#'' @ kind_str (fst d) @ '':'' @ snd d"

text \<open>
  The generated id is valid by construction (lemma \<open>generated_id_valid\<close>), so the \<open>expect\<close> of the
  code does not fail.
\<close>

definition synthetic_contribution ::
  "('z) hashing_scheme \<Rightarrow> catalog_record \<Rightarrow> capability_kind \<times> string \<Rightarrow> catalog_record" where
  "synthetic_contribution H plugin d =
     (let identity = contribution_identity plugin d;
          i = ''catalog:'' @ kind_str (fst d) @ '':'' @ take 24 (stable_hash H identity) in
      \<lparr>cap_id = i, cap_kind = fst d, cap_display_name = snd d,
       cap_origin = (cap_origin plugin)\<lparr>canonical_key := stable_hash H identity\<rparr>,
       cap_ownership = cap_ownership plugin,
       cap_fingerprint = stable_hash H (cap_fingerprint plugin @ '':'' @ i),
       cap_lifecycle = cap_lifecycle plugin, cap_evidence = cap_evidence plugin,
       cap_trust = trust_for (fst d) None,
       cap_views = map (\<lambda>v. v\<lparr>view_discovery_id := view_discovery_id v @ ''#'' @ kind_str (fst d) @
           '':'' @ snd d, view_mutability := CapReadOnly\<rparr>) (cap_views plugin),
       cap_dependencies = [cap_id plugin], cap_contributions = [],
       cap_contributed_by = Some (cap_id plugin), cap_atomic_unknown = False,
       cap_tool_namespace = (if fst d = KMcpTool
         then Some \<lparr>namespace = cap_id plugin, namespace_name = snd d\<rparr> else None),
       cap_hook_conflict_key = (if fst d = KHook then Some (snd d) else None)\<rparr>)"

text \<open>\<open>records.get_mut(id)\<close> with a change of the record.\<close>

definition modify_record :: "capability_id \<Rightarrow> (catalog_record \<Rightarrow> catalog_record) \<Rightarrow> catalog \<Rightarrow> catalog" where
  "modify_record i f c =
     c\<lparr>records := map (\<lambda>e. if fst e = i then (fst e, f (snd e)) else e) (records c)\<rparr>"

definition mark_unknown_contributions ::
  "capability_id \<Rightarrow> catalog_warning_code \<Rightarrow> catalog \<Rightarrow> catalog" where
  "mark_unknown_contributions i w c =
     (let d = modify_record i (\<lambda>r. r\<lparr>cap_atomic_unknown := True\<rparr>) c in
      d\<lparr>warnings := warnings d @ [\<lparr>warning_capability = i, warning_code = w\<rparr>]\<rparr>)"

definition insert_if_absent :: "catalog_record \<Rightarrow> catalog \<Rightarrow> catalog" where
  "insert_if_absent r c =
     (if map_of (records c) (cap_id r) = None
      then c\<lparr>records := btree_insert (cap_id r) r (records c)\<rparr> else c)"

definition add_contributions ::
  "('z) hashing_scheme \<Rightarrow> capability_id \<Rightarrow> catalog_record \<Rightarrow> (capability_kind \<times> string) list \<Rightarrow> catalog \<Rightarrow> catalog" where
  "add_contributions H i plugin ds c =
     (let children = map (synthetic_contribution H plugin) ds;
          d = fold insert_if_absent children c;
          edges = dedup_by edge_capability (sort_key edge_capability
            (map (\<lambda>r. \<lparr>edge_capability = cap_id r, edge_control = Atomic\<rparr>) children)) in
      modify_record i
        (\<lambda>r. r\<lparr>cap_contributions := edges, cap_atomic_unknown := False\<rparr>) d)"

definition derive_for_plugin :: "('z) catalog_env_scheme \<Rightarrow> capability_id \<Rightarrow> catalog \<Rightarrow> catalog" where
  "derive_for_plugin E i c =
     (case map_of (records c) i of
        None \<Rightarrow> c
      | Some plugin \<Rightarrow>
          (case manifest_read_of (manifest_file E (origin_source_path (cap_origin plugin))) of
             ReadInvalid \<Rightarrow> mark_unknown_contributions i InvalidManifest c
           | ReadOversized \<Rightarrow> mark_unknown_contributions i OversizedManifest c
           | DynamicOrUnknown \<Rightarrow> mark_unknown_contributions i UnknownDynamicContributions c
           | Declared ds \<Rightarrow>
               if ds = []
               then modify_record i (\<lambda>r. r\<lparr>cap_contributions := [], cap_atomic_unknown := False\<rparr>) c
               else add_contributions E i plugin ds c))"

definition derive_plugin_contributions :: "('z) catalog_env_scheme \<Rightarrow> catalog \<Rightarrow> catalog" where
  "derive_plugin_contributions E c =
     fold (derive_for_plugin E)
       (map fst (filter (\<lambda>e. cap_kind (snd e) = KPlugin) (records c))) c"

fun group_items ::
  "('z) catalog_env_scheme \<Rightarrow> discovery_item list \<Rightarrow> (string, discovery_item list) btree \<Rightarrow>
     (string, discovery_item list) btree" where
  "group_items E [] groups = groups"
| "group_items E (i # is) groups =
     group_items E is (btree_insert (group_key E i)
       ((case map_of groups (group_key E i) of None \<Rightarrow> [] | Some g \<Rightarrow> g) @ [i]) groups)"

fun insert_groups ::
  "('z) catalog_env_scheme \<Rightarrow> (string \<times> discovery_item list) list \<Rightarrow> catalog \<Rightarrow>
     catalog_model_error + catalog" where
  "insert_groups E [] c = Inr c"
| "insert_groups E ((key, items) # rest) c =
     and_then (record_from_items E key (sort_key (\<lambda>i. (item_provider i, item_id i)) items)) (\<lambda>r.
     (case catalog_insert r c of (Inl e, _) \<Rightarrow> Inl e | (Inr _, d) \<Rightarrow> insert_groups E rest d))"

definition from_discovery ::
  "('z) catalog_env_scheme \<Rightarrow> discovery_item list \<Rightarrow> catalog_model_error + catalog" where
  "from_discovery E items =
     and_then (insert_groups E (group_items E items []) empty_catalog) (\<lambda>c.
     Inr (derive_plugin_contributions E c))"

section \<open>What a catalog guarantees\<close>

text \<open>Every record is filed under its own id, in key order.\<close>

definition catalog_ok :: "catalog \<Rightarrow> bool" where
  "catalog_ok c \<longleftrightarrow> btree_ok (records c) \<and> (\<forall>e\<in>set (records c). cap_id (snd e) = fst e)"

text \<open>Every contribution edge leads to a record of the catalog.\<close>

definition contributions_closed :: "catalog \<Rightarrow> bool" where
  "contributions_closed c \<longleftrightarrow>
     (\<forall>e\<in>set (records c). \<forall>edge\<in>set (cap_contributions (snd e)).
        edge_capability edge \<in> fst ` set (records c))"

lemma set_btree_insert_subset: "set (btree_insert k v m) \<subseteq> insert (k, v) (set m)"
  by (induction m) auto

lemma catalog_ok_insert: "catalog_ok c \<Longrightarrow> catalog_ok (c\<lparr>records := btree_insert (cap_id r) r (records c)\<rparr>)"
  using set_btree_insert_subset [of "cap_id r" r "records c"] by (fastforce simp: catalog_ok_def)

lemma catalog_insert_result:
  "catalog_insert r c = (q, d) \<longleftrightarrow>
     d = c\<lparr>records := btree_insert (cap_id r) r (records c)\<rparr> \<and>
     q = ensure (map_of (records c) (cap_id r) = None) (DuplicateCapability (cap_id r))"
  by (auto simp: catalog_insert_def)

lemma insert_all_ok:
  "catalog_ok c \<Longrightarrow>
   (case insert_all rs c of
      Inl e \<Rightarrow> (\<exists>i. e = DuplicateCapability i) \<and>
        \<not> (distinct (map cap_id rs) \<and> cap_id ` set rs \<inter> fst ` set (records c) = {})
    | Inr d \<Rightarrow> catalog_ok d \<and> distinct (map cap_id rs) \<and> cap_id ` set rs \<inter> fst ` set (records c) = {} \<and>
        (\<forall>i. map_of (records d) i = (case find (\<lambda>r. cap_id r = i) rs of
           None \<Rightarrow> map_of (records c) i | Some r \<Rightarrow> Some r)))"
proof (induction rs arbitrary: c)
  case (Cons r rs)
  let ?d = "c\<lparr>records := btree_insert (cap_id r) r (records c)\<rparr>"
  note ok = catalog_ok_insert [OF Cons.prems, of r]
  have b: "btree_ok (records c)" using Cons.prems by (simp add: catalog_ok_def)
  show ?case
  proof (cases "map_of (records c) (cap_id r) = None")
    case False
    then obtain y where y: "map_of (records c) (cap_id r) = Some y" by blast
    then have "cap_id r \<in> fst ` set (records c)" by (force dest: map_of_SomeD)
    with y show ?thesis by (simp add: catalog_insert_def)
  next
    case True
    then have "cap_id r \<notin> fst ` set (records c)" by (simp add: map_of_eq_None_iff)
    show ?thesis
    proof (cases "insert_all rs ?d")
      case (Inl e)
      with True Cons.IH [OF ok] show ?thesis by (auto simp: catalog_insert_def)
    next
      case (Inr d)
      with Cons.IH [OF ok] have d: "catalog_ok d" "distinct (map cap_id rs)" "cap_id r \<notin> cap_id ` set rs"
        "cap_id ` set rs \<inter> fst ` set (records c) = {}"
        "\<And>i. map_of (records d) i = (case find (\<lambda>x. cap_id x = i) rs of
           None \<Rightarrow> if i = cap_id r then Some r else map_of (records c) i | Some x \<Rightarrow> Some x)"
        using b by (auto cong: option.case_cong)
      have "cap_id x \<noteq> cap_id r" if "x \<in> set rs" for x
        using imageI [OF that, of cap_id] d(3) by auto
      then have "find (\<lambda>x. cap_id x = cap_id r) rs = None" by (auto simp: find_None_iff)
      then have "map_of (records d) i = (case find (\<lambda>x. cap_id x = i) (r # rs) of
           None \<Rightarrow> map_of (records c) i | Some x \<Rightarrow> Some x)" for i
        using d(5) [of i] by auto
      with True d(1-4) \<open>cap_id r \<notin> fst ` set (records c)\<close> Inr show ?thesis
        by (simp add: catalog_insert_def)
    qed
  qed
qed auto

text \<open>Generated ids are made of graphic ASCII characters, so they are valid.\<close>

definition graphic :: "char \<Rightarrow> bool" where
  "graphic c \<longleftrightarrow> 33 \<le> code c \<and> code c < 127"

lemma graphic_not_white:
  "graphic a \<Longrightarrow> \<not> white1 a" "graphic a \<Longrightarrow> \<not> white2 a b" "graphic b \<Longrightarrow> \<not> white2 a b"
  "graphic a \<Longrightarrow> \<not> white3 a b c" "graphic c \<Longrightarrow> \<not> white3 a b c"
  by (auto simp: graphic_def white1_def white2_def white3_def)

lemma graphic_trim_start: "list_all graphic s \<Longrightarrow> trim_start s = s"
  by (induction s rule: trim_start.induct) (auto simp: graphic_not_white)

lemma graphic_trim_reversed: "list_all graphic s \<Longrightarrow> trim_reversed s = s"
  by (induction s rule: trim_reversed.induct) (auto simp: graphic_not_white)

lemma graphic_blank: "list_all graphic s \<Longrightarrow> blank s \<longleftrightarrow> s = []"
  by (simp add: blank_def trim_def trim_end_def graphic_trim_start graphic_trim_reversed list_all_rev)

lemma graphic_has_white: "list_all graphic s \<Longrightarrow> \<not> has_white s"
  by (induction s rule: has_white.induct) (auto simp: graphic_not_white)

lemma graphic_has_control: "list_all graphic s \<Longrightarrow> \<not> has_control s"
  by (induction s rule: has_control.induct) (auto simp: graphic_def)

lemma hex_digit_graphic: "n < 16 \<Longrightarrow> graphic (hex_digit n) \<and> hex_digit n \<noteq> CHR ''/'' \<and> hex_digit n \<noteq> CHR 0x5C"
  by (drule less_16_cases) (auto simp: hex_digit_def graphic_def)

lemma encode_lower_hex_graphic:
  "list_all (\<lambda>c. graphic c \<and> c \<noteq> CHR ''/'' \<and> c \<noteq> CHR 0x5C) (encode_lower_hex s)"
  by (induction s) (auto simp: hex_digit_graphic div_less_iff_less_mult)

definition plain :: "char \<Rightarrow> bool" where
  "plain c \<longleftrightarrow> graphic c \<and> c \<noteq> CHR ''/'' \<and> c \<noteq> CHR 0x5C"

lemma plain_valid:
  assumes "list_all plain v" "v \<noteq> []" "length v \<le> 256"
  shows "valid_capability_id v"
proof -
  have g: "list_all graphic v" using assms(1) by (auto simp: list_all_iff plain_def)
  have "CHR ''/'' \<notin> set v" "CHR 0x5C \<notin> set v" using assms(1) by (auto simp: list_all_iff plain_def)
  with assms(2,3) graphic_blank [OF g] graphic_has_white [OF g] graphic_has_control [OF g]
  show ?thesis by (simp add: valid_capability_id_def)
qed

lemma generated_id_valid:
  "valid_capability_id (''catalog:'' @ kind_str k @ '':'' @ take 24 (stable_hash H s))"
proof (rule plain_valid)
  have "list_all plain (take 24 (stable_hash H s))"
    using encode_lower_hex_graphic [of "sha256 H s"]
    by (auto simp: stable_hash_def list_all_iff plain_def dest: in_set_takeD)
  moreover have "list_all plain (kind_str k)" by (cases k) (simp_all add: graphic_def plain_def)
  moreover have "list_all plain ''catalog:''" "list_all plain '':''" by (simp_all add: graphic_def plain_def)
  ultimately show "list_all plain (''catalog:'' @ kind_str k @ '':'' @ take 24 (stable_hash H s))"
    by (simp only: list_all_append)
  have "length (kind_str k) \<le> 10" by (cases k) simp_all
  then show "length (''catalog:'' @ kind_str k @ '':'' @ take 24 (stable_hash H s)) \<le> 256" by simp
qed simp

section \<open>Deriving contributions keeps what was discovered\<close>

text \<open>Every record keeps its id and its provider views.\<close>

definition views_kept :: "catalog \<Rightarrow> catalog \<Rightarrow> bool" where
  "views_kept c d \<longleftrightarrow>
     (\<forall>i r. map_of (records c) i = Some r \<longrightarrow>
        (\<exists>r'. map_of (records d) i = Some r' \<and> cap_views r' = cap_views r))"

lemma views_kept_refl [simp]: "views_kept c c"
  by (simp add: views_kept_def)

lemma views_kept_trans: "views_kept c d \<Longrightarrow> views_kept d e \<Longrightarrow> views_kept c e"
  by (fastforce simp: views_kept_def)

lemma map_fst_modify_record [simp]: "map fst (records (modify_record i f c)) = map fst (records c)"
  by (simp add: modify_record_def comp_def)

lemma keys_modify_record [simp]: "fst ` set (records (modify_record i f c)) = fst ` set (records c)"
  by (metis map_fst_modify_record list.set_map)

lemma map_of_modify_record:
  "map_of (records (modify_record i f c)) j =
     (if j = i then map_option f (map_of (records c) j) else map_of (records c) j)"
proof -
  have "map_of (map (\<lambda>e. if fst e = i then (fst e, f (snd e)) else e) m) j =
     (if j = i then map_option f (map_of m j) else map_of m j)" for m
    by (induction m) auto
  then show ?thesis by (simp add: modify_record_def)
qed

lemma modify_record_ok:
  assumes "catalog_ok c" "\<And>r. cap_id (f r) = cap_id r"
  shows "catalog_ok (modify_record i f c)"
proof -
  have "cap_id (snd e) = fst e" if "e \<in> set (records (modify_record i f c))" for e
    using that assms by (auto simp: catalog_ok_def modify_record_def split: if_splits)
  with assms(1) show ?thesis by (simp add: catalog_ok_def btree_ok_def)
qed

lemma modify_record_views: "(\<And>r. cap_views (f r) = cap_views r) \<Longrightarrow> views_kept c (modify_record i f c)"
  by (auto simp: views_kept_def map_of_modify_record)

lemma modify_record_closed:
  assumes "contributions_closed c"
    and "\<And>r edge. edge \<in> set (cap_contributions (f r)) \<Longrightarrow>
       edge \<in> set (cap_contributions r) \<or> edge_capability edge \<in> fst ` set (records c)"
  shows "contributions_closed (modify_record i f c)"
proof -
  have "edge_capability edge \<in> fst ` set (records c)"
    if "e \<in> set (records (modify_record i f c))" "edge \<in> set (cap_contributions (snd e))" for e edge
    using that assms by (fastforce simp: modify_record_def contributions_closed_def split: if_splits)
  then show ?thesis by (auto simp: contributions_closed_def)
qed

lemma insert_if_absent_keys:
  "fst ` set (records (insert_if_absent r c)) = insert (cap_id r) (fst ` set (records c))"
proof (cases "map_of (records c) (cap_id r)")
  case (Some x)
  then have "cap_id r \<in> fst ` set (records c)" by (force dest: map_of_SomeD)
  with Some show ?thesis by (simp add: insert_if_absent_def insert_absorb)
qed (simp add: insert_if_absent_def)

lemma insert_if_absent_ok: "catalog_ok c \<Longrightarrow> catalog_ok (insert_if_absent r c)"
  using catalog_ok_insert by (simp add: insert_if_absent_def)

lemma insert_if_absent_views: "catalog_ok c \<Longrightarrow> views_kept c (insert_if_absent r c)"
  by (auto simp: insert_if_absent_def views_kept_def catalog_ok_def)

lemma insert_if_absent_closed:
  assumes "contributions_closed c" "cap_contributions r = []"
  shows "contributions_closed (insert_if_absent r c)"
proof -
  have "set (records (insert_if_absent r c)) \<subseteq> insert (cap_id r, r) (set (records c))"
    using set_btree_insert_subset [of "cap_id r" r "records c"] by (auto simp: insert_if_absent_def)
  then show ?thesis
    using assms unfolding contributions_closed_def insert_if_absent_keys by fastforce
qed

lemma insert_all_absent:
  assumes "catalog_ok c" "contributions_closed c" "\<forall>r\<in>set rs. cap_contributions r = []"
  shows "catalog_ok (fold insert_if_absent rs c) \<and> contributions_closed (fold insert_if_absent rs c) \<and>
    views_kept c (fold insert_if_absent rs c) \<and>
    fst ` set (records (fold insert_if_absent rs c)) = cap_id ` set rs \<union> fst ` set (records c)"
  using assms
proof (induction rs arbitrary: c)
  case (Cons r rs)
  have "catalog_ok (insert_if_absent r c)" "contributions_closed (insert_if_absent r c)"
    using Cons.prems insert_if_absent_ok insert_if_absent_closed by auto
  from Cons.IH [OF this] Cons.prems insert_if_absent_views [of c r] show ?case
    by (auto simp: insert_if_absent_keys intro: views_kept_trans)
qed simp

definition derived_ok :: "catalog \<Rightarrow> catalog \<Rightarrow> bool" where
  "derived_ok c d \<longleftrightarrow> catalog_ok d \<and> contributions_closed d \<and> views_kept c d"

lemma add_contributions_ok:
  assumes "catalog_ok c" "contributions_closed c"
  shows "derived_ok c (add_contributions H i plugin ds c)"
proof -
  let ?children = "map (synthetic_contribution H plugin) ds"
  let ?d = "fold insert_if_absent ?children c"
  have "\<forall>r\<in>set ?children. cap_contributions r = []"
    by (auto simp: synthetic_contribution_def Let_def)
  from insert_all_absent [OF assms this]
  have d: "catalog_ok ?d" "contributions_closed ?d" "views_kept c ?d"
    "cap_id ` set ?children \<subseteq> fst ` set (records ?d)" by auto
  let ?edges = "dedup_by edge_capability (sort_key edge_capability
    (map (\<lambda>r. \<lparr>edge_capability = cap_id r, edge_control = Atomic\<rparr>) ?children))"
  have "edge_capability ` set ?edges = cap_id ` set ?children" by (simp add: image_image)
  then have "edge_capability edge \<in> fst ` set (records ?d)" if "edge \<in> set ?edges" for edge
    using d(4) imageI [OF that, of edge_capability] by auto
  then show ?thesis
    unfolding derived_ok_def add_contributions_def Let_def
    using d(1-3) by (intro conjI modify_record_ok modify_record_closed
        views_kept_trans [OF d(3) modify_record_views]) auto
qed

lemma mark_unknown_ok:
  assumes "catalog_ok c" "contributions_closed c"
  shows "derived_ok c (mark_unknown_contributions i w c)"
proof -
  let ?d = "modify_record i (\<lambda>r. r\<lparr>cap_atomic_unknown := True\<rparr>) c"
  have "catalog_ok ?d" "contributions_closed ?d" "views_kept c ?d"
    using assms by (auto intro: modify_record_ok modify_record_closed modify_record_views)
  then show ?thesis
    by (simp add: mark_unknown_contributions_def Let_def derived_ok_def catalog_ok_def
        contributions_closed_def views_kept_def)
qed

lemma derive_for_plugin_ok:
  assumes "catalog_ok c" "contributions_closed c"
  shows "derived_ok c (derive_for_plugin E i c)"
proof -
  have "derived_ok c (modify_record i (\<lambda>r. r\<lparr>cap_contributions := [], cap_atomic_unknown := False\<rparr>) c)"
    using assms unfolding derived_ok_def
    by (auto intro: modify_record_ok modify_record_closed modify_record_views)
  moreover have "derived_ok c c" using assms by (simp add: derived_ok_def)
  ultimately show ?thesis
    using mark_unknown_ok [OF assms] add_contributions_ok [OF assms]
    by (auto simp: derive_for_plugin_def split: option.split manifest_read.split)
qed

lemma derive_plugin_contributions_ok:
  assumes "catalog_ok c" "contributions_closed c"
  shows "derived_ok c (derive_plugin_contributions E c)"
proof -
  have "derived_ok c (fold (derive_for_plugin E) is c)" for "is"
    using assms
  proof (induction "is" arbitrary: c)
    case (Cons i "is")
    from derive_for_plugin_ok [OF Cons.prems, of E i] Cons.IH show ?case
      by (auto simp: derived_ok_def intro: views_kept_trans)
  qed (simp add: derived_ok_def)
  then show ?thesis by (simp add: derive_plugin_contributions_def)
qed

lemma group_items_covers:
  "btree_ok groups \<Longrightarrow>
   btree_ok (group_items E is groups) \<and>
   (\<Union>g\<in>snd ` set (group_items E is groups). set g) = set is \<union> (\<Union>g\<in>snd ` set groups. set g)"
proof (induction "is" arbitrary: groups)
  case (Cons i "is")
  let ?old = "case map_of groups (group_key E i) of None \<Rightarrow> [] | Some g \<Rightarrow> g"
  let ?groups = "btree_insert (group_key E i) (?old @ [i]) groups"
  have insert_values: "(\<Union>g\<in>snd ` set (btree_insert k (old @ [x]) m). set g) =
      insert x (\<Union>g\<in>snd ` set m. set g)"
    if "btree_ok m" "old = (case map_of m k of None \<Rightarrow> [] | Some g \<Rightarrow> g)" for k old m and x :: discovery_item
    using that
  proof (induction m)
    case (Cons e m)
    show ?case
    proof (cases "fst e = k")
      case True
      with Cons.prems show ?thesis by (cases e) auto
    next
      case False
      then have old: "fst e < k \<Longrightarrow> old = (case map_of m k of None \<Rightarrow> [] | Some g \<Rightarrow> g)"
        using Cons.prems(2) by (cases e) auto
      have "map_of (e # m) k = None" if "k < fst e"
        using Cons.prems(1) that by (cases e) (auto simp: map_of_eq_None_iff)
      with False Cons old show ?thesis by (cases "fst e < k") auto
    qed
  qed simp
  have "btree_ok ?groups" using Cons.prems by simp
  from Cons.IH [OF this] insert_values [OF Cons.prems refl, of "group_key E i" i] show ?case
    by (simp add: Un_assoc)
qed simp

lemma insert_groups_ok:
  assumes "catalog_ok c" "insert_groups E groups c = Inr d"
    and "\<forall>e\<in>set (records c). cap_contributions (snd e) = []"
  shows "catalog_ok d \<and> (\<forall>e\<in>set (records d). cap_contributions (snd e) = []) \<and> views_kept c d \<and>
    (\<forall>g\<in>snd ` set groups. \<exists>e\<in>set (records d). view_of_item ` set g \<subseteq> set (cap_views (snd e)))"
  using assms
proof (induction groups arbitrary: c)
  case (Cons group groups)
  obtain key g where group: "group = (key, g)" by (cases group)
  let ?items = "sort_key (\<lambda>i. (item_provider i, item_id i)) g"
  obtain r where r: "record_from_items E key ?items = Inr r" "map_of (records c) (cap_id r) = None"
    "insert_groups E groups (c\<lparr>records := btree_insert (cap_id r) r (records c)\<rparr>) = Inr d"
    using Cons.prems(2) group by (auto simp: catalog_insert_def split: if_splits sum.splits)
  have r_ok: "cap_contributions r = []" "set (cap_views r) = view_of_item ` set g"
    using r(1) by (auto simp: record_from_items_def Let_def)
  let ?c = "c\<lparr>records := btree_insert (cap_id r) r (records c)\<rparr>"
  have c: "catalog_ok ?c" "views_kept c ?c" "\<forall>e\<in>set (records ?c). cap_contributions (snd e) = []"
    using Cons.prems(1,3) r(2) r_ok(1) catalog_ok_insert set_btree_insert_subset [of "cap_id r" r "records c"]
    by (auto simp: views_kept_def catalog_ok_def)
  note IH = Cons.IH [OF c(1) r(3) c(3)]
  have "map_of (records ?c) (cap_id r) = Some r" using Cons.prems(1) by (simp add: catalog_ok_def)
  with IH obtain r' where "map_of (records d) (cap_id r) = Some r'" "cap_views r' = cap_views r"
    unfolding views_kept_def by blast
  then have "\<exists>e\<in>set (records d). view_of_item ` set g \<subseteq> set (cap_views (snd e))"
    using r_ok(2) by (force dest: map_of_SomeD)
  with IH c(2) group show ?case by (auto intro: views_kept_trans)
qed auto

text \<open>
  The id of the record whose group an item leads. Two such ids agree only for items of one kind
  whose group keys have hashes with a common prefix of 24 digits.
\<close>

definition leading_kind :: "discovery_item \<Rightarrow> capability_kind" where
  "leading_kind i = capability_kind_of (item_kind i) (item_category i)"

definition leading_id :: "('z) catalog_env_scheme \<Rightarrow> discovery_item \<Rightarrow> capability_id" where
  "leading_id E i = ''catalog:'' @ kind_str (leading_kind i) @ '':'' @ take 24 (stable_hash E (group_key E i))"

lemma kind_str_prefix: "kind_str k @ '':'' @ x = kind_str l @ '':'' @ y \<Longrightarrow> k = l \<and> x = y"
  by (cases k; cases l) simp_all

lemma leading_id_eq:
  assumes "leading_id E i = leading_id E j"
  shows "leading_kind i = leading_kind j \<and>
    take 24 (stable_hash E (group_key E i)) = take 24 (stable_hash E (group_key E j))"
proof (rule kind_str_prefix)
  from assms show "kind_str (leading_kind i) @ '':'' @ take 24 (stable_hash E (group_key E i)) =
      kind_str (leading_kind j) @ '':'' @ take 24 (stable_hash E (group_key E j))"
    by (simp only: leading_id_def same_append_eq)
qed

definition grouped :: "('z) catalog_env_scheme \<Rightarrow> discovery_item set \<Rightarrow> (string \<times> discovery_item list) list \<Rightarrow> bool" where
  "grouped E is groups \<longleftrightarrow>
     (\<forall>(key, g)\<in>set groups. g \<noteq> [] \<and> set g \<subseteq> {i \<in> is. group_key E i = key})"

lemma grouped_simps [simp]:
  "grouped E is []"
  "grouped E is ((key, g) # groups) \<longleftrightarrow>
     g \<noteq> [] \<and> set g \<subseteq> {i \<in> is. group_key E i = key} \<and> grouped E is groups"
  by (auto simp: grouped_def)

lemma grouped_insert:
  assumes "grouped E is groups" "i \<in> is" "group_key E i = key"
  shows "grouped E is (btree_insert key ((case map_of groups key of None \<Rightarrow> [] | Some g \<Rightarrow> g) @ [i]) groups)"
proof -
  define old where "old = (case map_of groups key of None \<Rightarrow> [] | Some g \<Rightarrow> g)"
  have old: "set old \<subseteq> {i \<in> is. group_key E i = key}"
  proof (cases "map_of groups key")
    case (Some g)
    then have "(key, g) \<in> set groups" by (rule map_of_SomeD)
    with assms(1) Some show ?thesis unfolding grouped_def by (auto simp: old_def)
  qed (simp add: old_def)
  show ?thesis
    unfolding grouped_def old_def [symmetric]
  proof
    fix e assume "e \<in> set (btree_insert key (old @ [i]) groups)"
    with set_btree_insert_subset have "e = (key, old @ [i]) \<or> e \<in> set groups" by fast
    with assms old show "case e of (k, g) \<Rightarrow> g \<noteq> [] \<and> set g \<subseteq> {i \<in> is. group_key E i = k}"
      unfolding grouped_def by auto
  qed
qed

lemma grouped_group_items:
  "grouped E is groups \<Longrightarrow> set items \<subseteq> is \<Longrightarrow> grouped E is (group_items E items groups)"
  by (induction items arbitrary: groups) (auto intro: grouped_insert)

lemma record_from_group:
  assumes "g \<noteq> []" "set g \<subseteq> {i \<in> is. group_key E i = key}"
  obtains r i where "record_from_items E key (sort_key f g) = Inr r" "i \<in> is" "group_key E i = key"
    "cap_id r = leading_id E i"
proof -
  let ?i = "hd (sort_key f g)"
  have "?i \<in> set (sort_key f g)" using assms(1) by (intro hd_in_set) (metis set_empty set_sort)
  with assms(2) have "?i \<in> is" "group_key E ?i = key" by auto
  moreover have "\<exists>r. record_from_items E key (sort_key f g) = Inr r \<and> cap_id r = leading_id E ?i"
    using \<open>group_key E ?i = key\<close>
    by (simp add: record_from_items_def Let_def new_capability_id_def generated_id_valid [simplified]
        leading_id_def leading_kind_def)
  ultimately show thesis using that by blast
qed

text \<open>Inserting groups fails only on a clash of generated ids, which names two items of different groups.\<close>

lemma insert_groups_error:
  assumes "insert_groups E groups c = Inl e" "grouped E is groups" "distinct (map fst groups)"
    and "\<forall>k\<in>fst ` set (records c). \<exists>i\<in>is. k = leading_id E i \<and> group_key E i \<notin> fst ` set groups"
  shows "\<exists>i j. {i, j} \<subseteq> is \<and> group_key E i \<noteq> group_key E j \<and> leading_id E i = leading_id E j \<and>
    e = DuplicateCapability (leading_id E i)"
  using assms
proof (induction groups arbitrary: c)
  case (Cons group groups)
  obtain key g where group: "group = (key, g)" by (cases group)
  with Cons.prems(2) have g: "g \<noteq> []" "set g \<subseteq> {i \<in> is. group_key E i = key}" "grouped E is groups"
    by simp_all
  obtain r i where r: "record_from_items E key (sort_key (\<lambda>i. (item_provider i, item_id i)) g) = Inr r"
    "i \<in> is" "group_key E i = key" "cap_id r = leading_id E i"
    by (rule record_from_group [OF g(1,2)])
  show ?case
  proof (cases "map_of (records c) (cap_id r)")
    case None
    let ?c = "c\<lparr>records := btree_insert (cap_id r) r (records c)\<rparr>"
    have "insert_groups E groups ?c = Inl e"
      using Cons.prems(1) None r(1) group by (simp add: catalog_insert_def)
    moreover have "distinct (map fst groups)" using Cons.prems(3) by simp
    moreover have "\<forall>k\<in>fst ` set (records ?c). \<exists>i\<in>is. k = leading_id E i \<and> group_key E i \<notin> fst ` set groups"
      using Cons.prems(3,4) r group by auto
    ultimately show ?thesis by (rule Cons.IH [OF _ g(3)])
  next
    case (Some old)
    then have "e = DuplicateCapability (cap_id r)"
      using Cons.prems(1) r(1) group by (simp add: catalog_insert_def ensure_def)
    moreover from Some have "cap_id r \<in> fst ` set (records c)" by (force dest: map_of_SomeD)
    with Cons.prems(4) obtain j where "j \<in> is" "cap_id r = leading_id E j" "group_key E j \<notin> fst ` set (group # groups)"
      by blast
    ultimately have "{i, j} \<subseteq> is \<and> group_key E i \<noteq> group_key E j \<and> leading_id E i = leading_id E j \<and>
        e = DuplicateCapability (leading_id E i)"
      using r group by auto
    then show ?thesis by blast
  qed
qed simp

section \<open>The store of catalogs\<close>

record stored_catalog =
  object_digest :: string
  object_catalog :: catalog

record catalog_index =
  latest_digest :: "string option"
  object_digests :: "string set"

record catalog_materialization =
  mat_digest :: string
  mat_object_revision :: state_revision
  mat_index_revision :: state_revision

datatype catalog_store_error =
    CatState state_error
  | CatSerialization string
  | CatInvalidDigest string
  | CatMissingObject string
  | CatImmutableCollision string
  | CatDigestMismatch string string

record catalog_disks =
  objects :: "stored_catalog disk"
  index :: "catalog_index disk"

record catalog_store_env = hashing +
  catalog_json :: "catalog \<Rightarrow> string + string"
  object_render :: "stored_catalog stored_document \<Rightarrow> string + string"
  index_render :: "catalog_index stored_document \<Rightarrow> string + string"

definition object_env :: "('z) catalog_store_env_scheme \<Rightarrow> stored_catalog json_env" where
  "object_env E = \<lparr>sha256 = sha256 E, render = object_render E\<rparr>"

definition index_env :: "('z) catalog_store_env_scheme \<Rightarrow> catalog_index json_env" where
  "index_env E = \<lparr>sha256 = sha256 E, render = index_render E\<rparr>"

definition on_objects ::
  "(stored_catalog disk, state_error, 'a) exec \<Rightarrow> (catalog_disks, catalog_store_error, 'a) exec" where
  "on_objects m s = (case m (objects s) of (r, d) \<Rightarrow> (map_err CatState r, s\<lparr>objects := d\<rparr>))"

definition on_index ::
  "(catalog_index disk, state_error, 'a) exec \<Rightarrow> (catalog_disks, catalog_store_error, 'a) exec" where
  "on_index m s = (case m (index s) of (r, d) \<Rightarrow> (map_err CatState r, s\<lparr>index := d\<rparr>))"

definition get_catalog_index_path :: "path \<Rightarrow> path" where
  "get_catalog_index_path root = root @ [''catalog'', ''index.json'']"

definition get_catalog_object_path :: "path \<Rightarrow> string \<Rightarrow> path" where
  "get_catalog_object_path root digest = root @ [''catalog'', ''objects'', json_file digest]"

definition catalog_digest :: "('z) catalog_store_env_scheme \<Rightarrow> catalog \<Rightarrow> catalog_store_error + string" where
  "catalog_digest E c =
     and_then (map_err CatSerialization (catalog_json E c)) (\<lambda>bytes. Inr (stable_hash E bytes))"

text \<open>Publishing the object under its digest: an object that is there must be the same.\<close>

definition publish_object ::
  "('z) catalog_store_env_scheme \<Rightarrow> path \<Rightarrow> stored_catalog \<Rightarrow> owner_generation \<Rightarrow>
     (catalog_disks, catalog_store_error, state_revision) exec" where
  "publish_object E root object owner s =
     (let p = get_catalog_object_path root (object_digest object) in
     (case on_objects (compare_and_swap (object_env E) 1 p None owner object) s of
        (Inr revision, t) \<Rightarrow> (Inr revision, t)
      | (Inl (CatState (StaleRevision x y)), t) \<Rightarrow>
          bind_exec (on_objects (load (object_env E) 1 p)) (\<lambda>found.
          bind_exec (pure_exec (ok_or found (CatMissingObject (object_digest object)))) (\<lambda>snapshot.
          bind_exec (pure_exec (ensure (snapshot_value snapshot = object)
              (CatImmutableCollision (object_digest object)))) (\<lambda>_.
          pure_exec (Inr (snapshot_revision snapshot))))) t
      | (Inl e, t) \<Rightarrow> (Inl e, t)))"

definition current_index :: "catalog_index state_snapshot option \<Rightarrow> catalog_index" where
  "current_index current = (case current of None \<Rightarrow> \<lparr>latest_digest = None, object_digests = {}\<rparr>
     | Some snapshot \<Rightarrow> snapshot_value snapshot)"

definition publish_index ::
  "('z) catalog_store_env_scheme \<Rightarrow> path \<Rightarrow> string \<Rightarrow> owner_generation \<Rightarrow>
     (catalog_disks, catalog_store_error, state_revision) exec" where
  "publish_index E root digest owner =
     bind_exec (on_index (load (index_env E) 1 (get_catalog_index_path root))) (\<lambda>current.
     (let ix = current_index current in
      if latest_digest ix = Some digest \<and> digest \<in> object_digests ix
      then pure_exec (Inr (snapshot_revision (the current)))
      else on_index (compare_and_swap (index_env E) 1 (get_catalog_index_path root)
             (map_option snapshot_revision current) owner
             (ix\<lparr>latest_digest := Some digest, object_digests := insert digest (object_digests ix)\<rparr>))))"

definition materialize ::
  "('z) catalog_store_env_scheme \<Rightarrow> path \<Rightarrow> catalog \<Rightarrow> owner_generation \<Rightarrow>
     (catalog_disks, catalog_store_error, catalog_materialization) exec" where
  "materialize E root c owner =
     bind_exec (pure_exec (catalog_digest E c)) (\<lambda>digest.
     bind_exec (publish_object E root \<lparr>object_digest = digest, object_catalog = c\<rparr> owner) (\<lambda>object_revision.
     bind_exec (publish_index E root digest owner) (\<lambda>index_revision.
     pure_exec (Inr \<lparr>mat_digest = digest, mat_object_revision = object_revision,
                     mat_index_revision = index_revision\<rparr>))))"

definition load_catalog ::
  "('z) catalog_store_env_scheme \<Rightarrow> path \<Rightarrow> string \<Rightarrow>
     (catalog_disks, catalog_store_error, catalog option) exec" where
  "load_catalog E root digest =
     bind_exec (pure_exec (ensure (is_lower_hex_digest digest) (CatInvalidDigest digest))) (\<lambda>_.
     bind_exec (on_objects (load (object_env E) 1 (get_catalog_object_path root digest))) (\<lambda>found.
     (case found of
        None \<Rightarrow> pure_exec (Inr None)
      | Some snapshot \<Rightarrow>
          (let object = snapshot_value snapshot in
          bind_exec (pure_exec (ensure (object_digest object = digest)
              (CatDigestMismatch digest (object_digest object)))) (\<lambda>_.
          bind_exec (pure_exec (catalog_digest E (object_catalog object))) (\<lambda>actual.
          bind_exec (pure_exec (ensure (actual = digest) (CatDigestMismatch digest actual))) (\<lambda>_.
          pure_exec (Inr (Some (object_catalog object))))))))))"

definition load_index ::
  "('z) catalog_store_env_scheme \<Rightarrow> path \<Rightarrow>
     (catalog_disks, catalog_store_error, catalog_index state_snapshot option) exec" where
  "load_index E root = on_index (load (index_env E) 1 (get_catalog_index_path root))"

section \<open>What publishing leaves behind\<close>

lemma on_objects_result:
  "on_objects m s = (r, t) \<longleftrightarrow>
     (\<exists>q d. m (objects s) = (q, d) \<and> r = map_err CatState q \<and> t = s\<lparr>objects := d\<rparr>)"
  by (auto simp: on_objects_def split: prod.splits)

lemma on_index_result:
  "on_index m s = (r, t) \<longleftrightarrow>
     (\<exists>q d. m (index s) = (q, d) \<and> r = map_err CatState q \<and> t = s\<lparr>index := d\<rparr>)"
  by (auto simp: on_index_def split: prod.splits)

lemma map_err_ok_sym [simp]: "Inr x = map_err f r \<longleftrightarrow> r = Inr x"
  by (cases r) auto

lemma publish_object_ok:
  assumes "publish_object E root object owner s = (Inr rv, t)"
  shows "\<exists>snapshot. stored (object_env E) 1 (objects t) (get_catalog_object_path root (object_digest object)) =
    Inr (Some snapshot) \<and> snapshot_value snapshot = object"
proof -
  let ?p = "get_catalog_object_path root (object_digest object)"
  obtain q u where q: "on_objects (compare_and_swap (object_env E) 1 ?p None owner object) s = (q, u)"
    by (cases "on_objects (compare_and_swap (object_env E) 1 ?p None owner object) s")
  show ?thesis
  proof (cases q)
    case (Inr revision)
    with assms q have "t = u" by (simp add: publish_object_def Let_def)
    with q Inr show ?thesis
      by (auto simp: on_objects_result dest!: compare_and_swap_ok(1))
  next
    case (Inl e)
    with assms q obtain x y where e: "e = CatState (StaleRevision x y)"
      by (cases e) (auto simp: publish_object_def Let_def split: state_error.splits)
    with Inl assms q obtain snapshot where
      "on_objects (load (object_env E) 1 ?p) u = (Inr (Some snapshot), t)" "snapshot_value snapshot = object"
      by (auto simp: publish_object_def Let_def bind_exec_ok)
    then show ?thesis by (auto simp: on_objects_result dest!: load_ok)
  qed
qed

lemma publish_index_ok:
  assumes "publish_index E root digest owner s = (Inr rv, t)"
  shows "objects t = objects s"
    "\<exists>snapshot. stored (index_env E) 1 (index t) (get_catalog_index_path root) = Inr (Some snapshot) \<and>
       latest_digest (snapshot_value snapshot) = Some digest \<and>
       digest \<in> object_digests (snapshot_value snapshot)"
proof -
  let ?p = "get_catalog_index_path root"
  obtain current u where u: "on_index (load (index_env E) 1 ?p) s = (Inr current, u)"
    and rest: "(if latest_digest (current_index current) = Some digest \<and>
        digest \<in> object_digests (current_index current)
      then pure_exec (Inr (snapshot_revision (the current)))
      else on_index (compare_and_swap (index_env E) 1 ?p (map_option snapshot_revision current) owner
             ((current_index current)\<lparr>latest_digest := Some digest,
                object_digests := insert digest (object_digests (current_index current))\<rparr>))) u = (Inr rv, t)"
    using assms unfolding publish_index_def bind_exec_ok Let_def by blast
  from u have su: "objects u = objects s" "stored (index_env E) 1 (index u) ?p = Inr current"
    by (auto simp: on_index_result dest!: load_ok)
  have "objects t = objects s \<and> (\<exists>snapshot. stored (index_env E) 1 (index t) ?p = Inr (Some snapshot) \<and>
       latest_digest (snapshot_value snapshot) = Some digest \<and>
       digest \<in> object_digests (snapshot_value snapshot))"
  proof (cases "latest_digest (current_index current) = Some digest \<and>
      digest \<in> object_digests (current_index current)")
    case True
    with rest have "t = u" by simp
    with True su show ?thesis by (cases current) (simp_all add: current_index_def)
  next
    case False
    with rest have "on_index (compare_and_swap (index_env E) 1 ?p (map_option snapshot_revision current) owner
             ((current_index current)\<lparr>latest_digest := Some digest,
                object_digests := insert digest (object_digests (current_index current))\<rparr>)) u = (Inr rv, t)"
      by simp
    then obtain d where d: "compare_and_swap (index_env E) 1 ?p (map_option snapshot_revision current) owner
             ((current_index current)\<lparr>latest_digest := Some digest,
                object_digests := insert digest (object_digests (current_index current))\<rparr>) (index u) =
             (Inr rv, d)" "t = u\<lparr>index := d\<rparr>"
      unfolding on_index_result map_err_ok_sym by blast
    with su(1) compare_and_swap_ok(1) [OF d(1)] show ?thesis by simp
  qed
  then show "objects t = objects s"
    "\<exists>snapshot. stored (index_env E) 1 (index t) (get_catalog_index_path root) = Inr (Some snapshot) \<and>
       latest_digest (snapshot_value snapshot) = Some digest \<and>
       digest \<in> object_digests (snapshot_value snapshot)" by auto
qed

section \<open>Properties\<close>

text \<open>
  Building a catalog from records succeeds exactly when their ids are distinct; then the catalog
  files every record under its id, in key order, and holds no other. Otherwise the error names a
  duplicate id.
\<close>

theorem from_records_exact:
  "case from_records rs of
     Inl e \<Rightarrow> (\<exists>i. e = DuplicateCapability i) \<and> \<not> distinct (map cap_id rs)
   | Inr c \<Rightarrow> distinct (map cap_id rs) \<and> catalog_ok c \<and>
       catalog_get c = (\<lambda>i. find (\<lambda>r. cap_id r = i) rs)"
proof -
  have "catalog_ok empty_catalog" by (simp add: catalog_ok_def empty_catalog_def)
  from insert_all_ok [OF this, of rs] show ?thesis
    by (auto simp: from_records_def empty_catalog_def catalog_get_def fun_eq_iff split: sum.splits option.splits)
qed

lemma from_discovery_derived:
  assumes "from_discovery E items = Inr d"
  obtains c where "insert_groups E (group_items E items []) empty_catalog = Inr c"
    "d = derive_plugin_contributions E c" "derived_ok c d"
proof -
  from assms obtain c where c: "insert_groups E (group_items E items []) empty_catalog = Inr c"
    "d = derive_plugin_contributions E c"
    by (auto simp: from_discovery_def)
  have empty: "catalog_ok empty_catalog" "\<forall>e\<in>set (records empty_catalog). cap_contributions (snd e) = []"
    by (simp_all add: catalog_ok_def empty_catalog_def)
  note ok = insert_groups_ok [OF empty(1) c(1) empty(2)]
  then have "contributions_closed c" by (auto simp: contributions_closed_def)
  with ok derive_plugin_contributions_ok have "derived_ok c (derive_plugin_contributions E c)" by blast
  with c that show thesis by blast
qed

lemma from_discovery_closed: "from_discovery E items = Inr d \<Longrightarrow> contributions_closed d"
  by (erule from_discovery_derived) (simp add: derived_ok_def)

text \<open>
  C13: Cataloguing what the discovery found loses nothing: every item stays reachable by its provider
  and id, also after the contributions of plugins were derived; every record is filed under its
  own id, and every contribution edge leads to a record of the catalog. It fails only when two
  items of one kind but of different groups have group keys whose hashes share their first 24
  digits, and the error then names the id both would get.
\<close>

theorem discovery_is_catalogued:
  "case from_discovery E items of
     Inl e \<Rightarrow> (\<exists>i j. {i, j} \<subseteq> set items \<and> group_key E i \<noteq> group_key E j \<and>
       leading_kind i = leading_kind j \<and>
       take 24 (stable_hash E (group_key E i)) = take 24 (stable_hash E (group_key E j)) \<and>
       e = DuplicateCapability (leading_id E i))
   | Inr c \<Rightarrow> catalog_ok c \<and> contributions_closed c \<and>
       list_all (\<lambda>i. find_provider_view c (item_provider i) (item_id i) \<noteq> None) items"
proof (cases "insert_groups E (group_items E items []) empty_catalog")
  case (Inl e)
  have "distinct (map fst (group_items E items []))"
    using group_items_covers [of "[]" E items] by (simp add: btree_ok_distinct)
  with insert_groups_error [OF Inl grouped_group_items [OF grouped_simps(1) subset_refl]]
  obtain i j where ij: "{i, j} \<subseteq> set items" "group_key E i \<noteq> group_key E j" "leading_id E i = leading_id E j"
    "e = DuplicateCapability (leading_id E i)"
    by (auto simp: empty_catalog_def)
  have "from_discovery E items = Inl e" by (simp add: from_discovery_def Inl)
  then show ?thesis
    using ij conjunct1 [OF leading_id_eq [OF ij(3)]] conjunct2 [OF leading_id_eq [OF ij(3)]]
    by (simp only: sum.case) (intro exI [of _ i] exI [of _ j] conjI; simp)
next
  case (Inr c)
  let ?d = "derive_plugin_contributions E c"
  have empty: "catalog_ok empty_catalog" "\<forall>e\<in>set (records empty_catalog). cap_contributions (snd e) = []"
    by (simp_all add: catalog_ok_def empty_catalog_def)
  note c = insert_groups_ok [OF empty(1) Inr empty(2)]
  then have "contributions_closed c" by (auto simp: contributions_closed_def)
  with c derive_plugin_contributions_ok have d: "derived_ok c ?d" by blast
  have "find_provider_view ?d (item_provider i) (item_id i) \<noteq> None" if "i \<in> set items" for i
  proof -
    have "i \<in> (\<Union>g\<in>snd ` set (group_items E items []). set g)"
      using that group_items_covers [of "[]" E items] by simp
    then obtain g where "g \<in> snd ` set (group_items E items [])" "i \<in> set g" by blast
    with c obtain k r where r: "(k, r) \<in> set (records c)" "view_of_item i \<in> set (cap_views r)"
      by fastforce
    then have "map_of (records c) k = Some r"
      using c by (simp add: catalog_ok_def btree_ok_distinct)
    with d obtain r' where "map_of (records ?d) k = Some r'" "cap_views r' = cap_views r"
      unfolding derived_ok_def views_kept_def by blast
    with r(2) have "r' \<in> snd ` set (records ?d)" "view_of_item i \<in> set (cap_views r')"
      by (force dest: map_of_SomeD)+
    then have "list_ex (\<lambda>v. view_provider v = item_provider i \<and> view_discovery_id v = item_id i) (cap_views r')"
      by (force simp: list_ex_iff view_of_item_def)
    with \<open>r' \<in> snd ` set (records ?d)\<close> show ?thesis
      unfolding find_provider_view_def find_None_iff by auto
  qed
  with d Inr show ?thesis by (simp add: from_discovery_def derived_ok_def list_all_iff)
qed

text \<open>
  C14: A published catalog can be read back: after a successful \<open>materialize\<close>, loading its digest
  from a store that does not fail returns the very catalog, and the index names the digest as the
  latest and among its objects. SHA-256 is only used for the length of its output.
\<close>

theorem published_catalog_is_read_back:
  assumes "sha256_length E"
  shows "case materialize E root c owner s of
      (Inl _, _) \<Rightarrow> True
    | (Inr m, t) \<Rightarrow>
        fst (load_catalog E root (mat_digest m) (t\<lparr>objects := (objects t)\<lparr>faults := []\<rparr>\<rparr>)) = Inr (Some c) \<and>
        (\<exists>snapshot. stored (index_env E) 1 (index t) (get_catalog_index_path root) = Inr (Some snapshot) \<and>
           latest_digest (snapshot_value snapshot) = Some (mat_digest m) \<and>
           mat_digest m \<in> object_digests (snapshot_value snapshot))"
proof (cases "materialize E root c owner s")
  case (Pair r t)
  show ?thesis
  proof (cases r)
    case (Inr m)
    obtain digest rv u rx where m: "catalog_digest E c = Inr digest" "mat_digest m = digest"
      "publish_object E root \<lparr>object_digest = digest, object_catalog = c\<rparr> owner s = (Inr rv, u)"
      "publish_index E root digest owner u = (Inr rx, t)"
      using Pair Inr by (auto simp: materialize_def bind_exec_ok)
    note index = publish_index_ok [OF m(4)]
    obtain snapshot where snapshot:
      "stored (object_env E) 1 (objects t) (get_catalog_object_path root digest) = Inr (Some snapshot)"
      "snapshot_value snapshot = \<lparr>object_digest = digest, object_catalog = c\<rparr>"
      using publish_object_ok [OF m(3)] index(1) by auto
    have "is_lower_hex_digest digest"
      using m(1) assms by (auto simp: catalog_digest_def stable_hash_def sha256_length_def
          encode_lower_hex_digest)
    then have "fst (load_catalog E root digest (t\<lparr>objects := (objects t)\<lparr>faults := []\<rparr>\<rparr>)) = Inr (Some c)"
      using snapshot m(1)
      by (simp add: load_catalog_def on_objects_def load_no_fault bind_exec_def pure_exec_def)
    with Pair Inr m(2) index(2) show ?thesis by simp
  qed (use Pair in simp)
qed

definition toy_catalog_env :: catalog_store_env where
  "toy_catalog_env = \<lparr>sha256 = (\<lambda>str. replicate 32 (CHR 0x00)), catalog_json = (\<lambda>_. Inr []),
     object_render = (\<lambda>_. Inr []), index_render = (\<lambda>_. Inr [])\<rparr>"

definition empty_catalog_disks :: catalog_disks where
  "empty_catalog_disks = \<lparr>objects = \<lparr>files = [], faults = []\<rparr>, index = \<lparr>files = [], faults = []\<rparr>\<rparr>"

definition toy_catalog_owner :: owner_generation where
  "toy_catalog_owner = \<lparr>owner_id = ''o'', generation = 1\<rparr>"

lemma toy_published:
  "\<not> Option.is_none (case fst (materialize toy_catalog_env [] empty_catalog toy_catalog_owner
      empty_catalog_disks) of Inl _ \<Rightarrow> None | Inr m \<Rightarrow> Some m)"
  by code_simp

theorem published_catalog_is_read_back_witness:
  "\<exists>m t. materialize toy_catalog_env [] empty_catalog toy_catalog_owner empty_catalog_disks = (Inr m, t) \<and>
    fst (load_catalog toy_catalog_env [] (mat_digest m) (t\<lparr>objects := (objects t)\<lparr>faults := []\<rparr>\<rparr>)) =
      Inr (Some empty_catalog)"
proof -
  obtain m t where run: "materialize toy_catalog_env [] empty_catalog toy_catalog_owner
      empty_catalog_disks = (Inr m, t)"
    using toy_published
    by (cases "materialize toy_catalog_env [] empty_catalog toy_catalog_owner empty_catalog_disks")
      (auto split: sum.splits)
  have "sha256_length toy_catalog_env" by (simp add: sha256_length_def toy_catalog_env_def)
  from published_catalog_is_read_back [OF this, of "[]" empty_catalog toy_catalog_owner empty_catalog_disks] run
  show ?thesis by simp
qed

end
