(* ===== verification/Profile.thy ===== *)
theory Profile
  imports Catalog
begin

text \<open>
  \<open>profiles/model.rs\<close>: profile definitions and their compilation against a catalog into a
  revision with a digest. The loop that pulls in atomic contributions is a recursive function
  whose termination is proved: every round adds ids that some contribution edge names. JSON
  printing and parsing are parameters.
\<close>

record profile_definition =
  def_version :: "32 word"
  def_id :: string
  def_display_name :: string
  def_description :: "string option"
  def_members :: "capability_id list"
  def_provider_members :: "(provider_id, capability_id list) btree"
  def_supported :: "provider_id set"

datatype profile_source_scope = SrcGlobal | SrcRepository | SrcWorkspace | SrcSession

record compiled_origin =
  source_scope :: profile_source_scope
  definition_digest :: string

datatype member_selection_kind = Generic | ProviderSpecific | AtomicContribution

record compiled_member =
  member_capability :: capability_id
  member_fingerprint :: string
  member_origin_key :: string
  member_providers :: "provider_id set"
  member_selection :: member_selection_kind
  member_trust :: trust_requirements
  member_contributed_by :: "capability_id option"

record compiled_body =
  rev_schema_version :: "32 word"
  rev_profile_id :: string
  rev_display_name :: string
  rev_description :: "string option"
  rev_origin :: compiled_origin
  rev_members :: "compiled_member list"
  rev_supported :: "provider_id set"
  rev_local_review :: bool

record compiled_revision = compiled_body +
  rev_digest :: string

datatype profile_validation_error =
    DefinitionTooLarge nat nat
  | ProfInvalidJson string
  | ProfSerialization string
  | ProfUnsupportedVersion "32 word"
  | InvalidProfileId string
  | InvalidDisplayName
  | ProfInvalidCapabilityId capability_id
  | DuplicateMember capability_id
  | MissingCapability capability_id
  | MissingDependency capability_id capability_id
  | DependencyProviderMismatch capability_id capability_id provider_id
  | NoProviderViews capability_id
  | IncompatibleProviderMapping capability_id provider_id
  | AtomicContributionSplit capability_id capability_id
  | AmbiguousToolNamespace provider_id tool_namespace capability_id capability_id
  | ConflictingHookPolicy provider_id string capability_id capability_id
  | NonExportableField string
  | NonExportableValue string
  | ProfDigestMismatch string string

record profile_env = hashing +
  definition_json :: "profile_definition \<Rightarrow> string + string"
  compiled_json :: "compiled_body \<Rightarrow> string + string"
  parse_json :: "string \<Rightarrow> string + json"
  parse_definition :: "json \<Rightarrow> string + profile_definition"
  definition_value :: "profile_definition \<Rightarrow> string + json"
  print_pretty :: "json \<Rightarrow> string + string"

section \<open>Definitions that may leave the machine\<close>

definition is_alpha :: "char \<Rightarrow> bool" where
  "is_alpha c \<longleftrightarrow> is_upper c \<or> is_lower c"

definition is_alnum :: "char \<Rightarrow> bool" where
  "is_alnum c \<longleftrightarrow> is_alpha c \<or> is_digit c"

definition to_lower :: "char \<Rightarrow> char" where
  "to_lower c = (if is_upper c then char_of (code c + 32) else c)"

fun contains :: "string \<Rightarrow> string \<Rightarrow> bool" where
  "contains [] p \<longleftrightarrow> p = []"
| "contains (c # s) p \<longleftrightarrow> take (length p) (c # s) = p \<or> contains s p"

definition forbidden_fields :: "string list" where
  "forbidden_fields = [''credential'', ''secret'', ''password'', ''token'', ''keychain'', ''trust'',
     ''backup'', ''runtime'', ''lease'', ''sourcepath'', ''statepath'', ''originalpath'']"

definition normalized_key :: "string \<Rightarrow> string" where
  "normalized_key key = map to_lower (filter is_alnum key)"

definition forbidden_key :: "string \<Rightarrow> bool" where
  "forbidden_key key \<longleftrightarrow> list_ex (contains (normalized_key key)) forbidden_fields"

definition looks_machine_path :: "string \<Rightarrow> bool" where
  "looks_machine_path v \<longleftrightarrow>
     starts_with_any [''/'', ''~/'', ''./'', ''../'', [CHR ''.'', CHR 0x5C], [CHR ''.'', CHR ''.'', CHR 0x5C],
       ''file://'', [CHR 0x5C, CHR 0x5C]] v \<or>
     (length v \<ge> 3 \<and> is_alpha (v ! 0) \<and> v ! 1 = CHR '':'' \<and> (v ! 2 = CHR ''/'' \<or> v ! 2 = CHR 0x5C))"

text \<open>\<open>visit\<close>: the members of an object in order, each key before its value.\<close>

fun visit :: "json \<Rightarrow> string \<Rightarrow> profile_validation_error + unit" and
  visit_members :: "(string \<times> json) list \<Rightarrow> profile_validation_error + unit" and
  visit_values :: "json list \<Rightarrow> string \<Rightarrow> profile_validation_error + unit" where
  "visit (JObject ms) field = visit_members ms"
| "visit (JArray vs) field = visit_values vs field"
| "visit (JString v) field = ensure (\<not> looks_machine_path v) (NonExportableValue field)"
| "visit _ field = Inr ()"
| "visit_members [] = Inr ()"
| "visit_members ((key, v) # ms) =
     and_then (ensure (\<not> forbidden_key key) (NonExportableField key)) (\<lambda>_.
     and_then (visit v key) (\<lambda>_. visit_members ms))"
| "visit_values [] field = Inr ()"
| "visit_values (v # vs) field = and_then (visit v field) (\<lambda>_. visit_values vs field)"

definition reject_non_exportable_fields :: "json \<Rightarrow> profile_validation_error + unit" where
  "reject_non_exportable_fields v = visit v ''root''"

definition max_profile_definition_bytes :: nat where
  "max_profile_definition_bytes = 1048576"

definition definition_from_json ::
  "('z) profile_env_scheme \<Rightarrow> string \<Rightarrow> profile_validation_error + profile_definition" where
  "definition_from_json E raw =
     and_then (ensure (length raw \<le> max_profile_definition_bytes)
        (DefinitionTooLarge (length raw) max_profile_definition_bytes)) (\<lambda>_.
     and_then (map_err ProfInvalidJson (parse_json E raw)) (\<lambda>v.
     and_then (reject_non_exportable_fields v) (\<lambda>_.
     map_err ProfInvalidJson (parse_definition E v))))"

definition valid_profile_id :: "string \<Rightarrow> bool" where
  "valid_profile_id v \<longleftrightarrow>
     v \<noteq> [] \<and> length v \<le> 128 \<and>
     list_all (\<lambda>b. is_alnum b \<or> b = CHR ''-'' \<or> b = CHR ''_'' \<or> b = CHR ''.'') v \<and>
     v \<noteq> ''.'' \<and> v \<noteq> ''..''"

definition validate_capability_id :: "capability_id \<Rightarrow> profile_validation_error + unit" where
  "validate_capability_id i = ensure (valid_capability_id i) (ProfInvalidCapabilityId i)"

definition validate_definition_shape :: "profile_definition \<Rightarrow> profile_validation_error + unit" where
  "validate_definition_shape d =
     and_then (ensure (def_version d = 1) (ProfUnsupportedVersion (def_version d))) (\<lambda>_.
     and_then (ensure (valid_profile_id (def_id d)) (InvalidProfileId (def_id d))) (\<lambda>_.
     and_then (ensure (\<not> (blank (def_display_name d) \<or> has_control (def_display_name d)))
        InvalidDisplayName) (\<lambda>_.
     and_then (ensure (case def_description d of None \<Rightarrow> True
          | Some v \<Rightarrow> \<not> (has_control v \<or> looks_machine_path v))
        (NonExportableValue ''description'')) (\<lambda>_.
     try_for_each validate_capability_id
       (def_members d @ concat (map snd (def_provider_members d)))))))"

definition to_export_json ::
  "('z) profile_env_scheme \<Rightarrow> profile_definition \<Rightarrow> profile_validation_error + string" where
  "to_export_json E d =
     and_then (validate_definition_shape d) (\<lambda>_.
     and_then (map_err ProfSerialization (definition_value E d)) (\<lambda>v.
     and_then (reject_non_exportable_fields v) (\<lambda>_.
     map_err ProfSerialization (print_pretty E v))))"

definition normalized_definition :: "profile_definition \<Rightarrow> profile_definition" where
  "normalized_definition d = d\<lparr>def_members := sort (def_members d),
     def_provider_members := map (\<lambda>e. (fst e, sort (snd e))) (def_provider_members d)\<rparr>"

section \<open>Intents\<close>

record membership_intent =
  intent_generic :: bool
  intent_providers :: "provider_id set"
  intent_parent :: "capability_id option"

definition no_intent :: membership_intent where
  "no_intent = \<lparr>intent_generic = False, intent_providers = {}, intent_parent = None\<rparr>"

type_synonym intents = "(capability_id, membership_intent) btree"

definition intent_of :: "intents \<Rightarrow> capability_id \<Rightarrow> membership_intent" where
  "intent_of m i = (case map_of m i of None \<Rightarrow> no_intent | Some x \<Rightarrow> x)"

fun generic_intents :: "capability_id list \<Rightarrow> intents \<Rightarrow> profile_validation_error + intents" where
  "generic_intents [] m = Inr m"
| "generic_intents (i # is) m =
     and_then (validate_capability_id i) (\<lambda>_.
     (let intent = intent_of m i in
      and_then (ensure (\<not> (intent_generic intent \<or> intent_providers intent \<noteq> {})) (DuplicateMember i)) (\<lambda>_.
      generic_intents is (btree_insert i (intent\<lparr>intent_generic := True\<rparr>) m))))"

fun provider_intents ::
  "provider_id \<Rightarrow> capability_id set \<Rightarrow> capability_id list \<Rightarrow> intents \<Rightarrow>
     profile_validation_error + intents" where
  "provider_intents p seen [] m = Inr m"
| "provider_intents p seen (i # is) m =
     and_then (validate_capability_id i) (\<lambda>_.
     and_then (ensure (i \<notin> seen) (DuplicateMember i)) (\<lambda>_.
     (let intent = intent_of m i in
      and_then (ensure (\<not> intent_generic intent \<and> p \<notin> intent_providers intent) (DuplicateMember i)) (\<lambda>_.
      provider_intents p (insert i seen) is
        (btree_insert i (intent\<lparr>intent_providers := insert p (intent_providers intent)\<rparr>) m)))))"

fun all_provider_intents ::
  "(provider_id \<times> capability_id list) list \<Rightarrow> intents \<Rightarrow> profile_validation_error + intents" where
  "all_provider_intents [] m = Inr m"
| "all_provider_intents ((p, is) # rest) m =
     and_then (provider_intents p {} is m) (all_provider_intents rest)"

section \<open>Atomic contributions\<close>

definition atomic_children :: "catalog_record \<Rightarrow> capability_id list" where
  "atomic_children r =
     map edge_capability (filter (\<lambda>edge. edge_control edge = Atomic) (cap_contributions r))"

text \<open>The children of one selected parent: a child already selected must have the same intent.\<close>

fun request_children ::
  "capability_id \<Rightarrow> membership_intent \<Rightarrow> intents \<Rightarrow> capability_id list \<Rightarrow> intents \<Rightarrow>
     profile_validation_error + intents" where
  "request_children parent pi intents [] pending = Inr pending"
| "request_children parent pi intents (child # children) pending =
     (case map_of intents child of
        Some ci \<Rightarrow>
          if intent_parent ci \<noteq> Some parent \<or> intent_generic ci \<noteq> intent_generic pi \<or>
             intent_providers ci \<noteq> intent_providers pi
          then Inl (AtomicContributionSplit parent child)
          else request_children parent pi intents children pending
      | None \<Rightarrow>
          if (case map_of pending child of None \<Rightarrow> False
              | Some existing \<Rightarrow> intent_parent existing \<noteq> Some parent)
          then Inl (AtomicContributionSplit parent child)
          else request_children parent pi intents children
            (btree_insert child \<lparr>intent_generic = intent_generic pi,
               intent_providers = intent_providers pi, intent_parent = Some parent\<rparr> pending))"

text \<open>One round over the records of the catalog.\<close>

fun expand_round ::
  "intents \<Rightarrow> catalog_record list \<Rightarrow> intents \<Rightarrow> profile_validation_error + intents" where
  "expand_round intents [] pending = Inr pending"
| "expand_round intents (parent # parents) pending =
     (let children = atomic_children parent in
      if children = [] then expand_round intents parents pending
      else
        (case map_of intents (cap_id parent) of
           None \<Rightarrow>
             (case find (\<lambda>child. map_of intents child \<noteq> None) children of
                Some child \<Rightarrow> Inl (AtomicContributionSplit (cap_id parent) child)
              | None \<Rightarrow> expand_round intents parents pending)
         | Some pi \<Rightarrow>
             and_then (request_children (cap_id parent) pi intents children pending)
               (expand_round intents parents)))"

definition catalog_records :: "catalog \<Rightarrow> catalog_record list" where
  "catalog_records c = map snd (records c)"

text \<open>\<open>BTreeMap::extend\<close>.\<close>

definition btree_extend :: "('k::linorder, 'v) btree \<Rightarrow> ('k, 'v) btree \<Rightarrow> ('k, 'v) btree" where
  "btree_extend m es = fold (\<lambda>e. btree_insert (fst e) (snd e)) es m"

definition all_children :: "catalog \<Rightarrow> capability_id set" where
  "all_children c = (\<Union>r\<in>set (catalog_records c). set (atomic_children r))"

lemma keys_btree_extend [simp]: "fst ` set (btree_extend m es) = fst ` set m \<union> fst ` set es"
  unfolding btree_extend_def by (induction es arbitrary: m) auto

lemma request_children_keys:
  "request_children parent pi intents children pending = Inr pending' \<Longrightarrow>
     fst ` set pending' \<subseteq> fst ` set pending \<union> (set children - fst ` set intents)"
proof (induction children arbitrary: pending)
  case (Cons child children)
  show ?case
  proof (cases "map_of intents child")
    case None
    with Cons.prems obtain x where
      "request_children parent pi intents children (btree_insert child x pending) = Inr pending'"
      by (auto split: if_splits)
    from Cons.IH [OF this] None show ?thesis by (auto simp: map_of_eq_None_iff)
  next
    case (Some ci)
    with Cons.prems have "request_children parent pi intents children pending = Inr pending'"
      by (auto split: if_splits)
    from Cons.IH [OF this] show ?thesis by auto
  qed
qed simp

lemma expand_round_keys:
  "expand_round intents parents pending = Inr pending' \<Longrightarrow>
     fst ` set pending' \<subseteq> fst ` set pending \<union>
       ((\<Union>r\<in>set parents. set (atomic_children r)) - fst ` set intents)"
proof (induction parents arbitrary: pending)
  case (Cons parent parents)
  consider "expand_round intents parents pending = Inr pending'"
    | pi mid where "request_children (cap_id parent) pi intents (atomic_children parent) pending = Inr mid"
      "expand_round intents parents mid = Inr pending'"
    using Cons.prems by (auto simp: Let_def split: if_splits option.splits)
  then show ?case
  proof cases
    case 1
    from Cons.IH [OF 1] show ?thesis by auto
  next
    case 2
    from Cons.IH [OF 2(2)] request_children_keys [OF 2(1)] show ?thesis by auto
  qed
qed simp

lemma expand_round_shrinks:
  assumes "expand_round intents (catalog_records c) [] = Inr pending" "pending \<noteq> []"
  shows "card (all_children c - fst ` set (btree_extend intents pending)) <
    card (all_children c - fst ` set intents)"
proof -
  obtain k where k: "k \<in> fst ` set pending" using assms(2) by (cases pending) auto
  from expand_round_keys [OF assms(1)] have sub: "fst ` set pending \<subseteq> all_children c - fst ` set intents"
    by (simp add: all_children_def)
  have "all_children c - fst ` set (btree_extend intents pending) \<subset> all_children c - fst ` set intents"
  proof (rule psubsetI)
    show "all_children c - fst ` set (btree_extend intents pending) \<noteq> all_children c - fst ` set intents"
      using k sub unfolding keys_btree_extend by blast
  qed auto
  then show ?thesis by (simp add: all_children_def psubset_card_mono)
qed

text \<open>
  The loop \<open>expand_and_validate_atomic_contributions\<close>. It ends because each round that goes on
  selects a new child, and the catalog names finitely many.
\<close>

function expand_atomic :: "intents \<Rightarrow> catalog \<Rightarrow> profile_validation_error + intents" where
  "expand_atomic intents c =
     (case expand_round intents (catalog_records c) [] of
        Inl e \<Rightarrow> Inl e
      | Inr pending \<Rightarrow>
          if pending = [] then Inr intents else expand_atomic (btree_extend intents pending) c)"
  by pat_completeness auto

termination expand_atomic
  by (relation "measure (\<lambda>(intents, c). card (all_children c - fst ` set intents))")
    (simp_all add: expand_round_shrinks del: keys_btree_extend)

declare expand_atomic.simps [simp del]

section \<open>Resolving providers and dependencies\<close>

text \<open>
  A capability that \<open>expect\<close> assumes in the catalog and that is not there ends the compilation in a
  panic, which is an outcome of the model.
\<close>

datatype compile_error = Rejected profile_validation_error | Panic

text \<open>A \<open>BTreeSet<ProviderId>\<close> is iterated in the order of the providers.\<close>

definition ordered_providers :: "provider_id set \<Rightarrow> provider_id list" where
  "ordered_providers ps = filter (\<lambda>p. p \<in> ps) all_providers"

definition resolve_member_providers ::
  "capability_id \<Rightarrow> membership_intent \<Rightarrow> catalog_record \<Rightarrow> profile_validation_error + provider_id set" where
  "resolve_member_providers i intent r =
     (let ps = (if intent_generic intent then set (map view_provider (cap_views r))
                else intent_providers intent) in
      and_then (ensure (ps \<noteq> {}) (NoProviderViews i)) (\<lambda>_.
      and_then (try_for_each (\<lambda>p. ensure (supports_provider r p) (IncompatibleProviderMapping i p))
         (ordered_providers ps)) (\<lambda>_.
      Inr ps)))"

text \<open>The selected members: id, intent, catalog record and providers.\<close>

record selected_member =
  sel_id :: capability_id
  sel_intent :: membership_intent
  sel_record :: catalog_record
  sel_providers :: "provider_id set"

fun resolve_all ::
  "catalog \<Rightarrow> (capability_id \<times> membership_intent) list \<Rightarrow> compile_error + selected_member list" where
  "resolve_all c [] = Inr []"
| "resolve_all c ((i, intent) # rest) =
     and_then (ok_or (catalog_get c i) Panic) (\<lambda>r.
     and_then (map_err Rejected (resolve_member_providers i intent r)) (\<lambda>ps.
     and_then (resolve_all c rest) (\<lambda>ms.
     Inr (\<lparr>sel_id = i, sel_intent = intent, sel_record = r, sel_providers = ps\<rparr> # ms))))"

definition find_selected :: "selected_member list \<Rightarrow> capability_id \<Rightarrow> selected_member option" where
  "find_selected ms i = find (\<lambda>m. sel_id m = i) ms"

definition check_dependency ::
  "selected_member list \<Rightarrow> selected_member \<Rightarrow> capability_id \<Rightarrow> profile_validation_error + unit" where
  "check_dependency ms m dep =
     (case find_selected ms dep of
        None \<Rightarrow> Inl (MissingDependency (sel_id m) dep)
      | Some d \<Rightarrow>
          (case find (\<lambda>p. p \<notin> sel_providers d) (ordered_providers (sel_providers m)) of
             None \<Rightarrow> Inr ()
           | Some p \<Rightarrow> Inl (DependencyProviderMismatch (sel_id m) dep p)))"

definition check_dependencies :: "selected_member list \<Rightarrow> profile_validation_error + unit" where
  "check_dependencies ms =
     try_for_each (\<lambda>m. try_for_each (check_dependency ms m) (cap_dependencies (sel_record m))) ms"

definition member_of :: "selected_member \<Rightarrow> compiled_member" where
  "member_of m = \<lparr>member_capability = sel_id m,
     member_fingerprint = cap_fingerprint (sel_record m),
     member_origin_key = canonical_key (cap_origin (sel_record m)),
     member_providers = sel_providers m,
     member_selection = (if intent_parent (sel_intent m) \<noteq> None then AtomicContribution
       else if intent_generic (sel_intent m) then Generic else ProviderSpecific),
     member_trust = cap_trust (sel_record m),
     member_contributed_by = intent_parent (sel_intent m)\<rparr>"

section \<open>Names and hook keys that must be unique\<close>

text \<open>
  The loop of \<open>validate_namespaces\<close> and \<open>validate_hook_conflicts\<close>: the first key that a second
  capability claims, with both.
\<close>

fun first_conflict ::
  "('k \<times> capability_id) list \<Rightarrow> ('k \<rightharpoonup> capability_id) \<Rightarrow> ('k \<times> capability_id \<times> capability_id) option" where
  "first_conflict [] names = None"
| "first_conflict ((k, i) # rest) names =
     (case names k of
        Some existing \<Rightarrow> if existing \<noteq> i then Some (k, existing, i) else first_conflict rest (names(k \<mapsto> i))
      | None \<Rightarrow> first_conflict rest (names(k \<mapsto> i)))"

definition claimed_keys ::
  "(catalog_record \<Rightarrow> 'k option) \<Rightarrow> selected_member list \<Rightarrow> ((provider_id \<times> 'k) \<times> capability_id) list" where
  "claimed_keys f ms =
     concat (map (\<lambda>m. case f (sel_record m) of None \<Rightarrow> []
        | Some k \<Rightarrow> map (\<lambda>p. ((p, k), sel_id m)) (ordered_providers (sel_providers m))) ms)"

definition validate_namespaces :: "selected_member list \<Rightarrow> profile_validation_error + unit" where
  "validate_namespaces ms =
     (case first_conflict (claimed_keys cap_tool_namespace ms) (\<lambda>_. None) of
        None \<Rightarrow> Inr ()
      | Some ((p, n), a, b) \<Rightarrow> Inl (AmbiguousToolNamespace p n a b))"

definition validate_hook_conflicts :: "selected_member list \<Rightarrow> profile_validation_error + unit" where
  "validate_hook_conflicts ms =
     (case first_conflict (claimed_keys cap_hook_conflict_key ms) (\<lambda>_. None) of
        None \<Rightarrow> Inr ()
      | Some ((p, n), a, b) \<Rightarrow> Inl (ConflictingHookPolicy p n a b))"

section \<open>Compiling\<close>

definition compiled_digest ::
  "('z) profile_env_scheme \<Rightarrow> compiled_body \<Rightarrow> profile_validation_error + string" where
  "compiled_digest E body =
     and_then (map_err ProfSerialization (compiled_json E body)) (\<lambda>bytes. Inr (stable_hash E bytes))"

definition verify_digest ::
  "('z) profile_env_scheme \<Rightarrow> compiled_revision \<Rightarrow> profile_validation_error + unit" where
  "verify_digest E r =
     and_then (compiled_digest E (compiled_body.truncate r)) (\<lambda>actual.
     ensure (actual = rev_digest r) (ProfDigestMismatch (rev_digest r) actual))"

definition gather_intents :: "profile_definition \<Rightarrow> profile_validation_error + intents" where
  "gather_intents d =
     and_then (generic_intents (def_members d) []) (all_provider_intents (def_provider_members d))"

definition check_cataloged :: "catalog \<Rightarrow> intents \<Rightarrow> profile_validation_error + unit" where
  "check_cataloged c m =
     try_for_each (\<lambda>i. ensure (catalog_get c i \<noteq> None) (MissingCapability i)) (map fst m)"

definition select_members :: "profile_definition \<Rightarrow> catalog \<Rightarrow> compile_error + selected_member list" where
  "select_members d c =
     and_then (map_err Rejected (gather_intents d)) (\<lambda>m.
     and_then (map_err Rejected (check_cataloged c m)) (\<lambda>_.
     and_then (map_err Rejected (expand_atomic m c)) (\<lambda>m.
     and_then (resolve_all c m) (\<lambda>ms.
     and_then (map_err Rejected (check_dependencies ms)) (\<lambda>_.
     and_then (map_err Rejected (validate_namespaces ms)) (\<lambda>_.
     and_then (map_err Rejected (validate_hook_conflicts ms)) (\<lambda>_.
     Inr ms)))))))"

definition body_of ::
  "profile_definition \<Rightarrow> compiled_origin \<Rightarrow> selected_member list \<Rightarrow> compiled_body" where
  "body_of d origin ms =
     \<lparr>rev_schema_version = 1, rev_profile_id = def_id d, rev_display_name = def_display_name d,
      rev_description = def_description d, rev_origin = origin, rev_members = map member_of ms,
      rev_supported = (if def_supported d = {} then \<Union> (set (map sel_providers ms)) else def_supported d),
      rev_local_review = list_ex (\<lambda>m. requires_local_review (member_trust m)) (map member_of ms)\<rparr>"

definition compile_profile ::
  "('z) profile_env_scheme \<Rightarrow> profile_definition \<Rightarrow> catalog \<Rightarrow> profile_source_scope \<Rightarrow>
     compile_error + compiled_revision" where
  "compile_profile E d c scope =
     and_then (map_err Rejected (validate_definition_shape d)) (\<lambda>_.
     and_then (map_err (Rejected \<circ> ProfSerialization) (definition_json E (normalized_definition d))) (\<lambda>bytes.
     and_then (select_members d c) (\<lambda>ms.
     (let body = body_of (normalized_definition d)
            \<lparr>source_scope = scope, definition_digest = stable_hash E bytes\<rparr> ms in
      and_then (map_err Rejected (compiled_digest E body)) (\<lambda>digest.
      Inr (compiled_body.extend body (compiled_revision.fields digest)))))))"

definition revision_supports :: "compiled_revision \<Rightarrow> provider_id \<Rightarrow> bool" where
  "revision_supports r p \<longleftrightarrow>
     (if rev_supported r = {} then list_ex (\<lambda>m. p \<in> member_providers m) (rev_members r)
      else p \<in> rev_supported r)"

definition members_for_provider :: "compiled_revision \<Rightarrow> provider_id \<Rightarrow> compiled_member list" where
  "members_for_provider r p = filter (\<lambda>m. p \<in> member_providers m) (rev_members r)"

definition selects :: "compiled_revision \<Rightarrow> capability_id \<Rightarrow> provider_id \<Rightarrow> bool" where
  "selects r i p \<longleftrightarrow> list_ex (\<lambda>m. member_capability m = i) (members_for_provider r p)"

end
