(* ===== verification/Profile_Safety.thy ===== *)
theory Profile_Safety
  imports Profile
begin

text \<open>
  What compiling a profile (\<open>profiles/model.rs\<close>) guarantees: the selection is exactly what the
  definition asks for and what atomic contributions add to it, every member stands in the catalog
  as the revision records it, dependencies and atomic groups are complete per provider, and tool
  namespaces and hook keys are unambiguous.
\<close>

section \<open>Extending maps\<close>

lemma btree_ok_extend [simp]: "btree_ok m \<Longrightarrow> btree_ok (btree_extend m es)"
  by (simp add: btree_extend_def)

lemma map_of_btree_extend_old:
  assumes "btree_ok m" "k \<notin> fst ` set es"
  shows "map_of (btree_extend m es) k = map_of m k"
  using assms unfolding btree_extend_def by (induction es arbitrary: m) auto

lemma set_btree_extend: "set (btree_extend m es) \<subseteq> set m \<union> set es"
  unfolding btree_extend_def
proof (induction es arbitrary: m)
  case (Cons e es)
  show ?case using Cons.IH [of "btree_insert (fst e) (snd e) m"]
      set_btree_insert_subset [of "fst e" "snd e" m] by auto
qed simp

lemma btree_insert_not_Nil [simp]: "btree_insert k v m \<noteq> []"
  by (cases m) auto

section \<open>What the definition asks for\<close>

definition asked_providers :: "profile_definition \<Rightarrow> capability_id \<Rightarrow> provider_id set" where
  "asked_providers d i = {p. \<exists>is. (p, is) \<in> set (def_provider_members d) \<and> i \<in> set is}"

definition asked :: "profile_definition \<Rightarrow> capability_id set" where
  "asked d = set (def_members d) \<union> (\<Union>e\<in>set (def_provider_members d). set (snd e))"

lemma intent_of_insert [simp]:
  "btree_ok m \<Longrightarrow> intent_of (btree_insert i x m) j = (if j = i then x else intent_of m j)"
  by (simp add: intent_of_def)

lemma generic_intents_ok:
  assumes "generic_intents is m = Inr m'" "btree_ok m"
  shows "btree_ok m'" "fst ` set m' = fst ` set m \<union> set is"
    "intent_of m' i = (if i \<in> set is then (intent_of m i)\<lparr>intent_generic := True\<rparr> else intent_of m i)"
  using assms
proof (induction "is" arbitrary: m)
  case (Cons j js)
  { case 1 with Cons.IH(1) show ?case by (auto simp: Let_def) }
  { case 2
    then have "generic_intents js (btree_insert j ((intent_of m j)\<lparr>intent_generic := True\<rparr>) m) = Inr m'"
      by (simp add: Let_def)
    from Cons.IH(2) [OF this] 2 show ?case by simp }
  { case 3
    then have "generic_intents js (btree_insert j ((intent_of m j)\<lparr>intent_generic := True\<rparr>) m) = Inr m'"
      by (simp add: Let_def)
    from Cons.IH(3) [OF this] 3 show ?case by simp }
qed (simp_all)

lemma provider_intents_ok:
  assumes "provider_intents p seen is m = Inr m'" "btree_ok m"
  shows "btree_ok m'" "fst ` set m' = fst ` set m \<union> set is"
    "intent_of m' i = (if i \<in> set is
       then (intent_of m i)\<lparr>intent_providers := insert p (intent_providers (intent_of m i))\<rparr>
       else intent_of m i)"
    "i \<in> set is \<Longrightarrow> \<not> intent_generic (intent_of m i)"
  using assms
proof (induction "is" arbitrary: m seen)
  case (Cons j js)
  { case 1 with Cons.IH(1) show ?case by (auto simp: Let_def) }
  { case 2
    let ?m = "btree_insert j ((intent_of m j)\<lparr>intent_providers :=
        insert p (intent_providers (intent_of m j))\<rparr>) m"
    from 2 have "provider_intents p (insert j seen) js ?m = Inr m'" by (simp add: Let_def)
    from Cons.IH(2) [OF this] 2 show ?case by simp }
  { case 3
    let ?m = "btree_insert j ((intent_of m j)\<lparr>intent_providers :=
        insert p (intent_providers (intent_of m j))\<rparr>) m"
    from 3 have "provider_intents p (insert j seen) js ?m = Inr m'" by (simp add: Let_def)
    from Cons.IH(3) [OF this] 3 show ?case by simp }
  { case 4
    let ?m = "btree_insert j ((intent_of m j)\<lparr>intent_providers :=
        insert p (intent_providers (intent_of m j))\<rparr>) m"
    from 4 have "provider_intents p (insert j seen) js ?m = Inr m'" "\<not> intent_generic (intent_of m j)"
      by (simp_all add: Let_def)
    with Cons.IH(4) [OF _ this(1)] 4 show ?case by (cases "i = j") (auto split: if_splits) }
qed simp_all

lemma all_provider_intents_ok:
  assumes "all_provider_intents pms m = Inr m'" "btree_ok m"
  shows "btree_ok m'" "fst ` set m' = fst ` set m \<union> (\<Union>e\<in>set pms. set (snd e))"
    "intent_of m' i = (intent_of m i)\<lparr>intent_providers :=
       intent_providers (intent_of m i) \<union> {p. \<exists>is. (p, is) \<in> set pms \<and> i \<in> set is}\<rparr>"
    "(p, is) \<in> set pms \<Longrightarrow> i \<in> set is \<Longrightarrow> \<not> intent_generic (intent_of m i)"
  using assms
proof (induction pms arbitrary: m)
  case (Cons e pms)
  obtain q js where e: "e = (q, js)" by (cases e)
  { case 1 with Cons.IH(1) e show ?case by (auto dest: provider_intents_ok(1)) }
  { case 2
    then obtain u where u: "provider_intents q {} js m = Inr u" "all_provider_intents pms u = Inr m'"
      using e by auto
    from Cons.IH(2) [OF u(2)] provider_intents_ok(1,2) [OF u(1)] 2 e show ?case by auto }
  { case 3
    then obtain u where u: "provider_intents q {} js m = Inr u" "all_provider_intents pms u = Inr m'"
      using e by auto
    have "btree_ok u" using provider_intents_ok(1) [OF u(1)] 3 by simp
    from Cons.IH(3) [OF u(2) this] provider_intents_ok(3) [OF u(1), of i] 3
    show ?case unfolding e
      by (intro membership_intent.equality) (simp_all, blast+) }
  { case 4
    then obtain u where u: "provider_intents q {} js m = Inr u" "all_provider_intents pms u = Inr m'"
      using e by auto
    have "btree_ok u" using provider_intents_ok(1) [OF u(1)] 4 by simp
    with Cons.IH(4) [OF _ _ u(2)] provider_intents_ok(3,4) [OF u(1), of i] 4 e
    show ?case by (auto split: if_splits) }
qed (simp_all)

lemma gather_intents_ok:
  assumes "gather_intents d = Inr m"
  shows "btree_ok m" "fst ` set m = asked d"
    "intent_of m i = \<lparr>intent_generic = i \<in> set (def_members d), intent_providers = asked_providers d i,
       intent_parent = None\<rparr>"
    "i \<in> set (def_members d) \<Longrightarrow> asked_providers d i = {}"
proof -
  obtain u where u: "generic_intents (def_members d) [] = Inr u"
    "all_provider_intents (def_provider_members d) u = Inr m"
    using assms by (auto simp: gather_intents_def)
  note g = generic_intents_ok [OF u(1), simplified]
  note a = all_provider_intents_ok [OF u(2) g(1)]
  have u_i: "intent_of u i = \<lparr>intent_generic = i \<in> set (def_members d), intent_providers = {},
      intent_parent = None\<rparr>" for i
    using g(3) [of i] by (simp add: intent_of_def no_intent_def)
  show "btree_ok m" by (rule a(1))
  show "fst ` set m = asked d" using a(2) g(2) by (simp add: asked_def)
  show "intent_of m i = \<lparr>intent_generic = i \<in> set (def_members d), intent_providers = asked_providers d i,
       intent_parent = None\<rparr>"
    using a(3) [of i] by (simp add: u_i asked_providers_def)
  show "i \<in> set (def_members d) \<Longrightarrow> asked_providers d i = {}"
    using a(4) [of _ _ i] by (auto simp: u_i asked_providers_def)
qed

section \<open>What the atomic contributions add\<close>

definition child_intent :: "capability_id \<Rightarrow> membership_intent \<Rightarrow> membership_intent" where
  "child_intent parent pi = \<lparr>intent_generic = intent_generic pi,
     intent_providers = intent_providers pi, intent_parent = Some parent\<rparr>"

text \<open>An atomic group is selected as a whole, with the intent of its parent, or not at all.\<close>

definition atomic_complete :: "intents \<Rightarrow> catalog_record \<Rightarrow> bool" where
  "atomic_complete m r \<longleftrightarrow>
     (\<forall>child\<in>set (atomic_children r). map_of m child =
        map_option (child_intent (cap_id r)) (map_of m (cap_id r)))"

text \<open>An entry that the expansion added comes from a selected parent.\<close>

definition contributed :: "catalog_record list \<Rightarrow> intents \<Rightarrow> capability_id \<Rightarrow> membership_intent \<Rightarrow> bool" where
  "contributed rs m i intent \<longleftrightarrow>
     (\<exists>r\<in>set rs. \<exists>pi. i \<in> set (atomic_children r) \<and> map_of m (cap_id r) = Some pi \<and>
        intent = child_intent (cap_id r) pi)"

lemma request_children_adds:
  assumes "request_children parent pi m children pending = Inr pending'"
  shows "set pending' \<subseteq> set pending \<union> {(i, child_intent parent pi) |i. i \<in> set children \<and> map_of m i = None}"
  using assms
proof (induction children arbitrary: pending)
  case (Cons child children)
  show ?case
  proof (cases "map_of m child")
    case None
    with Cons.prems have "request_children parent pi m children
        (btree_insert child (child_intent parent pi) pending) = Inr pending'"
      by (auto simp: child_intent_def split: if_splits)
    from Cons.IH [OF this] None set_btree_insert_subset [of child "child_intent parent pi" pending]
    show ?thesis by auto
  next
    case (Some ci)
    with Cons.prems have "request_children parent pi m children pending = Inr pending'"
      by (auto split: if_splits)
    from Cons.IH [OF this] show ?thesis by auto
  qed
qed simp

lemma request_children_done:
  assumes "request_children parent pi m children pending = Inr []"
  shows "pending = [] \<and> (\<forall>child\<in>set children. map_of m child = Some (child_intent parent pi))"
  using assms
proof (induction children arbitrary: pending)
  case (Cons child children)
  show ?case
  proof (cases "map_of m child")
    case None
    with Cons.prems obtain x where
      "request_children parent pi m children (btree_insert child x pending) = Inr []"
      by (auto split: if_splits)
    from Cons.IH [OF this] show ?thesis by simp
  next
    case (Some ci)
    with Cons.prems have "request_children parent pi m children pending = Inr []"
      "ci = child_intent parent pi"
      by (auto simp: child_intent_def split: if_splits)
    with Cons.IH [OF this(1)] Some show ?thesis by simp
  qed
qed simp

lemma expand_round_cases:
  assumes "expand_round m (parent # parents) pending = Inr pending'"
  obtains (skip) "expand_round m parents pending = Inr pending'"
      "\<forall>child\<in>set (atomic_children parent). map_of m (cap_id parent) = None \<and> map_of m child = None"
  | (request) pi mid where "map_of m (cap_id parent) = Some pi"
      "request_children (cap_id parent) pi m (atomic_children parent) pending = Inr mid"
      "expand_round m parents mid = Inr pending'"
proof (cases "atomic_children parent = []")
  case True
  with assms skip show thesis by simp
next
  case False
  show thesis
  proof (cases "map_of m (cap_id parent)")
    case None
    with assms False skip show thesis by (auto simp: Let_def find_None_iff split: option.splits)
  next
    case (Some pi)
    with assms False request show thesis by (auto simp: Let_def)
  qed
qed

lemma expand_round_adds:
  assumes "expand_round m rs pending = Inr pending'" "(i, x) \<in> set pending'"
  shows "(i, x) \<in> set pending \<or> map_of m i = None \<and> contributed rs m i x"
  using assms
proof (induction rs arbitrary: pending)
  case (Cons r rs)
  from Cons.prems(1) show ?case
  proof (cases rule: expand_round_cases)
    case skip
    with Cons.IH [OF skip(1) Cons.prems(2)] show ?thesis by (auto simp: contributed_def)
  next
    case (request pi mid)
    with Cons.IH [OF request(3) Cons.prems(2)] request_children_adds [OF request(2)]
    show ?thesis by (auto simp: contributed_def)
  qed
qed simp

lemma expand_round_done:
  assumes "expand_round m rs pending = Inr []"
  shows "pending = [] \<and> (\<forall>r\<in>set rs. atomic_complete m r)"
  using assms
proof (induction rs arbitrary: pending)
  case (Cons r rs)
  from Cons.prems show ?case
  proof (cases rule: expand_round_cases)
    case skip
    with Cons.IH [OF skip(1)] show ?thesis by (auto simp: atomic_complete_def)
  next
    case (request pi mid)
    with Cons.IH [OF request(3)] request_children_done [of "cap_id r" pi m "atomic_children r" pending]
    show ?thesis by (auto simp: atomic_complete_def)
  qed
qed simp

lemma contributed_mono:
  "contributed rs m i x \<Longrightarrow> (\<And>k y. map_of m k = Some y \<Longrightarrow> map_of n k = Some y) \<Longrightarrow> contributed rs n i x"
  by (auto simp: contributed_def)

text \<open>
  The whole expansion: what was selected stays as it was, what is new was contributed by a selected
  parent, and every atomic group of the catalog is complete.
\<close>

lemma expand_atomic_ok:
  assumes "expand_atomic m c = Inr n" "btree_ok m"
  shows "btree_ok n"
    "map_of m i = Some x \<Longrightarrow> map_of n i = Some x"
    "map_of n i = Some x \<Longrightarrow> map_of m i = Some x \<or> contributed (catalog_records c) n i x"
    "\<forall>r\<in>set (catalog_records c). atomic_complete n r"
proof -
  have "btree_ok n \<and> (\<forall>i x. map_of m i = Some x \<longrightarrow> map_of n i = Some x) \<and>
    (\<forall>i x. map_of n i = Some x \<longrightarrow> map_of m i = Some x \<or> contributed (catalog_records c) n i x) \<and>
    (\<forall>r\<in>set (catalog_records c). atomic_complete n r)"
    using assms
  proof (induction m c rule: expand_atomic.induct)
    case (1 m c)
    from "1.prems"(1) obtain pending where pending: "expand_round m (catalog_records c) [] = Inr pending"
      "(if pending = [] then Inr m else expand_atomic (btree_extend m pending) c) = Inr n"
      by (subst (asm) expand_atomic.simps) (auto split: sum.splits)
    show ?case
    proof (cases "pending = []")
      case True
      with pending "1.prems"(2) expand_round_done show ?thesis by auto
    next
      case False
      let ?e = "btree_extend m pending"
      from False pending have step: "expand_atomic ?e c = Inr n" by simp
      note IH = "1.IH" [OF pending(1) False step btree_ok_extend [OF "1.prems"(2)]]
      have adds: "map_of m i = None \<and> contributed (catalog_records c) m i x" if "(i, x) \<in> set pending" for i x
        using expand_round_adds [OF pending(1) that] by simp
      have old: "map_of ?e i = Some x" if "map_of m i = Some x" for i x
      proof -
        have "i \<notin> fst ` set pending" using adds that by fastforce
        with that "1.prems"(2) show ?thesis by (simp add: map_of_btree_extend_old)
      qed
      then have keep: "map_of n i = Some x" if "map_of m i = Some x" for i x using IH that by blast
      have new: "map_of m i = Some x \<or> contributed (catalog_records c) n i x"
        if "map_of ?e i = Some x" for i x
      proof -
        have "(i, x) \<in> set m \<union> set pending"
          using map_of_SomeD [OF that] set_btree_extend by blast
        then show ?thesis
        proof
          assume "(i, x) \<in> set m"
          then show ?thesis using "1.prems"(2) by (simp add: btree_ok_distinct)
        next
          assume "(i, x) \<in> set pending"
          with adds contributed_mono keep show ?thesis by blast
        qed
      qed
      from IH keep new show ?thesis by blast
    qed
  qed
  then show "btree_ok n" "map_of m i = Some x \<Longrightarrow> map_of n i = Some x"
    "map_of n i = Some x \<Longrightarrow> map_of m i = Some x \<or> contributed (catalog_records c) n i x"
    "\<forall>r\<in>set (catalog_records c). atomic_complete n r" by blast+
qed

section \<open>What the resolved members satisfy\<close>

lemma resolve_all_ok:
  assumes "resolve_all c es = Inr ms"
  shows "map (\<lambda>m. (sel_id m, sel_intent m)) ms = es"
    "\<forall>m\<in>set ms. catalog_get c (sel_id m) = Some (sel_record m) \<and>
       resolve_member_providers (sel_id m) (sel_intent m) (sel_record m) = Inr (sel_providers m)"
  using assms by (induction c es arbitrary: ms rule: resolve_all.induct) fastforce+

lemma resolve_all_not_panic:
  assumes "\<forall>e\<in>set es. catalog_get c (fst e) \<noteq> None"
  shows "resolve_all c es \<noteq> Inl Panic"
  using assms
proof (induction c es rule: resolve_all.induct)
  case (2 c i intent rest)
  then obtain r where r: "catalog_get c i = Some r" by auto
  show ?case
  proof (cases "resolve_member_providers i intent r")
    case (Inl e)
    with r show ?thesis by simp
  next
    case (Inr ps)
    with r "2.IH" [of r ps] "2.prems" show ?thesis by (auto simp: and_then_err)
  qed
qed simp

lemma set_ordered_providers [simp]: "set (ordered_providers ps) = ps"
  by (auto simp: ordered_providers_def all_providers_set)

lemma resolve_member_providers_ok:
  "resolve_member_providers i intent r = Inr ps \<longleftrightarrow>
     ps = (if intent_generic intent then set (map view_provider (cap_views r)) else intent_providers intent) \<and>
     ps \<noteq> {} \<and> list_all (supports_provider r) (ordered_providers ps)"
  by (auto simp: resolve_member_providers_def Let_def try_for_each_ok list_all_iff)

lemma find_selected_Some: "find_selected ms i = Some m \<Longrightarrow> m \<in> set ms \<and> sel_id m = i"
  by (auto simp: find_selected_def find_Some_iff)

lemma check_dependencies_ok:
  assumes "check_dependencies ms = Inr u" "m \<in> set ms" "dep \<in> set (cap_dependencies (sel_record m))"
  shows "\<exists>d\<in>set ms. sel_id d = dep \<and> sel_providers m \<subseteq> sel_providers d"
proof -
  have "check_dependency ms m dep = Inr ()"
    using assms by (auto simp: check_dependencies_def try_for_each_ok)
  then obtain d where d: "find_selected ms dep = Some d"
    "find (\<lambda>p. p \<notin> sel_providers d) (ordered_providers (sel_providers m)) = None"
    by (auto simp: check_dependency_def split: option.splits)
  with find_selected_Some show ?thesis by (fastforce simp: find_None_iff)
qed

lemma first_conflict_None:
  assumes "first_conflict es names = None" "(k, i) \<in> set es"
  shows "names k \<in> {None, Some i}" "(k, j) \<in> set es \<Longrightarrow> i = j"
proof -
  have "names k \<in> {None, Some i} \<and> ((k, j) \<in> set es \<longrightarrow> i = j)"
    if "first_conflict es names = None" "(k, i) \<in> set es" for i j names
    using that
    by (induction es names arbitrary: i j rule: first_conflict.induct)
      (fastforce split: option.splits if_splits)+
  with assms show "names k \<in> {None, Some i}" "(k, j) \<in> set es \<Longrightarrow> i = j" by blast+
qed

lemma in_claimed_keys:
  "((p, k), i) \<in> set (claimed_keys f ms) \<longleftrightarrow>
     (\<exists>m\<in>set ms. f (sel_record m) = Some k \<and> p \<in> sel_providers m \<and> i = sel_id m)"
  unfolding claimed_keys_def by (force split: option.splits)

text \<open>No two selected members claim the same key for the same provider.\<close>

definition unambiguous :: "(catalog_record \<Rightarrow> 'k option) \<Rightarrow> selected_member list \<Rightarrow> bool" where
  "unambiguous f ms \<longleftrightarrow>
     (\<forall>m\<in>set ms. \<forall>n\<in>set ms. f (sel_record m) \<noteq> None \<and> f (sel_record m) = f (sel_record n) \<and>
        sel_providers m \<inter> sel_providers n \<noteq> {} \<longrightarrow> sel_id m = sel_id n)"

lemma unambiguousI:
  assumes "first_conflict (claimed_keys f ms) (\<lambda>_. None) = None"
  shows "unambiguous f ms"
  unfolding unambiguous_def
proof (intro ballI impI, elim conjE)
  fix m n
  assume m: "m \<in> set ms" "n \<in> set ms" "f (sel_record m) \<noteq> None" "f (sel_record m) = f (sel_record n)"
    "sel_providers m \<inter> sel_providers n \<noteq> {}"
  then obtain k p where k: "f (sel_record m) = Some k" "f (sel_record n) = Some k"
    "p \<in> sel_providers m" "p \<in> sel_providers n" by auto
  with m have "((p, k), sel_id m) \<in> set (claimed_keys f ms)" "((p, k), sel_id n) \<in> set (claimed_keys f ms)"
    unfolding in_claimed_keys by blast+
  with assms show "sel_id m = sel_id n" by (rule first_conflict_None(2))
qed

lemma validate_namespaces_ok: "validate_namespaces ms = Inr u \<Longrightarrow> unambiguous cap_tool_namespace ms"
  by (rule unambiguousI) (simp add: validate_namespaces_def split: option.splits prod.splits)

lemma validate_hook_conflicts_ok:
  "validate_hook_conflicts ms = Inr u \<Longrightarrow> unambiguous cap_hook_conflict_key ms"
  by (rule unambiguousI) (simp add: validate_hook_conflicts_def split: option.splits prod.splits)

lemma select_members_ok:
  assumes "select_members d c = Inr ms"
  obtains m n where "gather_intents d = Inr m" "expand_atomic m c = Inr n" "resolve_all c n = Inr ms"
    "check_dependencies ms = Inr ()" "unambiguous cap_tool_namespace ms"
    "unambiguous cap_hook_conflict_key ms"
  using assms validate_namespaces_ok validate_hook_conflicts_ok unfolding select_members_def
  by (auto simp: old.unit.exhaust)

section \<open>What a compiled revision promises\<close>

definition member_as_asked ::
  "profile_definition \<Rightarrow> catalog \<Rightarrow> capability_id set \<Rightarrow> compiled_member \<Rightarrow> bool" where
  "member_as_asked d c selected m \<longleftrightarrow>
     (case member_contributed_by m of
        None \<Rightarrow>
          if member_capability m \<in> set (def_members d) then member_selection m = Generic
          else member_selection m = ProviderSpecific \<and>
            member_providers m = asked_providers d (member_capability m)
      | Some p \<Rightarrow> member_selection m = AtomicContribution \<and> p \<in> selected \<and>
          (\<exists>r\<in>set (catalog_records c). cap_id r = p \<and> member_capability m \<in> set (atomic_children r)))"

definition selection_as_asked :: "profile_definition \<Rightarrow> catalog \<Rightarrow> compiled_member list \<Rightarrow> bool" where
  "selection_as_asked d c ms \<longleftrightarrow>
     sorted_wrt (<) (map member_capability ms) \<and>
     member_capability ` {m \<in> set ms. member_contributed_by m = None} = asked d \<and>
     list_all (member_as_asked d c (member_capability ` set ms)) ms"

text \<open>The member is what the catalog says, and only for providers that have a view of it.\<close>

definition member_faithful :: "catalog \<Rightarrow> compiled_member \<Rightarrow> bool" where
  "member_faithful c m \<longleftrightarrow>
     (case catalog_get c (member_capability m) of
        None \<Rightarrow> False
      | Some r \<Rightarrow> member_fingerprint m = cap_fingerprint r \<and>
          member_origin_key m = canonical_key (cap_origin r) \<and> member_trust m = cap_trust r \<and>
          member_providers m \<noteq> {} \<and> list_all (supports_provider r) (ordered_providers (member_providers m)))"

definition dependencies_met :: "catalog \<Rightarrow> compiled_member list \<Rightarrow> compiled_member \<Rightarrow> bool" where
  "dependencies_met c ms m \<longleftrightarrow>
     (case catalog_get c (member_capability m) of
        None \<Rightarrow> False
      | Some r \<Rightarrow> \<forall>dep\<in>set (cap_dependencies r).
          \<exists>n\<in>set ms. member_capability n = dep \<and> member_providers m \<subseteq> member_providers n)"

definition groups_whole :: "catalog \<Rightarrow> compiled_member list \<Rightarrow> bool" where
  "groups_whole c ms \<longleftrightarrow>
     (\<forall>r\<in>set (catalog_records c). \<forall>child\<in>set (atomic_children r).
        (cap_id r \<in> member_capability ` set ms \<longleftrightarrow> child \<in> member_capability ` set ms) \<and>
        (\<forall>n\<in>set ms. member_capability n = child \<longrightarrow> member_contributed_by n = Some (cap_id r)))"

definition keys_unique :: "catalog \<Rightarrow> (catalog_record \<Rightarrow> 'k option) \<Rightarrow> compiled_member list \<Rightarrow> bool" where
  "keys_unique c f ms \<longleftrightarrow>
     (let key = (\<lambda>m. Option.bind (catalog_get c (member_capability m)) f) in
      \<forall>m\<in>set ms. \<forall>n\<in>set ms. key m \<noteq> None \<and> key m = key n \<and>
        member_providers m \<inter> member_providers n \<noteq> {} \<longrightarrow> member_capability m = member_capability n)"

lemma member_of_sel [simp]:
  "member_capability (member_of m) = sel_id m"
  "member_providers (member_of m) = sel_providers m"
  "member_contributed_by (member_of m) = intent_parent (sel_intent m)"
  "member_fingerprint (member_of m) = cap_fingerprint (sel_record m)"
  "member_origin_key (member_of m) = canonical_key (cap_origin (sel_record m))"
  "member_trust (member_of m) = cap_trust (sel_record m)"
  by (simp_all add: member_of_def)

lemma intent_of_Some: "map_of m i = Some x \<Longrightarrow> intent_of m i = x"
  by (simp add: intent_of_def)

text \<open>The final intents and the members they were resolved to are the same map.\<close>

lemma resolved_map:
  assumes "resolve_all c n = Inr ms" "btree_ok n"
  shows "map_of n i = Some x \<longleftrightarrow> (\<exists>m\<in>set ms. sel_id m = i \<and> sel_intent m = x)"
    "sel_id ` set ms = fst ` set n" "map sel_id ms = map fst n"
proof -
  note es = resolve_all_ok(1) [OF assms(1), symmetric]
  have "map_of n i = Some x \<longleftrightarrow> (i, x) \<in> set n"
    using assms(2) by (simp add: btree_ok_distinct)
  then show "map_of n i = Some x \<longleftrightarrow> (\<exists>m\<in>set ms. sel_id m = i \<and> sel_intent m = x)"
    by (auto simp: es)
  show "map sel_id ms = map fst n" by (simp add: es)
  then show "sel_id ` set ms = fst ` set n" by (metis image_set)
qed

lemma selection_is_asked:
  assumes "select_members d c = Inr ms"
  shows "selection_as_asked d c (map member_of ms)"
proof -
  obtain m n where mn: "gather_intents d = Inr m" "expand_atomic m c = Inr n" "resolve_all c n = Inr ms"
    using assms by (rule select_members_ok)
  note g = gather_intents_ok [OF mn(1)]
  note e = expand_atomic_ok [OF mn(2) g(1)]
  note r = resolved_map [OF mn(3) e(1)]
  have old: "x = \<lparr>intent_generic = i \<in> set (def_members d), intent_providers = asked_providers d i,
      intent_parent = None\<rparr>" if "map_of m i = Some x" for i x
    using g(3) [of i] intent_of_Some [OF that] by simp
  have kept: "\<exists>s\<in>set ms. sel_id s = i \<and> intent_parent (sel_intent s) = None" if "i \<in> asked d" for i
  proof -
    from that g(2) obtain x where x: "map_of m i = Some x"
      using map_of_eq_None_iff [of m i] by (cases "map_of m i") auto
    with e(2) r(1) old [OF x] show ?thesis by fastforce
  qed
  have origin: "if intent_parent (sel_intent s) = None
      then sel_id s \<in> asked d \<and> sel_intent s = \<lparr>intent_generic = sel_id s \<in> set (def_members d),
        intent_providers = asked_providers d (sel_id s), intent_parent = None\<rparr>
      else \<exists>rec\<in>set (catalog_records c). intent_parent (sel_intent s) = Some (cap_id rec) \<and>
        sel_id s \<in> set (atomic_children rec) \<and> cap_id rec \<in> sel_id ` set ms"
    if s: "s \<in> set ms" for s
  proof -
    from s r(1) have "map_of n (sel_id s) = Some (sel_intent s)" by blast
    from e(3) [OF this] show ?thesis
    proof
      assume a: "map_of m (sel_id s) = Some (sel_intent s)"
      then have "sel_id s \<in> asked d" using g(2) by (force dest: map_of_SomeD)
      with old [OF a] show ?thesis by simp
    next
      assume "contributed (catalog_records c) n (sel_id s) (sel_intent s)"
      with r(1) show ?thesis unfolding contributed_def child_intent_def by force
    qed
  qed
  have sorted: "sorted_wrt (<) (map sel_id ms)" using e(1) r(3) by (simp add: btree_ok_def)
  have providers: "sel_providers s = asked_providers d (sel_id s)"
    if "s \<in> set ms" "intent_parent (sel_intent s) = None" "sel_id s \<notin> set (def_members d)" for s
    using resolve_all_ok(2) [OF mn(3)] that origin [OF that(1)]
    by (auto simp: resolve_member_providers_ok split: if_splits)
  have "sel_id ` {s \<in> set ms. intent_parent (sel_intent s) = None} = asked d"
    using origin kept by fastforce
  moreover have "member_capability ` {m \<in> set (map member_of ms). member_contributed_by m = None} =
      sel_id ` {s \<in> set ms. intent_parent (sel_intent s) = None}" by force
  moreover have "member_as_asked d c (sel_id ` set ms) (member_of s)" if "s \<in> set ms" for s
    using origin [OF that] providers [OF that]
    by (cases "intent_parent (sel_intent s)") (auto simp: member_as_asked_def member_of_def)
  moreover have "member_capability ` set (map member_of ms) = sel_id ` set ms" by force
  ultimately show ?thesis
    using sorted unfolding selection_as_asked_def by (simp add: comp_def list_all_iff)
qed

lemma groups_are_whole:
  assumes "expand_atomic m c = Inr n" "btree_ok m" "resolve_all c n = Inr ms"
  shows "groups_whole c (map member_of ms)"
proof -
  note e = expand_atomic_ok [OF assms(1,2)]
  note r = resolved_map [OF assms(3) e(1)]
  have keys: "i \<in> sel_id ` set ms \<longleftrightarrow> map_of n i \<noteq> None" for i
    by (simp add: r(2) map_of_eq_None_iff)
  have "(cap_id rec \<in> sel_id ` set ms \<longleftrightarrow> child \<in> sel_id ` set ms) \<and>
      (\<forall>s\<in>set ms. sel_id s = child \<longrightarrow> intent_parent (sel_intent s) = Some (cap_id rec))"
    if "rec \<in> set (catalog_records c)" "child \<in> set (atomic_children rec)" for rec child
  proof -
    from e(4) that have child: "map_of n child = map_option (child_intent (cap_id rec)) (map_of n (cap_id rec))"
      unfolding atomic_complete_def by blast
    moreover have "intent_parent (sel_intent s) = Some (cap_id rec)" if "s \<in> set ms" "sel_id s = child" for s
    proof -
      from that r(1) have "map_of n child = Some (sel_intent s)" by blast
      with child show ?thesis
        by (cases "map_of n (cap_id rec)") (simp_all add: child_intent_def)
    qed
    ultimately show ?thesis by (simp add: keys)
  qed
  moreover have "member_capability ` set (map member_of ms) = sel_id ` set ms" by force
  ultimately show ?thesis unfolding groups_whole_def by simp
qed

lemma keys_are_unique:
  assumes "unambiguous f ms" "\<forall>m\<in>set ms. catalog_get c (sel_id m) = Some (sel_record m)"
  shows "keys_unique c f (map member_of ms)"
  using assms by (auto simp: keys_unique_def unambiguous_def Let_def)

lemma selected_members_sound:
  assumes "select_members d c = Inr ms"
  shows "list_all (member_faithful c) (map member_of ms)"
    "list_all (dependencies_met c (map member_of ms)) (map member_of ms)"
    "groups_whole c (map member_of ms)"
    "keys_unique c cap_tool_namespace (map member_of ms)"
    "keys_unique c cap_hook_conflict_key (map member_of ms)"
proof -
  obtain m n where mn: "gather_intents d = Inr m" "expand_atomic m c = Inr n" "resolve_all c n = Inr ms"
    "check_dependencies ms = Inr ()" "unambiguous cap_tool_namespace ms"
    "unambiguous cap_hook_conflict_key ms"
    using assms by (rule select_members_ok)
  note r = resolve_all_ok(2) [OF mn(3)]
  then show "list_all (member_faithful c) (map member_of ms)"
    by (auto simp: list_all_iff member_faithful_def resolve_member_providers_ok)
  show "list_all (dependencies_met c (map member_of ms)) (map member_of ms)"
    using r check_dependencies_ok [OF mn(4)]
    by (fastforce simp: list_all_iff dependencies_met_def)
  show "groups_whole c (map member_of ms)"
    using mn(2) gather_intents_ok(1) [OF mn(1)] mn(3) by (rule groups_are_whole)
  show "keys_unique c cap_tool_namespace (map member_of ms)"
    using mn(5) r by (blast intro: keys_are_unique)
  show "keys_unique c cap_hook_conflict_key (map member_of ms)"
    using mn(6) r by (blast intro: keys_are_unique)
qed

lemma compile_profile_ok:
  assumes "compile_profile E d c scope = Inr r"
  obtains ms where "select_members d c = Inr ms" "rev_members r = map member_of ms"
    "rev_local_review r = list_ex (\<lambda>m. requires_local_review (member_trust m)) (rev_members r)"
    "rev_supported r = (if def_supported d = {} then \<Union> (member_providers ` set (rev_members r))
       else def_supported d)"
    "verify_digest E r = Inr ()"
  using assms unfolding compile_profile_def
  by (auto simp: Let_def body_of_def verify_digest_def compiled_body.defs compiled_revision.defs
      normalized_definition_def image_image)

section \<open>Properties\<close>

text \<open>
  C16: A compiled profile selects exactly what its definition asks for and what atomic contributions
  add: the members not contributed by another are the asked ones, a generic or provider-specific
  member is marked as such and a provider-specific one goes to exactly the providers that ask for
  it, every other member is an atomic child of a selected member, and the members come in id order.
\<close>

theorem compiled_profile_selects_what_was_asked:
  "case compile_profile E d c scope of
     Inl _ \<Rightarrow> True
   | Inr r \<Rightarrow> selection_as_asked d c (rev_members r)"
proof (cases "compile_profile E d c scope")
  case (Inr r)
  then obtain ms where "select_members d c = Inr ms" "rev_members r = map member_of ms"
    by (rule compile_profile_ok)
  with selection_is_asked Inr show ?thesis by simp
qed simp

text \<open>
  C15: A compiled profile is sound: every member agrees with its catalog record (fingerprint, origin,
  trust) and goes only to providers with a view of it, every dependency is selected for the
  same providers, atomic groups are selected whole or not at all and always through their parent,
  no two members share a tool namespace or a hook key for one provider, local review is
  required exactly when a member requires it, and the digest verifies.
\<close>

theorem compiled_profile_is_sound:
  "case compile_profile E d c scope of
     Inl _ \<Rightarrow> True
   | Inr r \<Rightarrow> list_all (member_faithful c) (rev_members r) \<and>
       list_all (dependencies_met c (rev_members r)) (rev_members r) \<and>
       groups_whole c (rev_members r) \<and>
       keys_unique c cap_tool_namespace (rev_members r) \<and>
       keys_unique c cap_hook_conflict_key (rev_members r) \<and>
       rev_local_review r = list_ex (\<lambda>m. requires_local_review (member_trust m)) (rev_members r) \<and>
       verify_digest E r = Inr ()"
proof (cases "compile_profile E d c scope")
  case (Inr r)
  then obtain ms where ms: "select_members d c = Inr ms" "rev_members r = map member_of ms"
    "rev_local_review r = list_ex (\<lambda>m. requires_local_review (member_trust m)) (rev_members r)"
    "verify_digest E r = Inr ()"
    by (rule compile_profile_ok)
  show ?thesis
    using selected_members_sound [OF ms(1)] ms(3,4) unfolding ms(2) [symmetric] Inr sum.case
    by (intro conjI) assumption+
qed simp

section \<open>When the expectation of the catalog holds\<close>

lemma map_err_not_panic [simp]:
  "map_err Rejected r \<noteq> Inl Panic" "map_err (Rejected \<circ> f) q \<noteq> Inl Panic"
  by (cases r; simp) (cases q; simp)

lemma atomic_children_cataloged:
  assumes "contributions_closed c" "r \<in> set (catalog_records c)" "i \<in> set (atomic_children r)"
  shows "catalog_get c i \<noteq> None"
proof -
  from assms obtain k where "(k, r) \<in> set (records c)" by (auto simp: catalog_records_def)
  with assms(1,3) have "i \<in> fst ` set (records c)"
    by (auto simp: contributions_closed_def atomic_children_def)
  then show ?thesis by (simp add: catalog_get_def map_of_eq_None_iff)
qed

lemma select_members_not_panic:
  assumes "contributions_closed c"
  shows "select_members d c \<noteq> Inl Panic"
proof
  assume "select_members d c = Inl Panic"
  then obtain m n where mn: "gather_intents d = Inr m" "check_cataloged c m = Inr ()"
    "expand_atomic m c = Inr n" "resolve_all c n = Inl Panic"
    by (auto simp: select_members_def and_then_err)
  note e = expand_atomic_ok [OF mn(3) gather_intents_ok(1) [OF mn(1)]]
  have "catalog_get c (fst x) \<noteq> None" if "x \<in> set n" for x
  proof -
    have "map_of n (fst x) = Some (snd x)" using that e(1) by (simp add: btree_ok_distinct)
    from e(3) [OF this] show ?thesis
    proof
      assume "map_of m (fst x) = Some (snd x)"
      then have "fst x \<in> fst ` set m" by (force dest: map_of_SomeD)
      with mn(2) show ?thesis by (auto simp: check_cataloged_def try_for_each_ok)
    next
      assume "contributed (catalog_records c) n (fst x) (snd x)"
      with atomic_children_cataloged [OF assms] show ?thesis unfolding contributed_def by blast
    qed
  qed
  then have "resolve_all c n \<noteq> Inl Panic" by (intro resolve_all_not_panic ballI) simp
  with mn(4) show False by simp
qed

text \<open>
  C17: Compiling any profile against any catalog that discovery built returns: the capability that
  \<open>compile_profile\<close> expects in the catalog is there, also when it was pulled in as an atomic
  contribution, so the \<open>expect\<close> never panics.
\<close>

theorem discovered_catalogs_compile_without_panic:
  "case from_discovery H items of
     Inl _ \<Rightarrow> True
   | Inr c \<Rightarrow> compile_profile E d c scope \<noteq> Inl Panic"
proof (cases "from_discovery H items")
  case (Inr c)
  then have "contributions_closed c" by (rule from_discovery_closed)
  from select_members_not_panic [OF this] Inr show ?thesis
    by (auto simp: compile_profile_def and_then_err Let_def)
qed simp

section \<open>How long the expansion runs\<close>

text \<open>The loop with a bound on the rounds it may take.\<close>

fun expand_within ::
  "nat \<Rightarrow> intents \<Rightarrow> catalog \<Rightarrow> (profile_validation_error + intents) option" where
  "expand_within 0 m c = None"
| "expand_within (Suc k) m c =
     (case expand_round m (catalog_records c) [] of
        Inl e \<Rightarrow> Some (Inl e)
      | Inr pending \<Rightarrow>
          if pending = [] then Some (Inr m) else expand_within k (btree_extend m pending) c)"

lemma expand_within_enough:
  "card (all_children c - fst ` set m) < k \<Longrightarrow> expand_within k m c = Some (expand_atomic m c)"
proof (induction k arbitrary: m)
  case (Suc k)
  show ?case
  proof (cases "expand_round m (catalog_records c) []")
    case (Inl e)
    then show ?thesis by (simp add: expand_atomic.simps)
  next
    case (Inr pending)
    have "expand_within k (btree_extend m pending) c = Some (expand_atomic (btree_extend m pending) c)"
      if "pending \<noteq> []"
      using expand_round_shrinks [OF Inr that] Suc by simp
    with Inr show ?thesis by (simp add: expand_atomic.simps [of m c])
  qed
qed simp

text \<open>
  C18: The loop that pulls in atomic contributions ends, and after at most one round more than the
  catalog names atomic children: each round that goes on selects a child that was not selected.
\<close>

theorem atomic_expansion_ends:
  "expand_within (Suc (card (all_children c))) m c = Some (expand_atomic m c)"
proof (rule expand_within_enough)
  have "card (all_children c - fst ` set m) \<le> card (all_children c)"
    by (rule card_mono) (auto simp: all_children_def)
  then show "card (all_children c - fst ` set m) < Suc (card (all_children c))" by simp
qed

section \<open>A catalog with a dangling contribution\<close>

definition dangling_record :: catalog_record where
  "dangling_record = \<lparr>cap_id = ''plugin'', cap_kind = KPlugin, cap_display_name = ''plugin'',
     cap_origin = \<lparr>canonical_key = ''k'', origin_source_path = ''s'', origin_state_path = ''s'',
       origin_scope = ScopeGlobal, origin_source_fingerprint = None\<rparr>,
     cap_ownership = OwnUser, cap_fingerprint = ''f'', cap_lifecycle = discovered True,
     cap_evidence = \<lparr>observation = ''o'', observed_enabled = True\<rparr>,
     cap_trust = \<lparr>executable_review = False, network_review = False, credential_authorization = False\<rparr>,
     cap_views = [\<lparr>view_provider = Claude, view_discovery_id = ''plugin'', view_layer = GlobalLayer,
       view_enabled = True, view_mutability = CapReadWrite, view_source_path = ''s'',
       view_state_path = ''s'', view_source_fingerprint = None\<rparr>],
     cap_dependencies = [], cap_contributions = [\<lparr>edge_capability = ''skill'', edge_control = Atomic\<rparr>],
     cap_contributed_by = None, cap_atomic_unknown = False, cap_tool_namespace = None,
     cap_hook_conflict_key = None\<rparr>"

definition dangling_definition :: profile_definition where
  "dangling_definition = \<lparr>def_version = 1, def_id = ''p'', def_display_name = ''p'', def_description = None,
     def_members = [''plugin''], def_provider_members = [], def_supported = {}\<rparr>"

lemma dangling_shape: "validate_definition_shape dangling_definition = Inr ()"
  by code_simp

lemma dangling_selection:
  "case from_records [dangling_record] of Inl _ \<Rightarrow> False
   | Inr c \<Rightarrow> (case select_members dangling_definition c of Inl Panic \<Rightarrow> True | _ \<Rightarrow> False)"
  by code_simp

text \<open>
  C20: A catalog that \<open>from_records\<close> accepts can make \<open>compile_profile\<close> panic: a record may have an
  atomic contribution that is not in the catalog. The members of the definition are checked, the
  child that the expansion selects is not, and the \<open>expect\<close> on its record fails.
\<close>

theorem dangling_contribution_panics:
  "case from_records [dangling_record] of
     Inl _ \<Rightarrow> False
   | Inr c \<Rightarrow> (case definition_json E (normalized_definition dangling_definition) of
        Inl _ \<Rightarrow> True
      | Inr _ \<Rightarrow> compile_profile E dangling_definition c scope = Inl Panic)"
proof (cases "from_records [dangling_record]")
  case (Inl e)
  with dangling_selection show ?thesis by simp
next
  case (Inr c)
  with dangling_selection have "select_members dangling_definition c = Inl Panic"
    by (auto split: sum.splits compile_error.splits)
  with Inr dangling_shape show ?thesis
    by (simp add: compile_profile_def split: sum.split)
qed

section \<open>What may leave the machine\<close>

text \<open>All keys and all strings of a JSON value, at any depth.\<close>

fun json_keys :: "json \<Rightarrow> string list" and member_keys :: "(string \<times> json) list \<Rightarrow> string list" and
  element_keys :: "json list \<Rightarrow> string list" where
  "json_keys (JObject ms) = member_keys ms"
| "json_keys (JArray vs) = element_keys vs"
| "json_keys _ = []"
| "member_keys [] = []"
| "member_keys ((k, v) # ms) = k # json_keys v @ member_keys ms"
| "element_keys [] = []"
| "element_keys (v # vs) = json_keys v @ element_keys vs"

fun json_strings :: "json \<Rightarrow> string list" and member_strings :: "(string \<times> json) list \<Rightarrow> string list" and
  element_strings :: "json list \<Rightarrow> string list" where
  "json_strings (JString s) = [s]"
| "json_strings (JObject ms) = member_strings ms"
| "json_strings (JArray vs) = element_strings vs"
| "json_strings _ = []"
| "member_strings [] = []"
| "member_strings ((k, v) # ms) = json_strings v @ member_strings ms"
| "element_strings [] = []"
| "element_strings (v # vs) = json_strings v @ element_strings vs"

lemma visit_exact:
  "visit v field = Inr () \<longleftrightarrow> list_all (Not \<circ> forbidden_key) (json_keys v) \<and>
     list_all (Not \<circ> looks_machine_path) (json_strings v)"
  "visit_members ms = Inr () \<longleftrightarrow> list_all (Not \<circ> forbidden_key) (member_keys ms) \<and>
     list_all (Not \<circ> looks_machine_path) (member_strings ms)"
  "visit_values vs field = Inr () \<longleftrightarrow> list_all (Not \<circ> forbidden_key) (element_keys vs) \<and>
     list_all (Not \<circ> looks_machine_path) (element_strings vs)"
  by (induction v field and ms and vs field rule: visit_visit_members_visit_values.induct) auto

text \<open>
  The check of an export visits every depth: no key and no string of what \<open>to_export_json\<close> prints is
  one that the two tests refuse.
\<close>

lemma exports_pass_at_every_depth:
  assumes "to_export_json E d = Inr out"
  obtains w where "definition_value E d = Inr w" "print_pretty E w = Inr out"
    "list_all (Not \<circ> forbidden_key) (json_keys w)" "list_all (Not \<circ> looks_machine_path) (json_strings w)"
  using assms by (auto simp: to_export_json_def reject_non_exportable_fields_def visit_exact(1))

end
