(* ===== verification/Policy.thy ===== *)
theory Policy
  imports Profile_Safety
begin

text \<open>
  \<open>profiles/resolver.rs\<close> and \<open>profiles/locks.rs\<close>: which profile and which gateway mode apply to a
  provider under the policies of a session, a workspace, a repository and the machine, and which
  capabilities are then exposed under the machine's hard locks. An \<open>unreachable!\<close> of the code is
  an outcome of the model.
\<close>

section \<open>Policies\<close>

record profile_reference =
  ref_profile_id :: string
  ref_digest :: string
  ref_origin_scope :: profile_source_scope

definition reference_to :: "compiled_revision \<Rightarrow> profile_reference" where
  "reference_to r = \<lparr>ref_profile_id = rev_profile_id r, ref_digest = rev_digest r,
     ref_origin_scope = source_scope (rev_origin r)\<rparr>"

datatype profile_selection =
  ProfInherit | ProfNative | ProfNone | ProfSelected profile_reference

datatype gateway_selection = GwInherit | GwNative | GwGateway

datatype capability_lock_state = HardEnabled | HardDisabled

type_synonym lock_entries = "(capability_id, capability_lock_state) btree"

record provider_policy =
  pp_profile :: profile_selection
  pp_gateway :: gateway_selection
  pp_locks :: lock_entries

record scope_policy =
  sp_profile :: profile_selection
  sp_gateway :: gateway_selection
  sp_providers :: "(provider_id, provider_policy) btree"

definition default_scope_policy :: scope_policy where
  "default_scope_policy = \<lparr>sp_profile = ProfInherit, sp_gateway = GwInherit, sp_providers = []\<rparr>"

record resolution_policies =
  pol_global :: scope_policy
  pol_repository :: "scope_policy option"
  pol_workspace :: "scope_policy option"
  pol_session :: "scope_policy option"

datatype policy_scope = PolSession | PolWorkspace | PolRepository | PolGlobal | NativeDefault

record resolution_source =
  src_scope :: policy_scope
  src_provider_specific :: bool

datatype resolved_profile = ResolvedNative | ResolvedNone | ResolvedProfile compiled_revision

datatype resolved_gateway = GatewayNative | GatewayMode

section \<open>Capability locks\<close>

datatype capability_lock_error =
    LockSerialization string
  | LockUnsupportedSchema "32 word"
  | LockDigestMismatch string string
  | LockProviderMismatch provider_id provider_id
  | LockMissingCapability capability_id
  | StaleProfileCapability capability_id
  | LockUnsupportedProvider capability_id provider_id

record lock_snapshot =
  lock_schema_version :: "32 word"
  lock_provider :: provider_id
  lock_snapshot_digest :: string
  lock_entries :: lock_entries

record policy_env = profile_env +
  lock_json :: "32 word \<Rightarrow> provider_id \<Rightarrow> lock_entries \<Rightarrow> string + string"

definition capability_lock_snapshot_schema_version :: "32 word" where
  "capability_lock_snapshot_schema_version = 1"

definition lock_digest ::
  "('z) policy_env_scheme \<Rightarrow> 32 word \<Rightarrow> provider_id \<Rightarrow> lock_entries \<Rightarrow> capability_lock_error + string" where
  "lock_digest E v p es =
     and_then (map_err LockSerialization (lock_json E v p es)) (\<lambda>bytes.
     Inr (encode_lower_hex (sha256 E bytes)))"

definition compile_locks ::
  "('z) policy_env_scheme \<Rightarrow> provider_id \<Rightarrow> lock_entries \<Rightarrow> capability_lock_error + lock_snapshot" where
  "compile_locks E p es =
     and_then (lock_digest E capability_lock_snapshot_schema_version p es) (\<lambda>digest.
     Inr \<lparr>lock_schema_version = capability_lock_snapshot_schema_version, lock_provider = p,
          lock_snapshot_digest = digest, lock_entries = es\<rparr>)"

definition verify_locks ::
  "('z) policy_env_scheme \<Rightarrow> lock_snapshot \<Rightarrow> capability_lock_error + unit" where
  "verify_locks E s =
     and_then (ensure (lock_schema_version s = capability_lock_snapshot_schema_version)
        (LockUnsupportedSchema (lock_schema_version s))) (\<lambda>_.
     and_then (lock_digest E (lock_schema_version s) (lock_provider s) (lock_entries s)) (\<lambda>actual.
     ensure (actual = lock_snapshot_digest s) (LockDigestMismatch (lock_snapshot_digest s) actual)))"

text \<open>\<open>CapabilityLockSnapshot::empty\<close>: \<open>None\<close> is the panic of its \<open>expect\<close>.\<close>

definition empty_locks :: "('z) policy_env_scheme \<Rightarrow> provider_id \<Rightarrow> lock_snapshot option" where
  "empty_locks E p = (case compile_locks E p [] of Inl _ \<Rightarrow> None | Inr s \<Rightarrow> Some s)"

datatype enforcement_kind =
  NativeStrict | NativeBestEffort | GatewayStrict | EnforceReadOnly | EnforceUnsupported

datatype activation_requirement = ActivateImmediate | ReloadRequired | NextSessionOnly

record lock_enforcement =
  enf_provider :: provider_id
  enf_capability :: capability_id
  enf_state :: capability_lock_state
  enf_source :: policy_scope
  enf_kind :: enforcement_kind
  enf_activation :: activation_requirement
  enf_reason :: string

text \<open>The \<open>match\<close> of \<open>capability_lock_enforcement\<close>.\<close>

definition enforcement_for ::
  "catalog \<Rightarrow> resolved_gateway \<Rightarrow> provider_id \<Rightarrow> capability_id \<Rightarrow> enforcement_kind \<times> string" where
  "enforcement_for c g p i =
     (case catalog_get c i of
        None \<Rightarrow> (EnforceUnsupported, ''capability is not present in the current catalog'')
      | Some r \<Rightarrow>
          (case find (\<lambda>v. view_provider v = p) (cap_views r) of
             None \<Rightarrow> (EnforceUnsupported, ''capability has no view for this provider'')
           | Some v \<Rightarrow>
               if view_mutability v = CapUnsupported
               then (EnforceUnsupported, ''provider reports this capability as unsupported'')
               else if view_mutability v = CapReadOnly
               then (EnforceReadOnly, ''provider view is read-only; policy is reported but cannot be mutated'')
               else if g = GatewayMode \<and> cap_kind r \<in> {KSkill, KMcpTool, KHook}
               then (GatewayStrict, ''Unpin gateway filters the pinned session exposure'')
               else (NativeBestEffort,
                 ''provider-native configuration cannot guarantee live strict enforcement'')))"

definition capability_lock_enforcement ::
  "lock_snapshot \<Rightarrow> catalog \<Rightarrow> resolved_gateway \<Rightarrow> lock_enforcement list" where
  "capability_lock_enforcement s c g =
     map (\<lambda>(i, state). case enforcement_for c g (lock_provider s) i of (kind, reason) \<Rightarrow>
        \<lparr>enf_provider = lock_provider s, enf_capability = i, enf_state = state, enf_source = PolGlobal,
         enf_kind = kind, enf_activation = NextSessionOnly, enf_reason = reason\<rparr>) (lock_entries s)"

section \<open>Revisions\<close>

datatype policy_resolution_error =
    PolProfile profile_validation_error
  | PolCapabilityLocks capability_lock_error
  | PolMissingRevision string
  | RevisionCollision string
  | ProfileIdMismatch string string
  | OriginMismatch profile_source_scope profile_source_scope
  | InvalidOriginForPolicy policy_scope profile_source_scope
  | ProfileUnavailableForProvider string provider_id

type_synonym revision_set = "(string, compiled_revision) btree"

text \<open>\<open>ProfileRevisionSet::insert\<close>; a failed insert leaves the set as it was.\<close>

definition insert_revision ::
  "('z) profile_env_scheme \<Rightarrow> compiled_revision \<Rightarrow> revision_set \<Rightarrow> policy_resolution_error + revision_set" where
  "insert_revision E r rs =
     and_then (map_err PolProfile (verify_digest E r)) (\<lambda>_.
     (case map_of rs (rev_digest r) of
        Some existing \<Rightarrow>
          if existing \<noteq> r then Inl (RevisionCollision (rev_digest r)) else Inr rs
      | None \<Rightarrow> Inr (btree_insert (rev_digest r) r rs)))"

definition get_revision :: "revision_set \<Rightarrow> string \<Rightarrow> compiled_revision option" where
  "get_revision rs digest = map_of rs digest"

section \<open>Resolution\<close>

definition ordered_scopes :: "resolution_policies \<Rightarrow> (policy_scope \<times> scope_policy) list" where
  "ordered_scopes ps =
     filter_map id [map_option (Pair PolSession) (pol_session ps),
       map_option (Pair PolWorkspace) (pol_workspace ps),
       map_option (Pair PolRepository) (pol_repository ps), Some (PolGlobal, pol_global ps)]"

definition explicit_profile :: "scope_policy \<Rightarrow> provider_id \<Rightarrow> (bool \<times> profile_selection) option" where
  "explicit_profile sp p =
     or_else (case map_of (sp_providers sp) p of
          None \<Rightarrow> None
        | Some pp \<Rightarrow> if pp_profile pp \<noteq> ProfInherit then Some (True, pp_profile pp) else None)
       (if sp_profile sp \<noteq> ProfInherit then Some (False, sp_profile sp) else None)"

definition explicit_gateway :: "scope_policy \<Rightarrow> provider_id \<Rightarrow> (bool \<times> gateway_selection) option" where
  "explicit_gateway sp p =
     or_else (case map_of (sp_providers sp) p of
          None \<Rightarrow> None
        | Some pp \<Rightarrow> if pp_gateway pp \<noteq> GwInherit then Some (True, pp_gateway pp) else None)
       (if sp_gateway sp \<noteq> GwInherit then Some (False, sp_gateway sp) else None)"

text \<open>The first scope that says something for the provider, or the default.\<close>

definition candidate ::
  "(scope_policy \<Rightarrow> provider_id \<Rightarrow> (bool \<times> 'a) option) \<Rightarrow> 'a \<Rightarrow> resolution_policies \<Rightarrow> provider_id \<Rightarrow>
     resolution_source \<times> 'a" where
  "candidate explicit native ps p =
     (case find_map (\<lambda>(scope, sp). map_option (Pair scope) (explicit sp p)) (ordered_scopes ps) of
        None \<Rightarrow> (\<lparr>src_scope = NativeDefault, src_provider_specific = False\<rparr>, native)
      | Some (scope, specific, x) \<Rightarrow> (\<lparr>src_scope = scope, src_provider_specific = specific\<rparr>, x))"

text \<open>\<open>resolve_effective_gateway\<close>: \<open>None\<close> is its \<open>unreachable!\<close>.\<close>

definition resolve_effective_gateway ::
  "provider_id \<Rightarrow> resolution_policies \<Rightarrow> (resolved_gateway \<times> resolution_source) option" where
  "resolve_effective_gateway p ps =
     (case candidate explicit_gateway GwNative ps p of
        (source, GwNative) \<Rightarrow> Some (GatewayNative, source)
      | (source, GwGateway) \<Rightarrow> Some (GatewayMode, source)
      | (source, GwInherit) \<Rightarrow> None)"

fun origin_allowed :: "policy_scope \<Rightarrow> profile_source_scope \<Rightarrow> bool" where
  "origin_allowed PolGlobal s \<longleftrightarrow> s = SrcGlobal"
| "origin_allowed PolRepository s \<longleftrightarrow> s = SrcGlobal"
| "origin_allowed PolWorkspace s \<longleftrightarrow> s \<in> {SrcGlobal, SrcWorkspace}"
| "origin_allowed PolSession s \<longleftrightarrow> True"
| "origin_allowed NativeDefault s \<longleftrightarrow> True"

definition validate_origin_for_policy ::
  "policy_scope \<Rightarrow> profile_source_scope \<Rightarrow> policy_resolution_error + unit" where
  "validate_origin_for_policy scope s = ensure (origin_allowed scope s) (InvalidOriginForPolicy scope s)"

datatype resolution_failure = PolicyRejected policy_resolution_error | PolicyPanic

fun resolve_profile_selection ::
  "('z) profile_env_scheme \<Rightarrow> provider_id \<Rightarrow> policy_scope \<Rightarrow> profile_selection \<Rightarrow> revision_set \<Rightarrow>
     resolution_failure + resolved_profile" where
  "resolve_profile_selection E p scope ProfInherit rs = Inl PolicyPanic"
| "resolve_profile_selection E p scope ProfNative rs = Inr ResolvedNative"
| "resolve_profile_selection E p scope ProfNone rs = Inr ResolvedNone"
| "resolve_profile_selection E p scope (ProfSelected ref) rs =
     map_err PolicyRejected
       (and_then (ok_or (get_revision rs (ref_digest ref)) (PolMissingRevision (ref_digest ref))) (\<lambda>r.
        and_then (ensure (rev_profile_id r = ref_profile_id ref)
           (ProfileIdMismatch (ref_profile_id ref) (rev_profile_id r))) (\<lambda>_.
        and_then (ensure (source_scope (rev_origin r) = ref_origin_scope ref)
           (OriginMismatch (ref_origin_scope ref) (source_scope (rev_origin r)))) (\<lambda>_.
        and_then (validate_origin_for_policy scope (source_scope (rev_origin r))) (\<lambda>_.
        and_then (map_err PolProfile (verify_digest E r)) (\<lambda>_.
        and_then (ensure (\<not> (rev_members r \<noteq> [] \<and> \<not> revision_supports r p))
           (ProfileUnavailableForProvider (rev_profile_id r) p)) (\<lambda>_.
        Inr (ResolvedProfile r))))))))"

record effective_policy =
  eff_provider :: provider_id
  eff_profile :: resolved_profile
  eff_profile_source :: resolution_source
  eff_gateway :: resolved_gateway
  eff_gateway_source :: resolution_source
  eff_locks :: lock_snapshot

definition global_locks :: "resolution_policies \<Rightarrow> provider_id \<Rightarrow> lock_entries" where
  "global_locks ps p =
     (case map_of (sp_providers (pol_global ps)) p of None \<Rightarrow> [] | Some pp \<Rightarrow> pp_locks pp)"

definition resolve_effective_policy ::
  "('z) policy_env_scheme \<Rightarrow> provider_id \<Rightarrow> resolution_policies \<Rightarrow> revision_set \<Rightarrow>
     resolution_failure + effective_policy" where
  "resolve_effective_policy E p ps rs =
     (case candidate explicit_profile ProfNative ps p of (source, selection) \<Rightarrow>
        and_then (resolve_profile_selection E p (src_scope source) selection rs) (\<lambda>profile.
        and_then (ok_or (resolve_effective_gateway p ps) PolicyPanic) (\<lambda>(gateway, gateway_source).
        and_then (map_err (PolicyRejected \<circ> PolCapabilityLocks) (compile_locks E p (global_locks ps p))) (\<lambda>locks.
        Inr \<lparr>eff_provider = p, eff_profile = profile, eff_profile_source = source,
             eff_gateway = gateway, eff_gateway_source = gateway_source, eff_locks = locks\<rparr>))))"

section \<open>Effective capabilities\<close>

fun profile_capabilities ::
  "catalog \<Rightarrow> provider_id \<Rightarrow> compiled_member list \<Rightarrow> capability_id set \<Rightarrow>
     capability_lock_error + capability_id set" where
  "profile_capabilities c p [] selected = Inr selected"
| "profile_capabilities c p (m # ms) selected =
     and_then (ok_or (catalog_get c (member_capability m)) (LockMissingCapability (member_capability m))) (\<lambda>r.
     and_then (ensure (\<not> (cap_fingerprint r \<noteq> member_fingerprint m \<or>
          canonical_key (cap_origin r) \<noteq> member_origin_key m \<or> \<not> supports_provider r p))
        (StaleProfileCapability (member_capability m))) (\<lambda>_.
     profile_capabilities c p ms (insert (member_capability m) selected)))"

definition native_capabilities :: "catalog \<Rightarrow> provider_id \<Rightarrow> capability_id set" where
  "native_capabilities c p =
     set (map cap_id (filter (\<lambda>r. list_ex (\<lambda>v. view_provider v = p \<and> view_enabled v \<and>
        active (cap_lifecycle r)) (cap_views r)) (catalog_records c)))"

definition base_capabilities :: "effective_policy \<Rightarrow> catalog \<Rightarrow> capability_lock_error + capability_id set" where
  "base_capabilities e c =
     (case eff_profile e of
        ResolvedNative \<Rightarrow> Inr (native_capabilities c (eff_provider e))
      | ResolvedNone \<Rightarrow> Inr {}
      | ResolvedProfile r \<Rightarrow> profile_capabilities c (eff_provider e) (members_for_provider r (eff_provider e)) {})"

fun apply_locks ::
  "catalog \<Rightarrow> provider_id \<Rightarrow> lock_entries \<Rightarrow> capability_id set \<Rightarrow> capability_lock_error + capability_id set" where
  "apply_locks c p [] selected = Inr selected"
| "apply_locks c p ((i, state) # es) selected =
     and_then (ok_or (catalog_get c i) (LockMissingCapability i)) (\<lambda>r.
     and_then (ensure (supports_provider r p) (LockUnsupportedProvider i p)) (\<lambda>_.
     apply_locks c p es
       (case state of HardEnabled \<Rightarrow> insert i selected | HardDisabled \<Rightarrow> selected - {i})))"

definition resolve_effective_capabilities ::
  "('z) policy_env_scheme \<Rightarrow> effective_policy \<Rightarrow> catalog \<Rightarrow> capability_lock_error + capability_id set" where
  "resolve_effective_capabilities E e c =
     and_then (verify_locks E (eff_locks e)) (\<lambda>_.
     and_then (ensure (lock_provider (eff_locks e) = eff_provider e)
        (LockProviderMismatch (eff_provider e) (lock_provider (eff_locks e)))) (\<lambda>_.
     and_then (base_capabilities e c) (apply_locks c (eff_provider e) (lock_entries (eff_locks e)))))"

section \<open>Which scope decides\<close>

text \<open>
  The specification of precedence, written as a chain of scopes: the innermost scope that says
  something for the provider decides, its entry for the provider before what it says for all
  providers, and otherwise the native default. \<open>inherit\<close> is the value that says nothing.
\<close>

definition says_for :: "(provider_policy \<Rightarrow> 'a) \<Rightarrow> 'a \<Rightarrow> scope_policy \<Rightarrow> provider_id \<Rightarrow> bool" where
  "says_for entry inherit sp p \<longleftrightarrow>
     (case map_of (sp_providers sp) p of None \<Rightarrow> False | Some pp \<Rightarrow> entry pp \<noteq> inherit)"

definition in_scope ::
  "(provider_policy \<Rightarrow> 'a) \<Rightarrow> (scope_policy \<Rightarrow> 'a) \<Rightarrow> 'a \<Rightarrow> provider_id \<Rightarrow> policy_scope \<Rightarrow>
     scope_policy option \<Rightarrow> resolution_source \<times> 'a \<Rightarrow> resolution_source \<times> 'a" where
  "in_scope entry whole inherit p scope layer outer =
     (case layer of
        None \<Rightarrow> outer
      | Some sp \<Rightarrow>
          if says_for entry inherit sp p
          then (\<lparr>src_scope = scope, src_provider_specific = True\<rparr>, entry (the (map_of (sp_providers sp) p)))
          else if whole sp \<noteq> inherit
          then (\<lparr>src_scope = scope, src_provider_specific = False\<rparr>, whole sp)
          else outer)"

definition decided ::
  "(provider_policy \<Rightarrow> 'a) \<Rightarrow> (scope_policy \<Rightarrow> 'a) \<Rightarrow> 'a \<Rightarrow> 'a \<Rightarrow> resolution_policies \<Rightarrow> provider_id \<Rightarrow>
     resolution_source \<times> 'a" where
  "decided entry whole inherit native ps p =
     in_scope entry whole inherit p PolSession (pol_session ps)
    (in_scope entry whole inherit p PolWorkspace (pol_workspace ps)
    (in_scope entry whole inherit p PolRepository (pol_repository ps)
    (in_scope entry whole inherit p PolGlobal (Some (pol_global ps))
      (\<lparr>src_scope = NativeDefault, src_provider_specific = False\<rparr>, native))))"

abbreviation decided_profile :: "resolution_policies \<Rightarrow> provider_id \<Rightarrow> resolution_source \<times> profile_selection" where
  "decided_profile \<equiv> decided pp_profile sp_profile ProfInherit ProfNative"

abbreviation decided_gateway :: "resolution_policies \<Rightarrow> provider_id \<Rightarrow> resolution_source \<times> gateway_selection" where
  "decided_gateway \<equiv> decided pp_gateway sp_gateway GwInherit GwNative"

lemma candidate_decided:
  assumes "\<And>sp. explicit sp p =
    (if says_for entry inherit sp p then Some (True, entry (the (map_of (sp_providers sp) p)))
     else if whole sp \<noteq> inherit then Some (False, whole sp) else None)"
  shows "candidate explicit native ps p = decided entry whole inherit native ps p"
  unfolding candidate_def ordered_scopes_def decided_def in_scope_def
  by (cases "pol_session ps"; cases "pol_workspace ps"; cases "pol_repository ps") (simp_all add: assms)

lemma profile_candidate: "candidate explicit_profile ProfNative ps p = decided_profile ps p"
  by (rule candidate_decided)
    (auto simp: explicit_profile_def says_for_def or_else_def split: option.splits if_splits)

lemma gateway_candidate: "candidate explicit_gateway GwNative ps p = decided_gateway ps p"
  by (rule candidate_decided)
    (auto simp: explicit_gateway_def says_for_def or_else_def split: option.splits if_splits)

lemma decided_not_inherit: "native \<noteq> inherit \<Longrightarrow> snd (decided entry whole inherit native ps p) \<noteq> inherit"
  by (auto simp: decided_def in_scope_def says_for_def split: option.splits)

lemma decided_by_default:
  "src_scope (fst (decided entry whole inherit native ps p)) = NativeDefault \<Longrightarrow>
     snd (decided entry whole inherit native ps p) = native"
  by (auto simp: decided_def in_scope_def split: option.splits if_splits)

lemma resolve_effective_gateway_ok:
  "\<exists>g. resolve_effective_gateway p ps = Some (g, fst (decided_gateway ps p)) \<and>
     (case snd (decided_gateway ps p) of
        GwInherit \<Rightarrow> False | GwNative \<Rightarrow> g = GatewayNative | GwGateway \<Rightarrow> g = GatewayMode)"
  using decided_not_inherit [of GwNative GwInherit pp_gateway sp_gateway ps p]
  by (cases "decided_gateway ps p"; cases "snd (decided_gateway ps p)")
    (auto simp: resolve_effective_gateway_def gateway_candidate)

section \<open>Locks and revisions\<close>

lemma compile_locks_ok:
  assumes "compile_locks E p es = Inr s"
  shows "lock_provider s = p" "lock_entries s = es" "verify_locks E s = Inr ()"
  using assms by (auto simp: compile_locks_def verify_locks_def)

text \<open>The revisions are filed under their own, verified digest.\<close>

definition revision_set_ok :: "('z) profile_env_scheme \<Rightarrow> revision_set \<Rightarrow> bool" where
  "revision_set_ok E rs \<longleftrightarrow>
     btree_ok rs \<and> list_all (\<lambda>e. rev_digest (snd e) = fst e \<and> verify_digest E (snd e) = Inr ()) rs"

lemma insert_revision_keeps:
  assumes "revision_set_ok E rs" "insert_revision E r rs = Inr rs'"
  shows "revision_set_ok E rs'" "get_revision rs' (rev_digest r) = Some r"
    "get_revision rs d = Some x \<Longrightarrow> get_revision rs' d = Some x"
proof -
  have ok: "btree_ok rs" using assms(1) by (simp add: revision_set_ok_def)
  have verified: "verify_digest E r = Inr ()" using assms(2) by (auto simp: insert_revision_def)
  consider (known) "map_of rs (rev_digest r) = Some r" "rs' = rs"
    | (new) "map_of rs (rev_digest r) = None" "rs' = btree_insert (rev_digest r) r rs"
    using assms(2) by (auto simp: insert_revision_def split: option.splits if_splits)
  then have "revision_set_ok E rs' \<and> get_revision rs' (rev_digest r) = Some r \<and>
      (\<forall>d x. get_revision rs d = Some x \<longrightarrow> get_revision rs' d = Some x)"
  proof cases
    case known
    with assms(1) show ?thesis by (simp add: get_revision_def)
  next
    case new
    with assms(1) ok verified set_btree_insert_subset [of "rev_digest r" r rs]
    show ?thesis by (auto simp: get_revision_def revision_set_ok_def list_all_iff)
  qed
  then show "revision_set_ok E rs'" "get_revision rs' (rev_digest r) = Some r"
    "get_revision rs d = Some x \<Longrightarrow> get_revision rs' d = Some x" by blast+
qed

text \<open>Any sequence of inserts; a caller drops a refused revision.\<close>

fun collect_revisions :: "('z) profile_env_scheme \<Rightarrow> compiled_revision list \<Rightarrow> revision_set \<Rightarrow> revision_set" where
  "collect_revisions E [] rs = rs"
| "collect_revisions E (r # revisions) rs =
     collect_revisions E revisions (case insert_revision E r rs of Inl _ \<Rightarrow> rs | Inr rs' \<Rightarrow> rs')"

lemma collect_revisions_ok: "revision_set_ok E rs \<Longrightarrow> revision_set_ok E (collect_revisions E revisions rs)"
  by (induction revisions arbitrary: rs) (auto split: sum.splits intro: insert_revision_keeps(1))

section \<open>What the locks do\<close>

lemma apply_locks_ok:
  assumes "apply_locks c p es s = Inr t" "btree_ok es"
  shows "case map_of es i of None \<Rightarrow> i \<in> t \<longleftrightarrow> i \<in> s | Some HardEnabled \<Rightarrow> i \<in> t | Some HardDisabled \<Rightarrow> i \<notin> t"
  using assms
proof (induction c p es s rule: apply_locks.induct)
  case (2 c p j state es s)
  let ?s = "case state of HardEnabled \<Rightarrow> insert j s | HardDisabled \<Rightarrow> s - {j}"
  from "2.prems" have rest: "apply_locks c p es ?s = Inr t" "btree_ok es" "map_of es j = None"
    by (auto simp: map_of_eq_None_iff)
  from "2.prems" obtain r where "ok_or (catalog_get c j) (LockMissingCapability j) = Inr r"
    "ensure (supports_provider r p) (LockUnsupportedProvider j p) = Inr ()" by auto
  from "2.IH" [OF this rest(1,2)]
  have IH: "case map_of es i of None \<Rightarrow> i \<in> t \<longleftrightarrow> i \<in> ?s | Some HardEnabled \<Rightarrow> i \<in> t | Some HardDisabled \<Rightarrow> i \<notin> t"
    .
  show ?case
  proof (cases "i = j")
    case True
    with IH rest(3) show ?thesis by (cases state) simp_all
  next
    case False
    with IH show ?thesis
      by (cases state) (simp_all split: option.splits capability_lock_state.splits)
  qed
qed simp

lemma apply_locks_supported:
  assumes "apply_locks c p es s = Inr t" "i \<in> fst ` set es"
  shows "\<exists>r. catalog_get c i = Some r \<and> supports_provider r p"
  using assms by (induction c p es s rule: apply_locks.induct) auto

lemma profile_capabilities_ok:
  "profile_capabilities c p ms s = Inr t \<longleftrightarrow>
     t = s \<union> member_capability ` set ms \<and>
     (\<forall>m\<in>set ms. \<exists>r. catalog_get c (member_capability m) = Some r \<and>
        cap_fingerprint r = member_fingerprint m \<and> canonical_key (cap_origin r) = member_origin_key m \<and>
        supports_provider r p)"
  by (induction c p ms s rule: profile_capabilities.induct) auto

section \<open>Properties\<close>

text \<open>What a policy may take from a profile revision, and when a reference to one can be used.\<close>

fun admissible :: "policy_scope \<Rightarrow> profile_source_scope \<Rightarrow> bool" where
  "admissible _ SrcGlobal \<longleftrightarrow> True"
| "admissible scope SrcWorkspace \<longleftrightarrow> scope \<in> {PolWorkspace, PolSession}"
| "admissible scope SrcRepository \<longleftrightarrow> scope = PolSession"
| "admissible scope SrcSession \<longleftrightarrow> scope = PolSession"

definition usable ::
  "('z) profile_env_scheme \<Rightarrow> provider_id \<Rightarrow> policy_scope \<Rightarrow> profile_reference \<Rightarrow> compiled_revision \<Rightarrow> bool" where
  "usable E p scope ref r \<longleftrightarrow>
     rev_profile_id r = ref_profile_id ref \<and> source_scope (rev_origin r) = ref_origin_scope ref \<and>
     admissible scope (source_scope (rev_origin r)) \<and> verify_digest E r = Inr () \<and>
     (rev_members r = [] \<or> revision_supports r p)"

lemma origin_allowed_admissible: "scope \<noteq> NativeDefault \<Longrightarrow> origin_allowed scope s \<longleftrightarrow> admissible scope s"
  by (cases scope; cases s) auto

lemma resolve_selected:
  assumes "scope \<noteq> NativeDefault"
  shows "case resolve_profile_selection E p scope (ProfSelected ref) rs of
      Inl PolicyPanic \<Rightarrow> False
    | Inl (PolicyRejected err) \<Rightarrow> (\<forall>x. err \<noteq> PolCapabilityLocks x) \<and>
        (case get_revision rs (ref_digest ref) of
           None \<Rightarrow> err = PolMissingRevision (ref_digest ref) | Some r \<Rightarrow> \<not> usable E p scope ref r)
    | Inr profile \<Rightarrow> \<exists>r. profile = ResolvedProfile r \<and> get_revision rs (ref_digest ref) = Some r \<and>
        usable E p scope ref r"
  by (auto simp: usable_def validate_origin_for_policy_def origin_allowed_admissible [OF assms]
      ensure_def map_err_def and_then_def ok_or_def split: sum.splits option.splits if_splits)

text \<open>
  C22: The innermost scope decides. The profile and the gateway mode are those of the first of session,
  workspace, repository and global policy that says something for the provider, preferring the
  entry of that provider, or else the native default: that selection, with where it came from, is
  what resolving returns, a selected profile as the revision its reference names, of that id and
  origin, verified, serving the provider and admissible in that scope. Resolving never panics, and
  fails only for a reference that is missing or cannot be used or when the locks do not compile.
  The locks are those of the global policy for the provider and their snapshot verifies.
\<close>

theorem innermost_scope_decides:
  "case (decided_profile ps p, decided_gateway ps p) of ((source, selection), (gateway_source, gateway)) \<Rightarrow>
   (case resolve_effective_policy E p ps rs of
     Inl PolicyPanic \<Rightarrow> False
   | Inl (PolicyRejected (PolCapabilityLocks err)) \<Rightarrow> compile_locks E p (global_locks ps p) = Inl err
   | Inl (PolicyRejected err) \<Rightarrow> (\<exists>ref. selection = ProfSelected ref \<and>
       (case get_revision rs (ref_digest ref) of
          None \<Rightarrow> err = PolMissingRevision (ref_digest ref)
        | Some r \<Rightarrow> \<not> usable E p (src_scope source) ref r))
   | Inr e \<Rightarrow> eff_provider e = p \<and> eff_profile_source e = source \<and> eff_gateway_source e = gateway_source \<and>
       (case selection of
          ProfInherit \<Rightarrow> False
        | ProfNative \<Rightarrow> eff_profile e = ResolvedNative
        | ProfNone \<Rightarrow> eff_profile e = ResolvedNone
        | ProfSelected ref \<Rightarrow> (\<exists>r. eff_profile e = ResolvedProfile r \<and>
            get_revision rs (ref_digest ref) = Some r \<and> usable E p (src_scope source) ref r)) \<and>
       (case gateway of
          GwInherit \<Rightarrow> False
        | GwNative \<Rightarrow> eff_gateway e = GatewayNative
        | GwGateway \<Rightarrow> eff_gateway e = GatewayMode) \<and>
       lock_provider (eff_locks e) = p \<and> lock_entries (eff_locks e) = global_locks ps p \<and>
       verify_locks E (eff_locks e) = Inr ())"
proof -
  obtain source selection where c: "decided_profile ps p = (source, selection)" by fastforce
  obtain gs gw where d: "decided_gateway ps p = (gs, gw)" by fastforce
  from resolve_effective_gateway_ok [of p ps] d obtain g where g: "resolve_effective_gateway p ps = Some (g, gs)"
    "case gw of GwInherit \<Rightarrow> False | GwNative \<Rightarrow> g = GatewayNative | GwGateway \<Rightarrow> g = GatewayMode"
    by auto
  have selection: "selection \<noteq> ProfInherit"
    using decided_not_inherit [of ProfNative ProfInherit pp_profile sp_profile ps p] c by simp
  have native: "src_scope source \<noteq> NativeDefault" if "selection = ProfSelected ref" for ref
    using decided_by_default [of pp_profile sp_profile ProfInherit ProfNative ps p] c that by auto
  note resolve = resolve_effective_policy_def profile_candidate c g(1)
  show ?thesis
  proof (cases "\<exists>ref. selection = ProfSelected ref")
    case True
    then obtain ref where ref: "selection = ProfSelected ref" by blast
    from resolve_selected [OF native [OF this], where E = E and p = p and ref = ref and rs = rs] g(2) show ?thesis
      by (cases "resolve_profile_selection E p (src_scope source) selection rs";
          cases "compile_locks E p (global_locks ps p)")
        (auto simp: resolve d ref compile_locks_ok simp del: resolve_profile_selection.simps
          split: resolution_failure.splits policy_resolution_error.splits gateway_selection.splits)
  next
    case False
    with selection g(2) show ?thesis
      by (cases selection; cases "compile_locks E p (global_locks ps p)")
        (auto simp: resolve d compile_locks_ok split: gateway_selection.splits)
  qed
qed

text \<open>
  C24: A resolved profile can be trusted, whatever revisions were offered before: its digest verifies
  and is the one it is filed under, it serves the provider or is empty, and a policy never uses a
  profile of a narrower origin: session and repository profiles only in the session, workspace
  profiles only in the workspace and the session.
\<close>

theorem resolved_profile_is_trusted:
  "let rs = collect_revisions E revisions [] in
   revision_set_ok E rs \<and>
   (case resolve_effective_policy E p ps rs of
      Inl _ \<Rightarrow> True
    | Inr e \<Rightarrow> (case eff_profile e of
        ResolvedProfile r \<Rightarrow> verify_digest E r = Inr () \<and> get_revision rs (rev_digest r) = Some r \<and>
          (if rev_members r = [] then True else revision_supports r p) \<and>
          admissible (src_scope (eff_profile_source e)) (source_scope (rev_origin r))
      | _ \<Rightarrow> True))"
proof -
  let ?rs = "collect_revisions E revisions []"
  have "revision_set_ok E []" by (simp add: revision_set_ok_def)
  then have ok: "revision_set_ok E ?rs" by (rule collect_revisions_ok)
  have trusted: "verify_digest E r = Inr () \<and> get_revision ?rs (rev_digest r) = Some r \<and>
      (if rev_members r = [] then True else revision_supports r p) \<and>
      admissible (src_scope (eff_profile_source e)) (source_scope (rev_origin r))"
    if e: "resolve_effective_policy E p ps ?rs = Inr e" "eff_profile e = ResolvedProfile r" for e r
  proof -
    obtain source selection where c: "candidate explicit_profile ProfNative ps p = (source, selection)"
      by fastforce
    with e have source: "eff_profile_source e = source" and
      sel: "resolve_profile_selection E p (src_scope source) selection ?rs = Inr (ResolvedProfile r)"
      by (auto simp: resolve_effective_policy_def)
    then obtain ref where ref: "selection = ProfSelected ref" by (cases selection) auto
    have native: "src_scope source \<noteq> NativeDefault"
      using c ref
      by (auto simp: candidate_def ordered_scopes_def split: option.splits dest!: find_map_Some)
    from sel ref have r: "get_revision ?rs (ref_digest ref) = Some r" "verify_digest E r = Inr ()"
      "origin_allowed (src_scope source) (source_scope (rev_origin r))"
      "rev_members r = [] \<or> revision_supports r p"
      by (auto simp: validate_origin_for_policy_def)
    then have "rev_digest r = ref_digest ref"
      using ok by (fastforce simp: revision_set_ok_def list_all_iff get_revision_def dest: map_of_SomeD)
    moreover have "admissible (src_scope source) (source_scope (rev_origin r))"
      using r(3) native by (cases "src_scope source"; cases "source_scope (rev_origin r)") auto
    ultimately show ?thesis using r source by auto
  qed
  with ok show ?thesis by (auto simp: Let_def split: sum.split resolved_profile.split)
qed

text \<open>
  C23: Locks win over profiles. For every policy that resolving returns, the effective capabilities are
  those of the profile changed exactly where there is a lock: a hard-enabled capability is
  exposed, a hard-disabled one is not, any other is exposed exactly when the profile has it.
\<close>

theorem locks_override_profiles:
  assumes "btree_ok (lock_entries (eff_locks e))"
  shows "case resolve_effective_capabilities E e c of
      Inl _ \<Rightarrow> True
    | Inr capabilities \<Rightarrow> (\<exists>base. base_capabilities e c = Inr base \<and>
        (\<forall>i. case map_of (lock_entries (eff_locks e)) i of
            None \<Rightarrow> i \<in> capabilities \<longleftrightarrow> i \<in> base
          | Some HardEnabled \<Rightarrow> i \<in> capabilities
          | Some HardDisabled \<Rightarrow> i \<notin> capabilities))"
proof (cases "resolve_effective_capabilities E e c")
  case (Inr capabilities)
  then obtain base where "base_capabilities e c = Inr base"
    "apply_locks c (eff_provider e) (lock_entries (eff_locks e)) base = Inr capabilities"
    by (auto simp: resolve_effective_capabilities_def)
  with apply_locks_ok [OF this(2) assms] Inr show ?thesis by simp
qed simp

text \<open>The policies of a session that selects one compiled profile.\<close>

definition session_policies :: "compiled_revision \<Rightarrow> resolution_policies" where
  "session_policies r = \<lparr>pol_global = default_scope_policy, pol_repository = None, pol_workspace = None,
     pol_session = Some (default_scope_policy\<lparr>sp_profile := ProfSelected (reference_to r)\<rparr>)\<rparr>"

text \<open>
  C21: From definition to exposure. A profile that compiles against a catalog and is selected by a
  session takes effect for every provider it supports: the policy resolves to that revision, and
  the capabilities exposed under it are exactly its members for the provider. For a provider it
  does not support, resolving refuses it by name.
\<close>

theorem compiled_profile_takes_effect:
  "case compile_profile E d c scope of
     Inl _ \<Rightarrow> True
   | Inr r \<Rightarrow> (case (insert_revision E r [], compile_locks E p []) of
       (Inr rs, Inr locks) \<Rightarrow>
         if rev_members r = [] \<or> revision_supports r p
         then \<exists>e. resolve_effective_policy E p (session_policies r) rs = Inr e \<and>
           eff_profile e = ResolvedProfile r \<and>
           resolve_effective_capabilities E e c =
             Inr (member_capability ` {m \<in> set (rev_members r). p \<in> member_providers m})
         else resolve_effective_policy E p (session_policies r) rs =
           Inl (PolicyRejected (ProfileUnavailableForProvider (rev_profile_id r) p))
     | (Inl _, _) \<Rightarrow> False
     | _ \<Rightarrow> True)"
proof (cases "compile_profile E d c scope")
  case (Inr r)
  note compiled = this
  from Inr obtain ms where ms: "select_members d c = Inr ms" "rev_members r = map member_of ms"
    "verify_digest E r = Inr ()"
    by (rule compile_profile_ok)
  have ins: "insert_revision E r [] = Inr [(rev_digest r, r)]"
    by (simp add: insert_revision_def ms(3))
  have cand: "candidate explicit_profile ProfNative (session_policies r) p =
      (\<lparr>src_scope = PolSession, src_provider_specific = False\<rparr>, ProfSelected (reference_to r))"
    by (simp add: candidate_def ordered_scopes_def session_policies_def explicit_profile_def or_else_def
        default_scope_policy_def)
  have locks: "global_locks (session_policies r) p = []"
    by (simp add: global_locks_def session_policies_def default_scope_policy_def)
  obtain g source where gate: "resolve_effective_gateway p (session_policies r) = Some (g, source)"
    using resolve_effective_gateway_ok by blast
  have sel: "resolve_profile_selection E p PolSession (ProfSelected (reference_to r)) [(rev_digest r, r)] =
      (if rev_members r = [] \<or> revision_supports r p then Inr (ResolvedProfile r)
       else Inl (PolicyRejected (ProfileUnavailableForProvider (rev_profile_id r) p)))"
    by (simp add: get_revision_def reference_to_def validate_origin_for_policy_def ms(3))
  have members: "profile_capabilities c p (members_for_provider r p) {} =
      Inr (member_capability ` {m \<in> set (rev_members r). p \<in> member_providers m})"
    using selected_members_sound(1) [OF ms(1)]
    by (auto simp: profile_capabilities_ok members_for_provider_def list_all_iff ms(2) [symmetric]
        member_faithful_def split: option.splits)
  show ?thesis
  proof (cases "compile_locks E p []")
    case (Inr l)
    note l = compile_locks_ok [OF Inr]
    let ?e = "\<lparr>eff_provider = p, eff_profile = ResolvedProfile r,
      eff_profile_source = \<lparr>src_scope = PolSession, src_provider_specific = False\<rparr>,
      eff_gateway = g, eff_gateway_source = source, eff_locks = l\<rparr>"
    have "resolve_effective_policy E p (session_policies r) [(rev_digest r, r)] =
        (if rev_members r = [] \<or> revision_supports r p then Inr ?e
         else Inl (PolicyRejected (ProfileUnavailableForProvider (rev_profile_id r) p)))"
      using Inr by (simp add: resolve_effective_policy_def cand sel gate locks
          del: resolve_profile_selection.simps)
    moreover have "resolve_effective_capabilities E ?e c =
        Inr (member_capability ` {m \<in> set (rev_members r). p \<in> member_providers m})"
      using l members by (simp add: resolve_effective_capabilities_def base_capabilities_def)
    ultimately show ?thesis
      using compiled Inr by (simp add: ins)
  qed (simp add: Inr ins)
qed simp

section \<open>A locked capability\<close>

definition toy_policy_env :: policy_env where
  "toy_policy_env = \<lparr>sha256 = (\<lambda>_. ''h''), definition_json = (\<lambda>_. Inr []), compiled_json = (\<lambda>_. Inr []),
     parse_json = (\<lambda>_. Inl []), parse_definition = (\<lambda>_. Inl []), definition_value = (\<lambda>_. Inl []),
     print_pretty = (\<lambda>_. Inl []), lock_json = (\<lambda>_ _ _. Inr [])\<rparr>"

definition toy_locked_policy :: effective_policy where
  "toy_locked_policy = \<lparr>eff_provider = Claude, eff_profile = ResolvedNative,
     eff_profile_source = \<lparr>src_scope = NativeDefault, src_provider_specific = False\<rparr>,
     eff_gateway = GatewayNative,
     eff_gateway_source = \<lparr>src_scope = NativeDefault, src_provider_specific = False\<rparr>,
     eff_locks = \<lparr>lock_schema_version = 1, lock_provider = Claude,
       lock_snapshot_digest = encode_lower_hex ''h'', lock_entries = [(''plugin'', HardDisabled)]\<rparr>\<rparr>"

definition toy_locked_catalog :: catalog where
  "toy_locked_catalog = \<lparr>records = [(''plugin'', dangling_record)], warnings = []\<rparr>"

lemma toy_locked_run:
  "case resolve_effective_capabilities toy_policy_env toy_locked_policy toy_locked_catalog of
     Inl _ \<Rightarrow> False | Inr capabilities \<Rightarrow> base_capabilities toy_locked_policy toy_locked_catalog = Inr {''plugin''}"
  by code_simp

theorem locks_override_profiles_witness:
  "case resolve_effective_capabilities toy_policy_env toy_locked_policy toy_locked_catalog of
     Inl _ \<Rightarrow> False
   | Inr capabilities \<Rightarrow> ''plugin'' \<notin> capabilities \<and>
       base_capabilities toy_locked_policy toy_locked_catalog = Inr {''plugin''}"
proof -
  have entries: "lock_entries (eff_locks toy_locked_policy) = [(''plugin'', HardDisabled)]"
    by (simp add: toy_locked_policy_def)
  then have "btree_ok (lock_entries (eff_locks toy_locked_policy))" by simp
  from locks_override_profiles [OF this, where E = toy_policy_env and c = toy_locked_catalog] toy_locked_run
  show ?thesis
    by (cases "resolve_effective_capabilities toy_policy_env toy_locked_policy toy_locked_catalog")
      (auto simp: entries dest: spec [of _ "''plugin''"])
qed

end
