(* ===== verification/Policy_Store.thy ===== *)
theory Policy_Store
  imports Policy
begin

text \<open>
  \<open>profiles/policy_store.rs\<close> and the revision and definition documents of \<open>profiles/store.rs\<close>: the
  policies of the machine, its repositories and workspaces, and the compiled revisions, each in a
  document of the store of \<open>Atomic_Json\<close>.
\<close>

section \<open>Policy documents\<close>

datatype policy_target =
    TargetGlobal
  | TargetRepository string
  | TargetWorkspace string string

datatype policy_store_error = PolState state_error | PolInvalidIdentity string

definition validate_identity :: "string \<Rightarrow> string \<Rightarrow> policy_store_error + unit" where
  "validate_identity label v =
     ensure (\<not> (blank v \<or> length v > 512 \<or> has_control v)) (PolInvalidIdentity label)"

fun validate_target :: "policy_target \<Rightarrow> policy_store_error + unit" where
  "validate_target TargetGlobal = Inr ()"
| "validate_target (TargetRepository r) = validate_identity ''repository policy key'' r"
| "validate_target (TargetWorkspace r w) =
     and_then (validate_identity ''repository policy key'' r) (\<lambda>_.
     validate_identity ''workspace policy key'' w)"

definition repository_target :: "string \<Rightarrow> policy_store_error + policy_target" where
  "repository_target r =
     and_then (validate_target (TargetRepository r)) (\<lambda>_. Inr (TargetRepository r))"

definition workspace_target :: "string \<Rightarrow> string \<Rightarrow> policy_store_error + policy_target" where
  "workspace_target r w =
     and_then (validate_target (TargetWorkspace r w)) (\<lambda>_. Inr (TargetWorkspace r w))"

definition get_global_policy_path :: "path \<Rightarrow> path" where
  "get_global_policy_path root = root @ [''policy'', ''global.json'']"

definition get_repository_policy_path :: "path \<Rightarrow> string \<Rightarrow> path" where
  "get_repository_policy_path root r = root @ [''policy'', ''repositories'', json_file r]"

definition get_workspace_policy_state_path :: "path \<Rightarrow> string \<Rightarrow> string \<Rightarrow> path" where
  "get_workspace_policy_state_path root r w =
     root @ [''policy'', ''workspaces'', encode_path_segment r, json_file w]"

fun target_path :: "path \<Rightarrow> policy_target \<Rightarrow> path" where
  "target_path root TargetGlobal = get_global_policy_path root"
| "target_path root (TargetRepository r) = get_repository_policy_path root r"
| "target_path root (TargetWorkspace r w) = get_workspace_policy_state_path root r w"

definition resource_path :: "path \<Rightarrow> policy_target \<Rightarrow> policy_store_error + path" where
  "resource_path root t = and_then (validate_target t) (\<lambda>_. Inr (target_path root t))"

definition policy_state_schema_version :: u32 where
  "policy_state_schema_version = 1"

record policy_snapshot =
  pol_revision :: state_revision
  pol_owner :: owner_generation
  pol_policy :: scope_policy

definition policy_snapshot_of :: "scope_policy state_snapshot \<Rightarrow> policy_snapshot" where
  "policy_snapshot_of s = \<lparr>pol_revision = snapshot_revision s, pol_owner = snapshot_owner s,
     pol_policy = snapshot_value s\<rparr>"

type_synonym 'a policy_exec = "(scope_policy disk, policy_store_error, 'a) exec"

text \<open>\<open>map_err(Into::into)\<close> around a call of the document store.\<close>

definition pol_state :: "(scope_policy disk, state_error, 'a) exec \<Rightarrow> 'a policy_exec" where
  "pol_state m s = (case m s of (r, t) \<Rightarrow> (map_err PolState r, t))"

definition load_policy ::
  "(scope_policy, 'z) json_env_scheme \<Rightarrow> path \<Rightarrow> policy_target \<Rightarrow> policy_snapshot option policy_exec" where
  "load_policy E root t =
     bind_exec (pure_exec (validate_target t)) (\<lambda>_.
     bind_exec (pure_exec (resource_path root t)) (\<lambda>p.
     bind_exec (pol_state (load E policy_state_schema_version p)) (\<lambda>s.
     pure_exec (Inr (map_option policy_snapshot_of s)))))"

definition swap_scope_policy ::
  "(scope_policy, 'z) json_env_scheme \<Rightarrow> path \<Rightarrow> policy_target \<Rightarrow> scope_policy \<Rightarrow> state_revision option \<Rightarrow>
     owner_generation \<Rightarrow> state_revision policy_exec" where
  "swap_scope_policy E root t policy expected owner =
     bind_exec (pure_exec (validate_target t)) (\<lambda>_.
     bind_exec (pure_exec (resource_path root t)) (\<lambda>p.
     pol_state (compare_and_swap E policy_state_schema_version p expected owner policy)))"

definition save_policy ::
  "(scope_policy, 'z) json_env_scheme \<Rightarrow> path \<Rightarrow> policy_target \<Rightarrow> scope_policy \<Rightarrow> state_revision option \<Rightarrow>
     owner_generation \<Rightarrow> state_revision policy_exec" where
  "save_policy E root t policy expected owner = swap_scope_policy E root t policy expected owner"

definition remove_policy ::
  "(scope_policy, 'z) json_env_scheme \<Rightarrow> path \<Rightarrow> policy_target \<Rightarrow> state_revision \<Rightarrow> unit policy_exec" where
  "remove_policy E root t expected =
     bind_exec (pure_exec (resource_path root t)) (\<lambda>p.
     pol_state (remove_if_revision E policy_state_schema_version p expected))"

definition restore_checkpoint ::
  "(scope_policy, 'z) json_env_scheme \<Rightarrow> path \<Rightarrow> policy_target \<Rightarrow> scope_policy option \<Rightarrow> state_revision \<Rightarrow>
     owner_generation \<Rightarrow> unit policy_exec" where
  "restore_checkpoint E root t checkpoint applied owner =
     bind_exec (pure_exec (resource_path root t)) (\<lambda>p.
     (case checkpoint of
        Some policy \<Rightarrow>
          bind_exec (pol_state (compare_and_swap E policy_state_schema_version p (Some applied) owner policy))
            (\<lambda>_. pure_exec (Inr ()))
      | None \<Rightarrow> pol_state (remove_if_revision E policy_state_schema_version p applied)))"

definition load_resolution_policies ::
  "(scope_policy, 'z) json_env_scheme \<Rightarrow> path \<Rightarrow> string \<Rightarrow> string \<Rightarrow> scope_policy option \<Rightarrow>
     resolution_policies policy_exec" where
  "load_resolution_policies E root r w session =
     bind_exec (load_policy E root TargetGlobal) (\<lambda>global.
     bind_exec (pure_exec (repository_target r)) (\<lambda>repository.
     bind_exec (load_policy E root repository) (\<lambda>repository.
     bind_exec (pure_exec (workspace_target r w)) (\<lambda>workspace.
     bind_exec (load_policy E root workspace) (\<lambda>workspace.
     pure_exec (Inr \<lparr>pol_global = (case global of None \<Rightarrow> default_scope_policy | Some s \<Rightarrow> pol_policy s),
       pol_repository = map_option pol_policy repository, pol_workspace = map_option pol_policy workspace,
       pol_session = session\<rparr>))))))"

section \<open>Profile documents\<close>

datatype profile_store_error =
    ProfStoreState state_error
  | ProfStoreValidation profile_validation_error
  | ProfStoreInvalidProfileId string
  | ProfStoreInvalidDigest string
  | ProfStoreMissingRevision string
  | ProfStoreImmutableCollision string
  | ProfStoreDigestMismatch string string
  | ProfStoreIo string
  | UnsafeDefinitionEntry
  | MissingDefinitionState
  | DefinitionPathMismatch

definition profile_state_schema_version :: u32 where
  "profile_state_schema_version = 1"

definition get_global_profiles_dir :: "path \<Rightarrow> path" where
  "get_global_profiles_dir root = root @ [''profiles'']"

definition get_global_profile_definition_path :: "path \<Rightarrow> string \<Rightarrow> path" where
  "get_global_profile_definition_path root i = get_global_profiles_dir root @ [json_file i]"

definition get_profile_revision_path :: "path \<Rightarrow> string \<Rightarrow> path" where
  "get_profile_revision_path root digest = get_global_profiles_dir root @ [''revisions'', json_file digest]"

definition prof_state ::
  "('v disk, state_error, 'a) exec \<Rightarrow> ('v disk, profile_store_error, 'a) exec" where
  "prof_state m s = (case m s of (r, t) \<Rightarrow> (map_err ProfStoreState r, t))"

definition validated :: "profile_validation_error + 'a \<Rightarrow> ('s, profile_store_error, 'a) exec" where
  "validated r = pure_exec (map_err ProfStoreValidation r)"

record profile_store_env = profile_env +
  definition_render :: "profile_definition stored_document \<Rightarrow> string + string"
  revision_render :: "compiled_revision stored_document \<Rightarrow> string + string"

definition definition_env :: "('z) profile_store_env_scheme \<Rightarrow> profile_definition json_env" where
  "definition_env E = \<lparr>sha256 = sha256 E, render = definition_render E\<rparr>"

definition revision_env :: "('z) profile_store_env_scheme \<Rightarrow> compiled_revision json_env" where
  "revision_env E = \<lparr>sha256 = sha256 E, render = revision_render E\<rparr>"

definition save_global_definition ::
  "('z) profile_store_env_scheme \<Rightarrow> path \<Rightarrow> profile_definition \<Rightarrow> state_revision option \<Rightarrow>
     owner_generation \<Rightarrow> (profile_definition disk, profile_store_error, state_revision) exec" where
  "save_global_definition E root d expected owner =
     bind_exec (validated (to_export_json E d)) (\<lambda>_.
     prof_state (compare_and_swap (definition_env E) profile_state_schema_version
       (get_global_profile_definition_path root (def_id d)) expected owner d))"

definition load_global_definition ::
  "('z) profile_store_env_scheme \<Rightarrow> path \<Rightarrow> string \<Rightarrow>
     (profile_definition disk, profile_store_error, profile_definition state_snapshot option) exec" where
  "load_global_definition E root i =
     bind_exec (pure_exec (ensure (valid_profile_id i) (ProfStoreInvalidProfileId i))) (\<lambda>_.
     prof_state (load (definition_env E) profile_state_schema_version
       (get_global_profile_definition_path root i)))"

definition materialize_revision ::
  "('z) profile_store_env_scheme \<Rightarrow> path \<Rightarrow> compiled_revision \<Rightarrow> owner_generation \<Rightarrow>
     (compiled_revision disk, profile_store_error, state_revision) exec" where
  "materialize_revision E root r owner =
     bind_exec (validated (verify_digest E r)) (\<lambda>_ s.
     (let p = get_profile_revision_path root (rev_digest r) in
      case prof_state (compare_and_swap (revision_env E) profile_state_schema_version p None owner r) s of
        (Inr revision, t) \<Rightarrow> (Inr revision, t)
      | (Inl (ProfStoreState (StaleRevision x y)), t) \<Rightarrow>
          bind_exec (prof_state (load (revision_env E) profile_state_schema_version p)) (\<lambda>found.
          bind_exec (pure_exec (ok_or found (ProfStoreMissingRevision (rev_digest r)))) (\<lambda>existing.
          bind_exec (pure_exec (ensure (snapshot_value existing = r)
              (ProfStoreImmutableCollision (rev_digest r)))) (\<lambda>_.
          pure_exec (Inr (snapshot_revision existing))))) t
      | (Inl e, t) \<Rightarrow> (Inl e, t)))"

definition load_revision ::
  "('z) profile_store_env_scheme \<Rightarrow> path \<Rightarrow> string \<Rightarrow>
     (compiled_revision disk, profile_store_error, compiled_revision option) exec" where
  "load_revision E root digest =
     bind_exec (pure_exec (ensure (is_lower_hex_digest digest) (ProfStoreInvalidDigest digest))) (\<lambda>_.
     bind_exec (prof_state (load (revision_env E) profile_state_schema_version
       (get_profile_revision_path root digest))) (\<lambda>found.
     (case found of
        None \<Rightarrow> pure_exec (Inr None)
      | Some snapshot \<Rightarrow>
          bind_exec (pure_exec (ensure (rev_digest (snapshot_value snapshot) = digest)
              (ProfStoreDigestMismatch digest (rev_digest (snapshot_value snapshot))))) (\<lambda>_.
          bind_exec (validated (verify_digest E (snapshot_value snapshot))) (\<lambda>_.
          pure_exec (Inr (Some (snapshot_value snapshot))))))))"

section \<open>What the stores guarantee\<close>

text \<open>The disk when nothing goes wrong any more.\<close>

definition quiet :: "'v disk \<Rightarrow> 'v disk" where
  "quiet d = d\<lparr>faults := []\<rparr>"

lemma quiet_sel [simp]: "files (quiet d) = files d" "faults (quiet d) = []"
  by (simp_all add: quiet_def)

lemma pol_state_ok [simp]: "pol_state m s = (Inr x, t) \<longleftrightarrow> m s = (Inr x, t)"
  by (cases "m s"; cases "fst (m s)") (auto simp: pol_state_def)

lemma prof_state_result: "prof_state m s = (r, t) \<longleftrightarrow> (\<exists>q. m s = (q, t) \<and> r = map_err ProfStoreState q)"
  by (auto simp: prof_state_def split: prod.splits)

lemma schema_versions [simp]: "policy_state_schema_version \<noteq> 0" "profile_state_schema_version \<noteq> 0"
  by (simp_all add: policy_state_schema_version_def profile_state_schema_version_def)

lemma target_path_inject [simp]: "target_path root t = target_path root u \<longleftrightarrow> t = u"
  by (cases t; cases u) (auto simp: get_global_policy_path_def get_repository_policy_path_def
      get_workspace_policy_state_path_def encode_path_segment_inject)

text \<open>Loading from a quiet disk is reading the document.\<close>

lemma load_policy_quiet:
  "fst (load_policy E root t (quiet d)) =
     and_then (validate_target t) (\<lambda>_.
     map_err PolState (and_then (stored E policy_state_schema_version d (target_path root t)) (\<lambda>s.
     Inr (map_option policy_snapshot_of s))))"
  by (cases "validate_target t"; cases "stored E policy_state_schema_version d (target_path root t)")
    (simp_all add: load_policy_def resource_path_def bind_exec_def pure_exec_def pol_state_def load_no_fault)

lemma load_policy_cong:
  "map_of (files c) (target_path root t) = map_of (files d) (target_path root t) \<Longrightarrow>
     fst (load_policy E root t (quiet c)) = fst (load_policy E root t (quiet d))"
  using read_snapshot_cong [of "files c" "target_path root t" "files d" E policy_state_schema_version]
  by (simp add: load_policy_quiet)

lemma save_policy_ok:
  assumes "save_policy E root t policy expected owner d = (Inr rv, d')"
  shows "validate_target t = Inr ()"
    "compare_and_swap E policy_state_schema_version (target_path root t) expected owner policy d = (Inr rv, d')"
  using assms by (auto simp: save_policy_def swap_scope_policy_def resource_path_def bind_exec_ok)

lemma remove_if_revision_ok:
  assumes "remove_if_revision E schema p x d = (Inr (), t)"
  shows "map_of (files t) p = None"
proof -
  obtain f d' where "remove_file p f d' = (Inr (), t)"
    using assms by (auto simp: remove_if_revision_def bind_exec_ok Let_def)
  then have "files t = AList.delete p (files d')"
    by (auto simp: remove_file_def Let_def split: fault.splits)
  then show ?thesis by simp
qed

lemma compare_and_swap_immutable:
  assumes "compare_and_swap E schema p None owner v d = (r, t)" "stored E schema d q = Inr (Some s)"
  shows "stored E schema t q = Inr (Some s)"
proof -
  have "map_of (files t) q = map_of (files d) q"
  proof (cases "q = p")
    case True
    with compare_and_swap_result [OF assms(1)] assms(2) show ?thesis by auto
  next
    case False
    with compare_and_swap_files [OF assms(1)] show ?thesis by blast
  qed
  with assms(2) read_snapshot_cong [of "files t" q "files d"] show ?thesis by metis
qed

section \<open>Properties\<close>

text \<open>
  Policies are kept apart. A saved policy is read back as it was saved, with the revision and
  owner of the save, and saving it changes what no other target reads: no repository or workspace
  key can address the document of another target.
\<close>

theorem saved_policies_are_kept_apart:
  "case save_policy E root t policy expected owner d of
     (Inl _, _) \<Rightarrow> True
   | (Inr rv, d') \<Rightarrow> fst (load_policy E root u (quiet d')) =
       (if u = t then Inr (Some \<lparr>pol_revision = rv, pol_owner = owner, pol_policy = policy\<rparr>)
        else fst (load_policy E root u (quiet d)))"
proof (cases "save_policy E root t policy expected owner d")
  case (Pair r d')
  show ?thesis
  proof (cases r)
    case (Inr rv)
    with Pair have saved: "save_policy E root t policy expected owner d = (Inr rv, d')" by simp
    note cas = save_policy_ok [OF saved]
    have "fst (load_policy E root t (quiet d')) =
        Inr (Some \<lparr>pol_revision = rv, pol_owner = owner, pol_policy = policy\<rparr>)"
      using compare_and_swap_ok(1) [OF cas(2)] cas(1)
      by (simp add: load_policy_quiet policy_snapshot_of_def)
    moreover have "fst (load_policy E root u (quiet d')) = fst (load_policy E root u (quiet d))" if "u \<noteq> t"
      by (rule load_policy_cong) (use compare_and_swap_files [OF cas(2), of "target_path root u"] that in simp)
    ultimately show ?thesis using saved by simp
  qed (use Pair in simp)
qed

text \<open>
  C25: Restoring a checkpoint undoes a save. When a policy was loaded, replaced by a save, and the
  checkpoint of the loaded one is restored against the revision of that save, the target reads
  the policy it had before, or nothing if it had none.
\<close>

theorem restoring_a_checkpoint_undoes_a_save:
  "case (fst (load_policy E root t (quiet d)), save_policy E root t policy expected owner d) of
     (Inr before, Inr rv, d1) \<Rightarrow>
       (case restore_checkpoint E root t (map_option pol_policy before) rv owner' d1 of
          (Inl _, _) \<Rightarrow> True
        | (Inr _, d2) \<Rightarrow> (case fst (load_policy E root t (quiet d2)) of
            Inl _ \<Rightarrow> False
          | Inr restored \<Rightarrow> map_option pol_policy restored = map_option pol_policy before))
   | _ \<Rightarrow> True"
proof -
  have "case fst (load_policy E root t (quiet d2)) of
            Inl _ \<Rightarrow> False | Inr restored \<Rightarrow> map_option pol_policy restored = map_option pol_policy before"
    if saved: "save_policy E root t policy expected owner d = (Inr rv, d1)"
      and restored: "restore_checkpoint E root t (map_option pol_policy before) rv owner' d1 = (Inr (), d2)"
    for before rv d1 d2
  proof -
    note valid = save_policy_ok(1) [OF saved]
    show ?thesis
    proof (cases before)
      case None
      with restored valid have "remove_if_revision E policy_state_schema_version (target_path root t) rv d1 =
          (Inr (), d2)"
        by (auto simp: restore_checkpoint_def resource_path_def bind_exec_ok)
      from remove_if_revision_ok [OF this] None valid show ?thesis
        by (simp add: load_policy_quiet read_snapshot_def read_snapshot_compatible_def)
    next
      case (Some s)
      with restored valid obtain rv' where "compare_and_swap E policy_state_schema_version
          (target_path root t) (Some rv) owner' (pol_policy s) d1 = (Inr rv', d2)"
        by (auto simp: restore_checkpoint_def resource_path_def bind_exec_ok)
      from compare_and_swap_ok(1) [OF this] Some valid show ?thesis
        by (simp add: load_policy_quiet policy_snapshot_of_def)
    qed
  qed
  note step = this
  obtain q d1 where save: "save_policy E root t policy expected owner d = (q, d1)" by fastforce
  show ?thesis
  proof (cases "fst (load_policy E root t (quiet d))"; cases q)
    fix before rv
    assume loaded: "fst (load_policy E root t (quiet d)) = Inr before" and q: "q = Inr rv"
    obtain res d2 where restore:
      "restore_checkpoint E root t (map_option pol_policy before) rv owner' d1 = (res, d2)" by fastforce
    show ?thesis
    proof (cases res)
      case (Inr u)
      with save q restore step [of rv d1 before d2] loaded show ?thesis by simp
    qed (use save q restore loaded in simp)
  qed (use save in simp_all)
qed

lemma materialize_revision_files:
  assumes "materialize_revision E root r owner d = (res, t)"
    "stored (revision_env E) profile_state_schema_version d q = Inr (Some s)"
  shows "stored (revision_env E) profile_state_schema_version t q = Inr (Some s)"
proof (cases "verify_digest E r")
  case (Inl e)
  with assms show ?thesis by (auto simp: materialize_revision_def bind_exec_pure validated_def)
next
  case (Inr u)
  let ?p = "get_profile_revision_path root (rev_digest r)"
  obtain q' t' where cas: "compare_and_swap (revision_env E) profile_state_schema_version ?p None owner r d = (q', t')"
    by fastforce
  then have state: "prof_state (compare_and_swap (revision_env E) profile_state_schema_version ?p None owner r) d =
      (map_err ProfStoreState q', t')" by (simp add: prof_state_def)
  have "files t = files t'"
  proof (cases "\<exists>x y. q' = Inl (StaleRevision x y)")
    case True
    with assms(1) Inr state show ?thesis
      by (auto simp: materialize_revision_def bind_exec_pure validated_def Let_def bind_exec_result
          prof_state_result dest: load_files)
  next
    case False
    with assms(1) Inr state show ?thesis
      by (cases q'; cases "projl q'")
        (auto simp: materialize_revision_def bind_exec_pure validated_def Let_def)
  qed
  with compare_and_swap_immutable [OF cas assms(2)] show ?thesis by simp
qed

lemma materialize_revision_ok:
  assumes "materialize_revision E root r owner d = (Inr rv, t)"
  shows "verify_digest E r = Inr ()"
    "\<exists>s. stored (revision_env E) profile_state_schema_version t (get_profile_revision_path root (rev_digest r)) =
       Inr (Some s) \<and> snapshot_value s = r"
proof -
  let ?p = "get_profile_revision_path root (rev_digest r)"
  show v: "verify_digest E r = Inr ()"
    using assms by (auto simp: materialize_revision_def bind_exec_ok validated_def)
  obtain q t' where cas: "compare_and_swap (revision_env E) profile_state_schema_version ?p None owner r d = (q, t')"
    by fastforce
  then have state: "prof_state (compare_and_swap (revision_env E) profile_state_schema_version ?p None owner r) d =
      (map_err ProfStoreState q, t')" by (simp add: prof_state_def)
  show "\<exists>s. stored (revision_env E) profile_state_schema_version t ?p = Inr (Some s) \<and> snapshot_value s = r"
  proof (cases "\<exists>x y. q = Inl (StaleRevision x y)")
    case True
    with assms v state obtain s where "load (revision_env E) profile_state_schema_version ?p t' = (Inr (Some s), t)"
      "snapshot_value s = r"
      by (auto simp: materialize_revision_def bind_exec_pure validated_def Let_def bind_exec_ok
          prof_state_result)
    with load_ok [OF this(1)] show ?thesis by auto
  next
    case False
    with assms v state have "q = Inr rv" "t = t'"
      by (cases q; cases "projl q"; simp add: materialize_revision_def bind_exec_pure validated_def Let_def)+
    with compare_and_swap_ok(1) [of "revision_env E"] cas show ?thesis by force
  qed
qed

text \<open>
  C26: Published revisions are immutable and can be read back: after publishing a revision, loading
  its digest returns that revision (or refuses a digest that is not one), and publishing anything,
  also when it fails, leaves every revision already published as it was.
\<close>

theorem published_revisions_are_immutable:
  "case materialize_revision E root r owner d of (result, t) \<Rightarrow>
     (case result of
        Inl _ \<Rightarrow> True
      | Inr _ \<Rightarrow> fst (load_revision E root (rev_digest r) (quiet t)) =
          (if is_lower_hex_digest (rev_digest r) then Inr (Some r)
           else Inl (ProfStoreInvalidDigest (rev_digest r)))) \<and>
     (case fst (load_revision E root digest (quiet d)) of
        Inr (Some old) \<Rightarrow> fst (load_revision E root digest (quiet t)) = Inr (Some old)
      | _ \<Rightarrow> True)"
proof -
  obtain result t where run: "materialize_revision E root r owner d = (result, t)" by fastforce
  have load: "fst (load_revision E root g (quiet s)) =
      and_then (ensure (is_lower_hex_digest g) (ProfStoreInvalidDigest g)) (\<lambda>_.
      and_then (map_err ProfStoreState (stored (revision_env E) profile_state_schema_version s
         (get_profile_revision_path root g))) (\<lambda>found.
      (case found of
        None \<Rightarrow> Inr None
      | Some x \<Rightarrow> and_then (ensure (rev_digest (snapshot_value x) = g)
            (ProfStoreDigestMismatch g (rev_digest (snapshot_value x)))) (\<lambda>_.
          and_then (map_err ProfStoreValidation (verify_digest E (snapshot_value x))) (\<lambda>_.
          Inr (Some (snapshot_value x))))))) " for g s
    by (cases "is_lower_hex_digest g"; cases "stored (revision_env E) profile_state_schema_version s
         (get_profile_revision_path root g)")
      (auto simp: load_revision_def bind_exec_def pure_exec_def validated_def prof_state_def load_no_fault
        and_then_def ensure_def map_err_def split: option.split sum.split)
  have "fst (load_revision E root (rev_digest r) (quiet t)) =
          (if is_lower_hex_digest (rev_digest r) then Inr (Some r)
           else Inl (ProfStoreInvalidDigest (rev_digest r)))" if "result = Inr rv" for rv
  proof -
    from run that have "materialize_revision E root r owner d = (Inr rv, t)" by simp
    from materialize_revision_ok [OF this] show ?thesis by (auto simp: load)
  qed
  moreover have "fst (load_revision E root digest (quiet t)) = Inr (Some old)"
    if "fst (load_revision E root digest (quiet d)) = Inr (Some old)" for old
  proof -
    from that obtain s where s: "stored (revision_env E) profile_state_schema_version d
        (get_profile_revision_path root digest) = Inr (Some s)"
      by (auto simp: load split: option.splits)
    with materialize_revision_files [OF run s] that show ?thesis by (auto simp: load)
  qed
  ultimately show ?thesis by (simp add: run split: sum.split option.split)
qed

end
