(* ===== verification/Profile_Proposal.thy ===== *)
theory Profile_Proposal
  imports Policy_Store
begin

text \<open>
  \<open>profiles/inference.rs\<close>: proposing a profile for a prompt by the terms they share. Nothing is
  changed by a proposal; it has to be confirmed. JSON printing is a parameter.
\<close>

record profile_definition_entry =
  entry_scope :: profile_source_scope
  entry_definition :: profile_definition
  entry_revision :: "state_revision option"

record profile_proposal_candidate =
  cand_profile_id :: string
  cand_display_name :: string
  cand_scope :: profile_source_scope
  cand_score :: u32
  cand_matched_terms :: "string list"

record profile_proposal =
  prop_schema_version :: u32
  prop_prompt_digest :: string
  prop_repository_key :: string
  prop_workspace_key :: string
  prop_provider :: "provider_id option"
  prop_candidates :: "profile_proposal_candidate list"
  prop_recommended :: "profile_proposal_candidate option"
  prop_fingerprint :: string
  prop_confirmation_required :: bool
  prop_mutates_state :: bool
  prop_activation :: string

datatype profile_proposal_error =
    InvalidPrompt
  | PromptHasNoTerms
  | InvalidContext
  | ProfileLimitExceeded
  | ProposalSerialization string

record proposal_env = hashing +
  proposal_json :: "u32 \<Rightarrow> string \<Rightarrow> string \<Rightarrow> string \<Rightarrow> provider_id option \<Rightarrow>
    profile_proposal_candidate list \<Rightarrow> profile_proposal_candidate option \<Rightarrow> string + string"

definition profile_proposal_schema_version :: u32 where
  "profile_proposal_schema_version = 1"

definition max_prompt_bytes :: nat where
  "max_prompt_bytes = 16 * 1024"

definition max_profile_count :: nat where
  "max_profile_count = 4096"

definition max_candidates :: nat where
  "max_candidates = 20"

definition stop_words :: "string list" where
  "stop_words = [''and'', ''for'', ''from'', ''into'', ''please'', ''that'', ''the'', ''this'', ''use'', ''with'']"

text \<open>
  \<open>split\<close> at what is not an ASCII letter or digit. Every byte of another character is such a
  separator, so splitting the bytes gives the same non-empty pieces.
\<close>

fun split_terms :: "string \<Rightarrow> string \<Rightarrow> string list" where
  "split_terms acc [] = [rev acc]"
| "split_terms acc (c # s) =
     (if is_alnum c then split_terms (c # acc) s else rev acc # split_terms [] s)"

text \<open>A \<open>BTreeSet<String>\<close> is the sorted list of its members.\<close>

definition tokens :: "string \<Rightarrow> string list" where
  "tokens v =
     sort (remdups (filter (\<lambda>term. term \<notin> set stop_words)
       (map (map to_lower) (filter (\<lambda>term. 2 \<le> length term) (split_terms [] v)))))"

fun scope_rank :: "profile_source_scope \<Rightarrow> nat" where
  "scope_rank SrcGlobal = 0"
| "scope_rank SrcRepository = 1"
| "scope_rank SrcWorkspace = 2"
| "scope_rank SrcSession = 3"

text \<open>A control character that is not white space, on the bytes.\<close>

fun has_hard_control :: "string \<Rightarrow> bool" where
  "has_hard_control [] \<longleftrightarrow> False"
| "has_hard_control [a] \<longleftrightarrow> (code a < 32 \<or> code a = 127) \<and> \<not> white1 a"
| "has_hard_control (a # b # s) \<longleftrightarrow>
     ((code a < 32 \<or> code a = 127) \<and> \<not> white1 a) \<or>
     (code a = 194 \<and> 128 \<le> code b \<and> code b \<le> 159 \<and> \<not> white2 a b) \<or> has_hard_control (b # s)"

definition validate_prompt :: "string \<Rightarrow> profile_proposal_error + unit" where
  "validate_prompt v =
     ensure (\<not> (blank v \<or> length v > max_prompt_bytes \<or> has_hard_control v)) InvalidPrompt"

definition validate_context_key :: "string \<Rightarrow> profile_proposal_error + unit" where
  "validate_context_key v = ensure (\<not> (blank v \<or> length v > 512 \<or> has_control v)) InvalidContext"

definition saturating_add :: "u32 \<Rightarrow> u32 \<Rightarrow> u32" where
  "saturating_add a b = (if unat a + unat b < 2 ^ 32 then a + b else -1)"

definition score_term :: "string list \<Rightarrow> string list \<Rightarrow> string list \<Rightarrow> string \<Rightarrow> u32 \<Rightarrow> u32" where
  "score_term ids names descriptions t score =
     (let score = (if t \<in> set ids then saturating_add score 8 else score);
          score = (if t \<in> set names then saturating_add score 4 else score) in
      if t \<in> set descriptions then saturating_add score 2 else score)"

definition score_candidate ::
  "string list \<Rightarrow> profile_definition_entry \<Rightarrow> profile_proposal_candidate option" where
  "score_candidate prompt entry =
     (let d = entry_definition entry;
          ids = tokens (def_id d);
          names = tokens (def_display_name d);
          descriptions = (case def_description d of None \<Rightarrow> [] | Some v \<Rightarrow> tokens v);
          score = fold (score_term ids names descriptions) prompt 0 in
      if score > 0
      then Some \<lparr>cand_profile_id = def_id d, cand_display_name = def_display_name d,
        cand_scope = entry_scope entry, cand_score = score,
        cand_matched_terms = filter (\<lambda>t. t \<in> set ids \<or> t \<in> set names \<or> t \<in> set descriptions) prompt\<rparr>
      else None)"

text \<open>Of the entries with one id the one of the innermost scope stays, the first among equals.\<close>

fun effective_profiles ::
  "nat \<Rightarrow> profile_definition_entry list \<Rightarrow> (string, profile_definition_entry) btree \<Rightarrow>
     profile_proposal_error + (string, profile_definition_entry) btree" where
  "effective_profiles k [] m = Inr m"
| "effective_profiles k (x # xs) m =
     and_then (ensure (k < max_profile_count) ProfileLimitExceeded) (\<lambda>_.
     (let i = def_id (entry_definition x) in
      effective_profiles (Suc k) xs
        (case map_of m i of
           Some existing \<Rightarrow>
             if scope_rank (entry_scope existing) \<ge> scope_rank (entry_scope x) then m else btree_insert i x m
         | None \<Rightarrow> btree_insert i x m)))"

text \<open>\<open>sort_by\<close>: by score downwards, then by id, then by scope downwards.\<close>

definition candidate_key :: "profile_proposal_candidate \<Rightarrow> nat \<times> string \<times> nat" where
  "candidate_key c = (2 ^ 32 - unat (cand_score c), cand_profile_id c, 3 - scope_rank (cand_scope c))"

definition recommend :: "profile_proposal_candidate list \<Rightarrow> profile_proposal_candidate option" where
  "recommend cs =
     (case cs of
        [] \<Rightarrow> None
      | [c] \<Rightarrow> Some c
      | c # next # _ \<Rightarrow> if cand_score next < cand_score c then Some c else None)"

definition ranked_candidates ::
  "string list \<Rightarrow> (string, profile_definition_entry) btree \<Rightarrow> profile_proposal_candidate list" where
  "ranked_candidates prompt m =
     take max_candidates (sort_key candidate_key (filter_map (score_candidate prompt) (map snd m)))"

definition propose_profile ::
  "('z) proposal_env_scheme \<Rightarrow> string \<Rightarrow> string \<Rightarrow> string \<Rightarrow> provider_id option \<Rightarrow>
     profile_definition_entry list \<Rightarrow> profile_proposal_error + profile_proposal" where
  "propose_profile E prompt repository workspace p profiles =
     and_then (validate_prompt prompt) (\<lambda>_.
     and_then (validate_context_key repository) (\<lambda>_.
     and_then (validate_context_key workspace) (\<lambda>_.
     (let terms = tokens prompt in
      and_then (ensure (terms \<noteq> []) PromptHasNoTerms) (\<lambda>_.
      and_then (effective_profiles 0 profiles []) (\<lambda>effective.
      (let candidates = ranked_candidates terms effective;
           recommended = recommend candidates;
           digest = stable_hash E prompt in
       and_then (map_err ProposalSerialization (proposal_json E profile_proposal_schema_version digest
          repository workspace p candidates recommended)) (\<lambda>bytes.
       Inr \<lparr>prop_schema_version = profile_proposal_schema_version, prop_prompt_digest = digest,
            prop_repository_key = repository, prop_workspace_key = workspace, prop_provider = p,
            prop_candidates = candidates, prop_recommended = recommended,
            prop_fingerprint = stable_hash E bytes, prop_confirmation_required = True,
            prop_mutates_state = False, prop_activation = ''session-only-after-explicit-launch''\<rparr>))))))))"

section \<open>Scores\<close>

text \<open>The score as a natural number, without saturation.\<close>

definition term_weight :: "string list \<Rightarrow> string list \<Rightarrow> string list \<Rightarrow> string \<Rightarrow> nat" where
  "term_weight ids names descriptions t =
     (if t \<in> set ids then 8 else 0) + (if t \<in> set names then 4 else 0) +
     (if t \<in> set descriptions then 2 else 0)"

lemma saturating_add_exact:
  "unat a + unat b < 2 ^ 32 \<Longrightarrow> unat (saturating_add a b) = unat a + unat b"
  by (simp add: saturating_add_def unat_word_ariths)

lemma unat_small [simp]: "unat (8 :: u32) = 8" "unat (4 :: u32) = 4" "unat (2 :: u32) = 2"
  by simp_all

lemma score_term_exact:
  assumes "unat score + 14 < 2 ^ 32"
  shows "unat (score_term ids names descriptions t score) = unat score + term_weight ids names descriptions t"
  using assms by (simp add: score_term_def term_weight_def Let_def saturating_add_exact)

lemma score_exact:
  assumes "unat score + 14 * length prompt < 2 ^ 32"
  shows "unat (fold (score_term ids names descriptions) prompt score) =
    unat score + sum_list (map (term_weight ids names descriptions) prompt)"
  using assms
proof (induction prompt arbitrary: score)
  case (Cons t prompt)
  have "term_weight ids names descriptions t \<le> 14" by (simp add: term_weight_def)
  with Cons score_term_exact [of score ids names descriptions t] show ?case by simp
qed simp

lemma split_terms_length: "sum_list (map (\<lambda>t. Suc (length t)) (split_terms acc s)) = Suc (length acc + length s)"
  by (induction acc s rule: split_terms.induct) auto

lemma length_filter_long:
  "2 * length (filter (\<lambda>t. 2 \<le> length t) ts) \<le> sum_list (map (\<lambda>t. Suc (length t)) ts)"
  by (induction ts) auto

lemma length_tokens: "2 * length (tokens v) \<le> Suc (length v)"
proof -
  have "length (tokens v) \<le> length (filter (\<lambda>t. 2 \<le> length t) (split_terms [] v))"
    unfolding tokens_def by (simp add: order.trans [OF length_remdups_leq order.trans [OF length_filter_le]])
  also have "2 * \<dots> \<le> sum_list (map (\<lambda>t. Suc (length t)) (split_terms [] v))" by (rule length_filter_long)
  finally show ?thesis by (simp add: split_terms_length)
qed

lemma effective_profiles_ok:
  assumes "effective_profiles k xs m = Inr n" "btree_ok m" "k \<le> max_profile_count"
  shows "btree_ok n" "k + length xs \<le> max_profile_count"
  using assms
  by (induction k xs m rule: effective_profiles.induct)
    (auto simp: Let_def split: option.splits if_splits)

text \<open>The step of the loop: what is kept for the id of the entry.\<close>

definition keep_inner ::
  "profile_definition_entry \<Rightarrow> (string, profile_definition_entry) btree \<Rightarrow>
     (string, profile_definition_entry) btree" where
  "keep_inner x m =
     (let i = def_id (entry_definition x) in
      case map_of m i of
        Some existing \<Rightarrow>
          if scope_rank (entry_scope existing) \<ge> scope_rank (entry_scope x) then m else btree_insert i x m
      | None \<Rightarrow> btree_insert i x m)"

lemma effective_profiles_Cons:
  "effective_profiles k (x # xs) m = Inr n \<longleftrightarrow>
     k < max_profile_count \<and> effective_profiles (Suc k) xs (keep_inner x m) = Inr n"
  by (simp add: keep_inner_def Let_def)

declare effective_profiles.simps(2) [simp del]

definition entries_ok :: "profile_definition_entry set \<Rightarrow> (string, profile_definition_entry) btree \<Rightarrow> bool" where
  "entries_ok A m \<longleftrightarrow>
     btree_ok m \<and> (\<forall>e\<in>set m. snd e \<in> A \<and> def_id (entry_definition (snd e)) = fst e) \<and>
     (\<forall>y\<in>A. \<exists>x. map_of m (def_id (entry_definition y)) = Some x \<and>
        scope_rank (entry_scope y) \<le> scope_rank (entry_scope x))"

lemma keep_inner_ok:
  assumes "entries_ok A m"
  shows "entries_ok (insert x A) (keep_inner x m)"
proof -
  let ?i = "def_id (entry_definition x)"
  have m: "btree_ok m" using assms by (simp add: entries_ok_def)
  consider (stays) y where "map_of m ?i = Some y" "scope_rank (entry_scope x) \<le> scope_rank (entry_scope y)"
      "keep_inner x m = m"
    | (enters) "keep_inner x m = btree_insert ?i x m"
      "\<forall>y. map_of m ?i = Some y \<longrightarrow> scope_rank (entry_scope y) < scope_rank (entry_scope x)"
    by (cases "map_of m ?i") (force simp: keep_inner_def not_le)+
  then show ?thesis
  proof cases
    case stays
    with assms show ?thesis by (auto simp: entries_ok_def)
  next
    case enters
    have "\<exists>z. map_of (btree_insert ?i x m) (def_id (entry_definition y)) = Some z \<and>
        scope_rank (entry_scope y) \<le> scope_rank (entry_scope z)" if "y \<in> insert x A" for y
    proof (cases "def_id (entry_definition y) = ?i \<and> y \<noteq> x")
      case True
      with that assms obtain z where "map_of m ?i = Some z" "scope_rank (entry_scope y) \<le> scope_rank (entry_scope z)"
        unfolding entries_ok_def by force
      with enters(2) True m show ?thesis by force
    next
      case False
      with that assms m show ?thesis by (cases "y = x") (auto simp: entries_ok_def)
    qed
    with assms enters(1) m set_btree_insert_subset [of ?i x m] show ?thesis
      by (fastforce simp: entries_ok_def)
  qed
qed

lemma effective_profiles_entries:
  "effective_profiles k xs m = Inr n \<Longrightarrow> entries_ok A m \<Longrightarrow> entries_ok (A \<union> set xs) n"
proof (induction xs arbitrary: k m A)
  case (Cons x xs)
  then have "effective_profiles (Suc k) xs (keep_inner x m) = Inr n" by (simp add: effective_profiles_Cons)
  from Cons.IH [OF this keep_inner_ok [OF Cons.prems(2)]] show ?case by simp
qed simp

section \<open>The innermost profiles\<close>

text \<open>
  The specification of which profiles compete, over the list as given: \<open>within s\<close> are the scopes
  inside \<open>s\<close>; a profile is innermost when its scope lies inside that of every earlier profile with
  its id and no later one lies inside its own.
\<close>

fun within :: "profile_source_scope \<Rightarrow> profile_source_scope set" where
  "within SrcGlobal = {SrcRepository, SrcWorkspace, SrcSession}"
| "within SrcRepository = {SrcWorkspace, SrcSession}"
| "within SrcWorkspace = {SrcSession}"
| "within SrcSession = {}"

abbreviation entry_id :: "profile_definition_entry \<Rightarrow> string" where
  "entry_id x \<equiv> def_id (entry_definition x)"

definition innermost :: "profile_definition_entry list \<Rightarrow> profile_definition_entry set" where
  "innermost ps = {x. \<exists>us vs. ps = us @ x # vs \<and>
     (\<forall>u\<in>set us. entry_id u = entry_id x \<longrightarrow> entry_scope x \<in> within (entry_scope u)) \<and>
     (\<forall>v\<in>set vs. entry_id v = entry_id x \<longrightarrow> entry_scope v \<notin> within (entry_scope x))}"

lemma within_rank: "t \<in> within s \<longleftrightarrow> scope_rank s < scope_rank t"
  by (cases s; cases t) simp_all

lemma innermost_subset: "innermost ps \<subseteq> set ps"
  by (auto simp: innermost_def)

lemma innermost_snoc:
  "y \<in> innermost (ps @ [x]) \<longleftrightarrow>
     y \<in> innermost ps \<and> (entry_id x = entry_id y \<longrightarrow> entry_scope x \<notin> within (entry_scope y)) \<or>
     y = x \<and> (\<forall>u\<in>set ps. entry_id u = entry_id x \<longrightarrow> entry_scope x \<in> within (entry_scope u))"
  (is "?l \<longleftrightarrow> ?r")
proof
  assume ?l
  then obtain us vs where split: "ps @ [x] = us @ y # vs"
    "\<forall>u\<in>set us. entry_id u = entry_id y \<longrightarrow> entry_scope y \<in> within (entry_scope u)"
    "\<forall>v\<in>set vs. entry_id v = entry_id y \<longrightarrow> entry_scope v \<notin> within (entry_scope y)"
    by (auto simp: innermost_def)
  show ?r
  proof (cases vs rule: rev_cases)
    case Nil
    with split show ?thesis by auto
  next
    case (snoc ws w)
    with split(1) have "ps = us @ y # ws" "w = x" by auto
    with split(2,3) snoc show ?thesis unfolding innermost_def by auto
  qed
next
  assume ?r
  then show ?l
  proof (elim disjE conjE)
    assume "y \<in> innermost ps" and last: "entry_id x = entry_id y \<longrightarrow> entry_scope x \<notin> within (entry_scope y)"
    then obtain us vs where "ps = us @ y # vs"
      "\<forall>u\<in>set us. entry_id u = entry_id y \<longrightarrow> entry_scope y \<in> within (entry_scope u)"
      "\<forall>v\<in>set vs. entry_id v = entry_id y \<longrightarrow> entry_scope v \<notin> within (entry_scope y)"
      unfolding innermost_def by blast
    with last show ?l
      unfolding innermost_def by (intro CollectI exI [of _ us] exI [of _ "vs @ [x]"]) auto
  next
    assume "y = x" "\<forall>u\<in>set ps. entry_id u = entry_id x \<longrightarrow> entry_scope x \<in> within (entry_scope u)"
    then show ?l unfolding innermost_def by (intro CollectI exI [of _ ps] exI [of _ "[]"]) auto
  qed
qed

definition chosen :: "profile_definition_entry list \<Rightarrow> (string, profile_definition_entry) btree \<Rightarrow> bool" where
  "chosen ps m \<longleftrightarrow> entries_ok (set ps) m \<and>
     (\<forall>i x. map_of m i = Some x \<longleftrightarrow> x \<in> innermost ps \<and> entry_id x = i)"

lemma keep_inner_chosen:
  assumes "chosen ps m"
  shows "chosen (ps @ [x]) (keep_inner x m)"
proof -
  from assms have ok: "entries_ok (set ps) m" and btree: "btree_ok m"
    and iff: "\<And>i y. map_of m i = Some y \<longleftrightarrow> y \<in> innermost ps \<and> entry_id y = i"
    by (auto simp: chosen_def entries_ok_def)
  have known: "\<exists>z. map_of m (entry_id u) = Some z \<and> scope_rank (entry_scope u) \<le> scope_rank (entry_scope z)"
    if "u \<in> set ps" for u using ok that by (simp add: entries_ok_def)
  have "map_of (keep_inner x m) i = Some y \<longleftrightarrow> y \<in> innermost (ps @ [x]) \<and> entry_id y = i" for i y
  proof (cases "\<exists>z. map_of m (entry_id x) = Some z \<and> scope_rank (entry_scope x) \<le> scope_rank (entry_scope z)")
    case True
    then obtain z where z: "map_of m (entry_id x) = Some z" "scope_rank (entry_scope x) \<le> scope_rank (entry_scope z)"
      by blast
    then have "z \<in> set ps" "entry_id z = entry_id x" using iff innermost_subset by blast+
    moreover have "keep_inner x m = m" using z by (simp add: keep_inner_def)
    moreover have "y = z" if "y \<in> innermost ps" "entry_id x = entry_id y" for y
      using iff [of "entry_id x" y] z(1) that by simp
    ultimately have "y \<in> innermost (ps @ [x]) \<longleftrightarrow> y \<in> innermost ps"
      using z(2) unfolding innermost_snoc within_rank by (metis not_le)
    with \<open>keep_inner x m = m\<close> iff show ?thesis by simp
  next
    case False
    then have "keep_inner x m = btree_insert (entry_id x) x m"
      by (auto simp: keep_inner_def Let_def split: option.split)
    moreover have "\<forall>u\<in>set ps. entry_id u = entry_id x \<longrightarrow> scope_rank (entry_scope u) < scope_rank (entry_scope x)"
      using False known by (metis not_le order.trans)
    ultimately show ?thesis
      using btree innermost_subset unfolding innermost_snoc within_rank by (auto simp: iff)
  qed
  with keep_inner_ok [OF ok, of x] show ?thesis by (simp add: chosen_def)
qed

lemma effective_profiles_chosen:
  "effective_profiles k xs m = Inr n \<Longrightarrow> chosen ps m \<Longrightarrow> chosen (ps @ xs) n"
proof (induction xs arbitrary: k m ps)
  case (Cons x xs)
  then have "effective_profiles (Suc k) xs (keep_inner x m) = Inr n" by (simp add: effective_profiles_Cons)
  from Cons.IH [OF this keep_inner_chosen [OF Cons.prems(2)]] show ?case by simp
qed simp

lemma effective_profiles_innermost:
  assumes "effective_profiles 0 profiles [] = Inr m"
  shows "set (map snd m) = innermost profiles" "distinct (map (\<lambda>e. entry_id (snd e)) m)"
proof -
  have "chosen [] []" by (simp add: chosen_def entries_ok_def innermost_def)
  from effective_profiles_chosen [OF assms this] have m: "chosen profiles m" by simp
  then have btree: "btree_ok m" and ids: "\<forall>e\<in>set m. entry_id (snd e) = fst e"
    by (simp_all add: chosen_def entries_ok_def)
  from ids have keys: "map (\<lambda>e. entry_id (snd e)) m = map fst m" by simp
  show "distinct (map (\<lambda>e. entry_id (snd e)) m)" unfolding keys using btree by (rule btree_ok_distinct)
  have "x \<in> set (map snd m) \<longleftrightarrow> x \<in> innermost profiles" for x
  proof
    assume "x \<in> set (map snd m)"
    then obtain i where "(i, x) \<in> set m" by auto
    with btree have "map_of m i = Some x" by (simp add: btree_ok_distinct)
    with m show "x \<in> innermost profiles" by (simp add: chosen_def)
  next
    assume "x \<in> innermost profiles"
    with m have "map_of m (entry_id x) = Some x" by (simp add: chosen_def)
    then show "x \<in> set (map snd m)" by (force dest: map_of_SomeD)
  qed
  then show "set (map snd m) = innermost profiles" by blast
qed

lemma effective_profiles_limit:
  "effective_profiles k xs m = Inl e \<Longrightarrow> e = ProfileLimitExceeded \<and> max_profile_count < k + length xs"
proof (induction xs arbitrary: k m)
  case (Cons x xs)
  show ?case
  proof (cases "k < max_profile_count")
    case True
    with Cons.prems obtain m' where "effective_profiles (Suc k) xs m' = Inl e"
      by (auto simp: effective_profiles.simps(2) Let_def)
    from Cons.IH [OF this] show ?thesis by simp
  next
    case False
    with Cons.prems show ?thesis by (simp add: effective_profiles.simps(2) ensure_def)
  qed
qed simp

section \<open>Ranking\<close>

lemma score_candidate_Some:
  assumes "score_candidate terms x = Some c" "14 * length terms < 2 ^ 32"
  shows "cand_profile_id c = def_id (entry_definition x)"
    "unat (cand_score c) = (\<Sum>t\<leftarrow>terms. term_weight (tokens (def_id (entry_definition x)))
       (tokens (def_display_name (entry_definition x)))
       (case def_description (entry_definition x) of None \<Rightarrow> [] | Some v \<Rightarrow> tokens v) t)"
  using assms score_exact [of 0 terms] by (auto simp: score_candidate_def Let_def split: if_splits)

lemma candidate_key_score: "candidate_key a \<le> candidate_key b \<Longrightarrow> cand_score b \<le> cand_score a"
proof -
  assume "candidate_key a \<le> candidate_key b"
  then have "2 ^ 32 - unat (cand_score a) \<le> 2 ^ 32 - unat (cand_score b)"
    by (auto simp: candidate_key_def)
  moreover have "unat (cand_score b) < 2 ^ 32" using unsigned_less [of "cand_score b"] by simp
  ultimately show "cand_score b \<le> cand_score a" unfolding word_le_nat_alt by linarith
qed

lemma sorted_by_score:
  "sorted_wrt (\<lambda>a b. cand_score b \<le> cand_score a) (sort_key candidate_key cs)"
proof -
  have "sorted (map candidate_key (sort_key candidate_key cs))" by simp
  then show ?thesis
    unfolding sorted_map by (rule sorted_wrt_mono_rel [rotated]) (rule candidate_key_score)
qed

text \<open>
  The specification of the ranking: profiles with a positive score, better ones first, where the
  score is the weighted number of shared terms and the id decides between equal scores.
\<close>

definition profile_score :: "string list \<Rightarrow> profile_definition_entry \<Rightarrow> nat" where
  "profile_score terms x =
     (let d = entry_definition x in
      \<Sum>t\<leftarrow>terms. term_weight (tokens (def_id d)) (tokens (def_display_name d))
        (case def_description d of None \<Rightarrow> [] | Some v \<Rightarrow> tokens v) t)"

definition better :: "string list \<Rightarrow> profile_definition_entry \<Rightarrow> profile_definition_entry \<Rightarrow> bool" where
  "better terms x y \<longleftrightarrow> profile_score terms y < profile_score terms x \<or>
     profile_score terms x = profile_score terms y \<and> entry_id x < entry_id y"

definition matching :: "string list \<Rightarrow> profile_definition_entry list \<Rightarrow> profile_definition_entry set" where
  "matching terms profiles = {x \<in> innermost profiles. 0 < profile_score terms x}"

definition candidate_of :: "string list \<Rightarrow> profile_definition_entry \<Rightarrow> profile_proposal_candidate" where
  "candidate_of terms x = \<lparr>cand_profile_id = entry_id x,
     cand_display_name = def_display_name (entry_definition x), cand_scope = entry_scope x,
     cand_score = of_nat (profile_score terms x),
     cand_matched_terms = filter (\<lambda>t. 0 < profile_score [t] x) terms\<rparr>"

lemma score_candidate_exact:
  assumes "14 * length terms < 2 ^ 32"
  shows "score_candidate terms x = (if 0 < profile_score terms x then Some (candidate_of terms x) else None)"
proof -
  let ?ids = "tokens (entry_id x)" and ?names = "tokens (def_display_name (entry_definition x))"
  let ?descriptions = "case def_description (entry_definition x) of None \<Rightarrow> [] | Some v \<Rightarrow> tokens v"
  have exact: "profile_score terms x = unat (fold (score_term ?ids ?names ?descriptions) terms 0)"
    using score_exact [of 0 terms ?ids ?names ?descriptions] assms by (simp add: profile_score_def Let_def)
  then have "fold (score_term ?ids ?names ?descriptions) terms 0 = of_nat (profile_score terms x)"
    "0 < fold (score_term ?ids ?names ?descriptions) terms 0 \<longleftrightarrow> 0 < profile_score terms x"
    by (simp_all add: word_less_nat_alt exact)
  moreover have "filter (\<lambda>t. t \<in> set ?ids \<or> t \<in> set ?names \<or> t \<in> set ?descriptions) terms =
      filter (\<lambda>t. 0 < profile_score [t] x) terms"
    by (rule filter_cong) (auto simp: profile_score_def Let_def term_weight_def)
  ultimately show ?thesis by (simp add: score_candidate_def candidate_of_def Let_def)
qed

lemma profile_score_bound: "profile_score terms x \<le> 14 * length terms"
proof -
  have "(\<Sum>t\<leftarrow>ts. term_weight a b d t) \<le> 14 * length ts" for a b d ts
    by (induction ts) (simp_all add: term_weight_def)
  then show ?thesis by (simp add: profile_score_def Let_def)
qed

lemma candidate_key_better:
  assumes "candidate_key (candidate_of terms x) \<le> candidate_key (candidate_of terms y)"
    and "entry_id x \<noteq> entry_id y" "14 * length terms < 2 ^ 32"
  shows "better terms x y"
proof -
  have exact: "unat (of_nat (profile_score terms z) :: u32) = profile_score terms z" "profile_score terms z < 2 ^ 32"
    for z
    using profile_score_bound [of terms z] assms(3) by (simp_all add: unat_of_nat)
  from exact(2) [of x] exact(2) [of y] assms(1,2) show ?thesis
    by (auto simp: candidate_key_def candidate_of_def better_def exact(1))
qed

lemma sort_key_map: "sort_key f (map g xs) = map g (sort_key (\<lambda>x. f (g x)) xs)"
proof (induction xs)
  case (Cons x xs)
  have "insort_key f (g x) (map g ys) = map g (insort_key (\<lambda>x. f (g x)) x ys)" for ys
    by (induction ys) simp_all
  with Cons show ?case by simp
qed simp

lemma sorted_wrt_distinct:
  "sorted_wrt R xs \<Longrightarrow> distinct (map f xs) \<Longrightarrow> (\<And>a b. R a b \<Longrightarrow> f a \<noteq> f b \<Longrightarrow> S a b) \<Longrightarrow> sorted_wrt S xs"
  by (induction xs) (force simp: image_iff)+

text \<open>The first \<open>n\<close> of a sorted list are those with fewer than \<open>n\<close> before them.\<close>

lemma take_sorted:
  assumes "sorted_wrt B xs" and asym: "\<And>a b. B a b \<Longrightarrow> \<not> B b a"
  shows "set (take n xs) = {x \<in> set xs. card {y \<in> set xs. B y x} < n}"
proof -
  have less: "B (xs ! i) (xs ! j) \<longleftrightarrow> i < j" if "i < length xs" "j < length xs" for i j
    using assms that by (metis sorted_wrt_iff_nth_less linorder_neqE_nat)
  have "distinct xs"
    unfolding distinct_conv_nth
  proof (intro allI impI)
    fix i j assume "i < length xs" "j < length xs" "i \<noteq> j"
    with less [of i j] less [of j i] less [of i i] show "xs ! i \<noteq> xs ! j" by auto
  qed
  have card: "card {y \<in> set xs. B y (xs ! i)} = i" if "i < length xs" for i
  proof -
    have "{y \<in> set xs. B y (xs ! i)} = nth xs ` {0..<i}"
    proof (intro set_eqI iffI)
      fix y assume "y \<in> {y \<in> set xs. B y (xs ! i)}"
      then obtain j where "j < length xs" "y = xs ! j" "B y (xs ! i)" by (auto simp: in_set_conv_nth)
      with less [of j i] that show "y \<in> nth xs ` {0..<i}" by simp
    next
      fix y assume "y \<in> nth xs ` {0..<i}"
      then obtain j where "j < i" "y = xs ! j" by auto
      with less [of j i] that show "y \<in> {y \<in> set xs. B y (xs ! i)}" by simp
    qed
    with that have "{y \<in> set xs. B y (xs ! i)} = set (take i xs)" by (simp add: nth_image)
    with \<open>distinct xs\<close> that show ?thesis by (simp add: distinct_card)
  qed
  have "x \<in> set (take n xs) \<longleftrightarrow> card {y \<in> set xs. B y x} < n" if "x \<in> set xs" for x
  proof -
    from that obtain i where i: "i < length xs" "x = xs ! i" by (auto simp: in_set_conv_nth)
    have "x \<in> set (take n xs) \<longleftrightarrow> i < n"
    proof
      assume "x \<in> set (take n xs)"
      then obtain j where "j < n" "j < length xs" "x = xs ! j" by (auto simp: in_set_conv_nth)
      with i \<open>distinct xs\<close> show "i < n" by (simp add: nth_eq_iff_index_eq)
    next
      assume "i < n"
      with i have "take n xs ! i = x" "i < length (take n xs)" by simp_all
      then show "x \<in> set (take n xs)" by (metis nth_mem)
    qed
    with card [OF i(1)] i(2) show ?thesis by simp
  qed
  then show ?thesis by (auto dest: in_set_takeD)
qed

lemma ranked_candidates_best:
  assumes "effective_profiles 0 profiles [] = Inr m" "14 * length terms < 2 ^ 32"
  obtains xs where "ranked_candidates terms m = map (candidate_of terms) xs" "sorted_wrt (better terms) xs"
    "set xs = {x \<in> matching terms profiles. card {y \<in> matching terms profiles. better terms y x} < 20}"
proof -
  let ?ws = "filter (\<lambda>x. 0 < profile_score terms x) (map snd m)"
  let ?xs = "sort_key (\<lambda>x. candidate_key (candidate_of terms x)) ?ws"
  note inner = effective_profiles_innermost [OF assms(1)]
  have "filter_map (score_candidate terms) ys = map (candidate_of terms) (filter (\<lambda>x. 0 < profile_score terms x) ys)"
    for ys by (induction ys) (simp_all add: score_candidate_exact [OF assms(2)])
  then have ranked: "ranked_candidates terms m = map (candidate_of terms) (take 20 ?xs)"
    by (simp add: ranked_candidates_def max_candidates_def sort_key_map take_map)
  have "sorted (map (\<lambda>x. candidate_key (candidate_of terms x)) ?xs)" by simp
  moreover from inner(2) have "distinct (map entry_id (map snd m))" by (simp add: comp_def)
  then have "distinct (map entry_id ?ws)" by (rule distinct_map_filter)
  then have "distinct (map entry_id ?xs)" by (simp add: distinct_map)
  ultimately have sorted: "sorted_wrt (better terms) ?xs"
    unfolding sorted_map by (rule sorted_wrt_distinct) (rule candidate_key_better [OF _ _ assms(2)])
  have "set ?xs = matching terms profiles" using inner(1) by (auto simp: matching_def)
  moreover have "\<not> better terms y x" if "better terms x y" for x y using that by (auto simp: better_def)
  note take_sorted [OF sorted this, of 20]
  ultimately have
    "set (take 20 ?xs) = {x \<in> matching terms profiles. card {y \<in> matching terms profiles. better terms y x} < 20}"
    by (simp only:)
  with ranked sorted_wrt_take [OF sorted] show thesis by (rule that)
qed

lemma recommend_cases:
  obtains (none) "cs = []" | (one) a where "cs = [a]" | (many) a b rest where "cs = a # b # rest"
  by (cases cs rule: remdups_adj.cases) auto

lemma recommend_Some:
  assumes "sorted_wrt (\<lambda>a b. cand_score b \<le> cand_score a) cs"
  shows "recommend cs = Some c \<longleftrightarrow>
     (\<exists>rest. cs = c # rest \<and> list_all (\<lambda>b. cand_score b < cand_score c) rest)"
proof (cases cs rule: recommend_cases)
  case (many a b rest)
  then have "(\<forall>x\<in>set (b # rest). cand_score x < cand_score a) \<longleftrightarrow> cand_score b < cand_score a"
    using assms by (auto intro: le_less_trans)
  with many show ?thesis by (auto simp: recommend_def list_all_iff)
qed (auto simp: recommend_def)

lemma propose_profile_ok:
  assumes "propose_profile E prompt repository workspace p profiles = Inr q"
  obtains m where "effective_profiles 0 profiles [] = Inr m" "validate_prompt prompt = Inr ()"
    "prop_candidates q = ranked_candidates (tokens prompt) m" "prop_recommended q = recommend (prop_candidates q)"
    "prop_confirmation_required q" "\<not> prop_mutates_state q"
  using assms by (auto simp: propose_profile_def Let_def)

lemma prompt_terms:
  assumes "validate_prompt prompt = Inr ()"
  shows "14 * length (tokens prompt) \<le> 114688"
proof -
  have "length prompt \<le> 16384" using assms by (simp add: validate_prompt_def max_prompt_bytes_def)
  with length_tokens [of prompt] show ?thesis by simp
qed

section \<open>Properties\<close>

text \<open>
  C29: A proposal lists the best matches. The profiles that compete are, for each id, the one of the
  innermost scope with a positive score; the candidates are exactly those of them with fewer than
  twenty better ones, in the order of the score and then the id, each with the name, scope, score
  and matched terms of its profile. A candidate is recommended exactly when it scores more than
  every other, and a proposal never claims to have changed anything. Only more than 4096 profiles
  exceed the limit.
\<close>

theorem proposals_list_the_best_matches:
  "case propose_profile E prompt repository workspace p profiles of
     Inl e \<Rightarrow> (case e of ProfileLimitExceeded \<Rightarrow> 4096 < length profiles | PromptHasNoTerms \<Rightarrow> tokens prompt = [] | _ \<Rightarrow> True)
   | Inr q \<Rightarrow> (let competing = matching (tokens prompt) profiles in
       \<exists>xs. prop_candidates q = map (candidate_of (tokens prompt)) xs \<and>
         sorted_wrt (better (tokens prompt)) xs \<and>
         set xs = {x \<in> competing. card {y \<in> competing. better (tokens prompt) y x} < 20}) \<and>
       (\<forall>c. prop_recommended q = Some c \<longleftrightarrow>
          (\<exists>rest. prop_candidates q = c # rest \<and> list_all (\<lambda>b. cand_score b < cand_score c) rest)) \<and>
       prop_confirmation_required q \<and> \<not> prop_mutates_state q"
proof (cases "propose_profile E prompt repository workspace p profiles")
  case (Inl e)
  then show ?thesis
    using effective_profiles_limit [of 0 profiles "[]"]
    by (cases "effective_profiles 0 profiles []") (auto simp: propose_profile_def Let_def validate_prompt_def validate_context_key_def ensure_def
        map_err_def max_profile_count_def split: if_splits sum.splits)
next
  case (Inr q)
  then obtain m where m: "effective_profiles 0 profiles [] = Inr m" "validate_prompt prompt = Inr ()"
    "prop_candidates q = ranked_candidates (tokens prompt) m" "prop_recommended q = recommend (prop_candidates q)"
    "prop_confirmation_required q" "\<not> prop_mutates_state q"
    by (rule propose_profile_ok)
  have "14 * length (tokens prompt) < 2 ^ 32" using prompt_terms [OF m(2)] by simp
  with m(1) obtain xs where xs: "ranked_candidates (tokens prompt) m = map (candidate_of (tokens prompt)) xs"
    "sorted_wrt (better (tokens prompt)) xs"
    "set xs = {x \<in> matching (tokens prompt) profiles.
       card {y \<in> matching (tokens prompt) profiles. better (tokens prompt) y x} < 20}"
    by (rule ranked_candidates_best)
  have "sorted_wrt (\<lambda>a b. cand_score b \<le> cand_score a) (prop_candidates q)"
    unfolding m(3) ranked_candidates_def using sorted_by_score by (rule sorted_wrt_take)
  from recommend_Some [OF this, folded m(4)] Inr m(3,5,6) xs show ?thesis
    by (auto simp: Let_def)
qed

text \<open>
  C30: Scores do not overflow: under the limit on the prompt, the saturating \<open>u32\<close> score of a
  candidate is the exact weighted number of shared terms (8 for the id, 4 for the name, 2 for the
  description), at most 114688.
\<close>

theorem proposal_scores_do_not_saturate:
  "case propose_profile E prompt repository workspace p profiles of
     Inl _ \<Rightarrow> True
   | Inr q \<Rightarrow> list_all (\<lambda>c. unat (cand_score c) \<le> 114688 \<and>
       list_ex (\<lambda>x. let d = entry_definition x in
           cand_profile_id c = def_id d \<and>
           unat (cand_score c) = (\<Sum>t\<leftarrow>tokens prompt. term_weight (tokens (def_id d))
             (tokens (def_display_name d)) (case def_description d of None \<Rightarrow> [] | Some v \<Rightarrow> tokens v) t))
         profiles) (prop_candidates q)"
proof (cases "propose_profile E prompt repository workspace p profiles")
  case (Inr q)
  then obtain m where m: "effective_profiles 0 profiles [] = Inr m" "validate_prompt prompt = Inr ()"
    "prop_candidates q = ranked_candidates (tokens prompt) m"
    by (rule propose_profile_ok)
  note len = prompt_terms [OF m(2)]
  have "entries_ok {} []" by (simp add: entries_ok_def)
  from effective_profiles_entries [OF m(1) this] have ok: "entries_ok (set profiles) m" by simp
  have "unat (cand_score c) \<le> 114688 \<and> list_ex (\<lambda>x. let d = entry_definition x in
           cand_profile_id c = def_id d \<and>
           unat (cand_score c) = (\<Sum>t\<leftarrow>tokens prompt. term_weight (tokens (def_id d))
             (tokens (def_display_name d)) (case def_description d of None \<Rightarrow> [] | Some v \<Rightarrow> tokens v) t))
         profiles"
    if "c \<in> set (prop_candidates q)" for c
  proof -
    from that obtain x where x: "x \<in> set (map snd m)" "score_candidate (tokens prompt) x = Some c"
      by (force simp: m(3) ranked_candidates_def set_filter_map dest!: in_set_takeD)
    then have "x \<in> set profiles" using ok by (auto simp: entries_ok_def)
    moreover have "14 * length (tokens prompt) < 2 ^ 32" using len by simp
    note score = score_candidate_Some [OF x(2) this]
    have "(\<Sum>t\<leftarrow>ts. term_weight a b d t) \<le> 14 * length ts" for a b d ts
      by (induction ts) (simp_all add: term_weight_def)
    with score(2) len have "unat (cand_score c) \<le> 114688" by (metis order.trans)
    ultimately show ?thesis using score by (auto simp: list_ex_iff Let_def)
  qed
  with Inr show ?thesis by (simp add: list_all_iff)
qed simp

end
