(* ===== verification/Workflow.thy ===== *)
theory Workflow
  imports Transition_Journal Profile_Proposal
begin

text \<open>
  \<open>workflows/model.rs\<close>, \<open>compiler.rs\<close>, \<open>controls.rs\<close> and \<open>presets.rs\<close>: workflows of modes over a
  baseline profile, and their compilation against a catalog and the capability locks of one
  provider. JSON printing and parsing are parameters. Where the code stores
  the printed text of a profile or lock error, the model keeps the error; a failed \<open>expect\<close> or
  index is an outcome.
\<close>

section \<open>Controls and presets\<close>

datatype workflow_control_effect = ControlReadOnly | NonExpandingMutation

datatype workflow_control =
  UnpinWorkflowStatus | UnpinWorkflowModes | UnpinWorkflowEnterMode | UnpinWorkflowCancelTransition

definition all_workflow_controls :: "workflow_control list" where
  "all_workflow_controls =
     [UnpinWorkflowStatus, UnpinWorkflowModes, UnpinWorkflowEnterMode, UnpinWorkflowCancelTransition]"

fun control_name :: "workflow_control \<Rightarrow> string" where
  "control_name UnpinWorkflowStatus = ''unpin_workflow_status''"
| "control_name UnpinWorkflowModes = ''unpin_workflow_modes''"
| "control_name UnpinWorkflowEnterMode = ''unpin_workflow_enter_mode''"
| "control_name UnpinWorkflowCancelTransition = ''unpin_workflow_cancel_transition''"

fun control_effect :: "workflow_control \<Rightarrow> workflow_control_effect" where
  "control_effect UnpinWorkflowStatus = ControlReadOnly"
| "control_effect UnpinWorkflowModes = ControlReadOnly"
| "control_effect UnpinWorkflowEnterMode = NonExpandingMutation"
| "control_effect UnpinWorkflowCancelTransition = NonExpandingMutation"

record workflow_mode_definition =
  mode_name :: string
  mode_profile_id :: string

definition preset_mode_names :: "string list" where
  "preset_mode_names = [''general'', ''planning'', ''implementation'', ''review'']"

definition preset_modes :: "workflow_mode_definition list" where
  "preset_modes = map (\<lambda>n. \<lparr>mode_name = n, mode_profile_id = n\<rparr>) preset_mode_names"

section \<open>Definitions\<close>

record workflow_definition =
  wf_version :: u32
  wf_id :: string
  wf_display_name :: string
  wf_description :: "string option"
  wf_baseline_profile_id :: string
  wf_entry_mode :: string
  wf_modes :: "workflow_mode_definition list"

datatype workflow_validation_error =
    WfDefinitionTooLarge nat nat
  | WfInvalidJson string
  | WfSerialization string
  | WfUnsupportedVersion u32
  | UnsupportedCompiledSchema u32
  | WfInvalidIdentifier string string
  | WfInvalidDisplayName
  | WfInvalidDescription
  | NoModes
  | DuplicateMode string
  | MissingEntryMode string
  | WfMissingProfile string
  | WfProfileIdMismatch string string
  | WfProfileInvalid string profile_validation_error
  | LockInvalid capability_lock_error
  | WfLockProviderMismatch provider_id provider_id
  | WfMissingCapability capability_id
  | StaleCapability capability_id
  | UnsupportedCapability capability_id string
  | ConflictingCapability capability_id
  | HardEnabledOutsideEnvelope capability_id
  | EnvelopeNotSuperset
  | InvalidSystemControls
  | ModeProfileKeyMismatch
  | EffectiveProfileDigestMismatch string string string
  | CatalogFingerprintsMismatch
  | UnsortedProfileMembers string
  | AuthoredMemberCountMismatch string nat nat
  | ProtectedAuthorityRoot string
  | WfDigestMismatch string string

record workflow_profile =
  wp_schema_version :: u32
  wp_profile_id :: string
  wp_digest :: string
  wp_members :: "compiled_member list"
  wp_authored_member_count :: nat

record compiled_workflow_mode =
  cm_profile_id :: string
  cm_profile_digest :: string
  cm_effective_profile_digest :: string

record compiled_workflow =
  cw_schema_version :: u32
  cw_workflow_id :: string
  cw_display_name :: string
  cw_description :: "string option"
  cw_origin :: profile_source_scope
  cw_definition_digest :: string
  cw_provider :: provider_id
  cw_baseline_profile_id :: string
  cw_baseline_profile_digest :: string
  cw_entry_mode :: string
  cw_modes :: "(string, compiled_workflow_mode) btree"
  cw_effective_profiles :: "(string, workflow_profile) btree"
  cw_maximum_envelope :: workflow_profile
  cw_capability_lock_digest :: string
  cw_catalog_fingerprints :: "(capability_id, string) btree"
  cw_system_controls :: "workflow_control list"
  cw_digest :: string

record workflow_env = policy_env +
  wf_definition_json :: "workflow_definition \<Rightarrow> string + string"
  wf_definition_pretty :: "workflow_definition \<Rightarrow> string + string"
  wf_definition_parse :: "json \<Rightarrow> string + workflow_definition"
  wf_profile_json :: "u32 \<Rightarrow> string \<Rightarrow> compiled_member list \<Rightarrow> nat \<Rightarrow> string + string"
  wf_compiled_json :: "compiled_workflow \<Rightarrow> string + string"

definition max_workflow_definition_bytes :: nat where
  "max_workflow_definition_bytes = 1048576"

definition domain_digest :: "('z) hashing_scheme \<Rightarrow> string \<Rightarrow> string \<Rightarrow> string" where
  "domain_digest H domain bytes = encode_lower_hex (sha256 H (digest_field domain @ digest_field bytes))"

definition wf_validate_id :: "string \<Rightarrow> string \<Rightarrow> workflow_validation_error + unit" where
  "wf_validate_id label v =
     ensure (\<not> (v = [] \<or> length v > 128 \<or> v = ''.'' \<or> v = ''..'' \<or>
        \<not> list_all (\<lambda>b. is_alnum b \<or> b = CHR ''-'' \<or> b = CHR ''_'' \<or> b = CHR ''.'') v))
       (WfInvalidIdentifier label v)"

definition protected_roots :: "string list" where
  "protected_roots = [''projectroot'', ''appstateroot'', ''cursorroot'', ''discoveryroot'', ''discoveryroots'',
     ''providermutationroot'', ''providermutationroots'', ''approvalstate'', ''policystate'', ''backuproot'',
     ''backups'', ''sessionroot'', ''sessions'', ''auditroot'', ''auditstate'']"

fun reject_protected_roots :: "json \<Rightarrow> workflow_validation_error + unit" and
  reject_protected_members :: "(string \<times> json) list \<Rightarrow> workflow_validation_error + unit" and
  reject_protected_values :: "json list \<Rightarrow> workflow_validation_error + unit" where
  "reject_protected_roots (JObject ms) = reject_protected_members ms"
| "reject_protected_roots (JArray vs) = reject_protected_values vs"
| "reject_protected_roots _ = Inr ()"
| "reject_protected_members [] = Inr ()"
| "reject_protected_members ((key, v) # ms) =
     and_then (ensure (normalized_key key \<notin> set protected_roots) (ProtectedAuthorityRoot key)) (\<lambda>_.
     and_then (reject_protected_roots v) (\<lambda>_. reject_protected_members ms))"
| "reject_protected_values [] = Inr ()"
| "reject_protected_values (v # vs) =
     and_then (reject_protected_roots v) (\<lambda>_. reject_protected_values vs)"

definition wf_looks_machine_path :: "string \<Rightarrow> bool" where
  "wf_looks_machine_path v \<longleftrightarrow>
     starts_with_any [''/'', ''~/'', ''./'', ''../'', ''file://'', [CHR 0x5C, CHR 0x5C]] v"

text \<open>The loop over the modes: ids, then the name must be new.\<close>

fun validate_modes :: "string set \<Rightarrow> workflow_mode_definition list \<Rightarrow> workflow_validation_error + string set" where
  "validate_modes names [] = Inr names"
| "validate_modes names (m # ms) =
     and_then (wf_validate_id ''mode'' (mode_name m)) (\<lambda>_.
     and_then (wf_validate_id ''mode profile'' (mode_profile_id m)) (\<lambda>_.
     and_then (ensure (mode_name m \<notin> names) (DuplicateMode (mode_name m))) (\<lambda>_.
     validate_modes (insert (mode_name m) names) ms)))"

definition validate_workflow ::
  "('z) workflow_env_scheme \<Rightarrow> workflow_definition \<Rightarrow> workflow_validation_error + unit" where
  "validate_workflow E d =
     and_then (ensure (wf_version d = 1) (WfUnsupportedVersion (wf_version d))) (\<lambda>_.
     and_then (wf_validate_id ''workflow'' (wf_id d)) (\<lambda>_.
     and_then (wf_validate_id ''baseline profile'' (wf_baseline_profile_id d)) (\<lambda>_.
     and_then (wf_validate_id ''entry mode'' (wf_entry_mode d)) (\<lambda>_.
     and_then (ensure (\<not> (blank (wf_display_name d) \<or> has_control (wf_display_name d)))
        WfInvalidDisplayName) (\<lambda>_.
     and_then (ensure (case wf_description d of None \<Rightarrow> True
          | Some v \<Rightarrow> \<not> (has_control v \<or> wf_looks_machine_path v)) WfInvalidDescription) (\<lambda>_.
     and_then (ensure (wf_modes d \<noteq> []) NoModes) (\<lambda>_.
     and_then (validate_modes {} (wf_modes d)) (\<lambda>names.
     and_then (ensure (wf_entry_mode d \<in> names) (MissingEntryMode (wf_entry_mode d))) (\<lambda>_.
     and_then (map_err WfSerialization (wf_definition_json E d)) (\<lambda>bytes.
     ensure (length bytes \<le> max_workflow_definition_bytes)
       (WfDefinitionTooLarge (length bytes) max_workflow_definition_bytes)))))))))))"

definition workflow_from_json ::
  "('z) workflow_env_scheme \<Rightarrow> string \<Rightarrow> workflow_validation_error + workflow_definition" where
  "workflow_from_json E raw =
     and_then (ensure (length raw \<le> max_workflow_definition_bytes)
        (WfDefinitionTooLarge (length raw) max_workflow_definition_bytes)) (\<lambda>_.
     and_then (map_err WfInvalidJson (parse_json E raw)) (\<lambda>v.
     and_then (reject_protected_roots v) (\<lambda>_.
     and_then (map_err WfInvalidJson (wf_definition_parse E v)) (\<lambda>d.
     and_then (validate_workflow E d) (\<lambda>_. Inr d)))))"

definition workflow_to_export_json ::
  "('z) workflow_env_scheme \<Rightarrow> workflow_definition \<Rightarrow> workflow_validation_error + string" where
  "workflow_to_export_json E d =
     and_then (validate_workflow E d) (\<lambda>_. map_err WfSerialization (wf_definition_pretty E d))"

definition canonical_workflow :: "workflow_definition \<Rightarrow> workflow_definition" where
  "canonical_workflow d = d\<lparr>wf_modes := sort_key mode_name (wf_modes d)\<rparr>"

definition workflow_definition_digest ::
  "('z) workflow_env_scheme \<Rightarrow> workflow_definition \<Rightarrow> workflow_validation_error + string" where
  "workflow_definition_digest E d =
     and_then (validate_workflow E d) (\<lambda>_.
     and_then (map_err WfSerialization (wf_definition_json E (canonical_workflow d))) (\<lambda>bytes.
     Inr (domain_digest E ''unpin.workflow.definition.v1'' bytes)))"

section \<open>Compiled profiles and workflows\<close>

definition workflow_profile_digest ::
  "('z) workflow_env_scheme \<Rightarrow> u32 \<Rightarrow> string \<Rightarrow> compiled_member list \<Rightarrow> nat \<Rightarrow>
     workflow_validation_error + string" where
  "workflow_profile_digest E v i ms n =
     and_then (map_err WfSerialization (wf_profile_json E v i ms n)) (\<lambda>bytes.
     Inr (domain_digest E ''unpin.workflow.profile.v1'' bytes))"

definition compile_workflow_profile ::
  "('z) workflow_env_scheme \<Rightarrow> string \<Rightarrow> compiled_member list \<Rightarrow>
     workflow_validation_error + workflow_profile" where
  "compile_workflow_profile E i ms =
     and_then (workflow_profile_digest E 1 i ms (length ms)) (\<lambda>digest.
     Inr \<lparr>wp_schema_version = 1, wp_profile_id = i, wp_digest = digest, wp_members = ms,
          wp_authored_member_count = length ms\<rparr>)"

definition verify_workflow_profile ::
  "('z) workflow_env_scheme \<Rightarrow> workflow_profile \<Rightarrow> workflow_validation_error + unit" where
  "verify_workflow_profile E p =
     and_then (ensure (wp_schema_version p = 1) (UnsupportedCompiledSchema (wp_schema_version p))) (\<lambda>_.
     and_then (ensure (wp_authored_member_count p = length (wp_members p))
        (AuthoredMemberCountMismatch (wp_profile_id p) (length (wp_members p)) (wp_authored_member_count p))) (\<lambda>_.
     and_then (ensure (\<not> list_ex (\<lambda>(a, b). member_capability a \<ge> member_capability b)
          (windows2 (wp_members p))) (UnsortedProfileMembers (wp_profile_id p))) (\<lambda>_.
     and_then (workflow_profile_digest E (wp_schema_version p) (wp_profile_id p) (wp_members p)
        (wp_authored_member_count p)) (\<lambda>actual.
     ensure (actual = wp_digest p) (WfDigestMismatch (wp_digest p) actual)))))"

definition profile_contains :: "workflow_profile \<Rightarrow> capability_id \<Rightarrow> bool" where
  "profile_contains p i \<longleftrightarrow> list_ex (\<lambda>m. member_capability m = i) (wp_members p)"

definition computed_digest ::
  "('z) workflow_env_scheme \<Rightarrow> compiled_workflow \<Rightarrow> workflow_validation_error + string" where
  "computed_digest E w =
     and_then (map_err WfSerialization (wf_compiled_json E (w\<lparr>cw_digest := []\<rparr>))) (\<lambda>bytes.
     Inr (domain_digest E ''unpin.workflow.compiled.v1'' bytes))"

datatype workflow_failure = WfRejected workflow_validation_error | WfPanic

text \<open>One member of a mode's profile against the envelope.\<close>

definition check_enveloped :: "workflow_profile \<Rightarrow> compiled_member \<Rightarrow> workflow_validation_error + unit" where
  "check_enveloped envelope m =
     (case find (\<lambda>x. member_capability x = member_capability m) (wp_members envelope) of
        None \<Rightarrow> Inl EnvelopeNotSuperset
      | Some x \<Rightarrow> ensure (x = m) (ConflictingCapability (member_capability m)))"

definition verify_mode ::
  "('z) workflow_env_scheme \<Rightarrow> compiled_workflow \<Rightarrow> string \<times> compiled_workflow_mode \<Rightarrow> workflow_failure + unit" where
  "verify_mode E w e =
     and_then (ok_or (map_of (cw_effective_profiles w) (fst e)) WfPanic) (\<lambda>p.
     map_err WfRejected
      (and_then (verify_workflow_profile E p) (\<lambda>_.
       and_then (ensure (cm_effective_profile_digest (snd e) = wp_digest p)
          (EffectiveProfileDigestMismatch (fst e) (cm_effective_profile_digest (snd e)) (wp_digest p))) (\<lambda>_.
       try_for_each (check_enveloped (cw_maximum_envelope w)) (wp_members p)))))"

definition envelope_fingerprints :: "workflow_profile \<Rightarrow> (capability_id, string) btree" where
  "envelope_fingerprints p = btree_of (map (\<lambda>m. (member_capability m, member_fingerprint m)) (wp_members p))"

definition verify_workflow ::
  "('z) workflow_env_scheme \<Rightarrow> compiled_workflow \<Rightarrow> workflow_failure + unit" where
  "verify_workflow E w =
     and_then (ensure (cw_schema_version w = 1)
        (WfRejected (UnsupportedCompiledSchema (cw_schema_version w)))) (\<lambda>_.
     and_then (ensure (cw_system_controls w = all_workflow_controls) (WfRejected InvalidSystemControls)) (\<lambda>_.
     and_then (ensure (cw_entry_mode w \<in> fst ` set (cw_modes w))
        (WfRejected (MissingEntryMode (cw_entry_mode w)))) (\<lambda>_.
     and_then (ensure (map fst (cw_modes w) = map fst (cw_effective_profiles w))
        (WfRejected ModeProfileKeyMismatch)) (\<lambda>_.
     and_then (map_err WfRejected (verify_workflow_profile E (cw_maximum_envelope w))) (\<lambda>_.
     and_then (try_for_each (verify_mode E w) (cw_modes w)) (\<lambda>_.
     and_then (ensure (cw_catalog_fingerprints w = envelope_fingerprints (cw_maximum_envelope w))
        (WfRejected CatalogFingerprintsMismatch)) (\<lambda>_.
     and_then (map_err WfRejected (computed_digest E w)) (\<lambda>actual.
     ensure (actual = cw_digest w) (WfRejected (WfDigestMismatch (cw_digest w) actual))))))))))"

section \<open>Compiling\<close>

type_synonym members = "(capability_id, compiled_member) btree"

definition workflow_profile_for ::
  "('z) workflow_env_scheme \<Rightarrow> (string, compiled_revision) btree \<Rightarrow> string \<Rightarrow>
     workflow_validation_error + compiled_revision" where
  "workflow_profile_for E profiles i =
     and_then (ok_or (map_of profiles i) (WfMissingProfile i)) (\<lambda>r.
     and_then (ensure (rev_profile_id r = i) (WfProfileIdMismatch i (rev_profile_id r))) (\<lambda>_.
     and_then (map_err (WfProfileInvalid i) (verify_digest E r)) (\<lambda>_. Inr r)))"

fun collect_routable ::
  "catalog \<Rightarrow> provider_id \<Rightarrow> compiled_member list \<Rightarrow> members \<Rightarrow> workflow_validation_error + members" where
  "collect_routable c p [] acc = Inr acc"
| "collect_routable c p (m # ms) acc =
     (let i = member_capability m in
      and_then (ok_or (catalog_get c i) (WfMissingCapability i)) (\<lambda>r.
      and_then (ensure (\<not> (cap_fingerprint r \<noteq> member_fingerprint m \<or>
           canonical_key (cap_origin r) \<noteq> member_origin_key m \<or> \<not> supports_provider r p))
         (StaleCapability i)) (\<lambda>_.
      if cap_kind r \<in> {KSkill, KMcpTool, KHook}
      then and_then (ensure (case map_of acc i of None \<Rightarrow> True | Some existing \<Rightarrow> existing = m)
             (ConflictingCapability i)) (\<lambda>_. collect_routable c p ms (btree_insert i m acc))
      else if cap_kind r = KPlugin then collect_routable c p ms acc
      else Inl (UnsupportedCapability i (kind_str (cap_kind r))))))"

definition routable_members ::
  "compiled_revision \<Rightarrow> catalog \<Rightarrow> provider_id \<Rightarrow> workflow_validation_error + members" where
  "routable_members r c p = collect_routable c p (members_for_provider r p) []"

fun merge_members :: "members \<Rightarrow> members \<Rightarrow> workflow_validation_error + members" where
  "merge_members target [] = Inr target"
| "merge_members target ((i, m) # source) =
     (case map_of target i of
        Some existing \<Rightarrow>
          and_then (ensure (existing = m) (ConflictingCapability i)) (\<lambda>_. merge_members target source)
      | None \<Rightarrow> merge_members (btree_insert i m target) source)"

definition validate_hard_enabled_locks :: "members \<Rightarrow> lock_snapshot \<Rightarrow> workflow_validation_error + unit" where
  "validate_hard_enabled_locks maximum locks =
     try_for_each (\<lambda>(i, state). ensure (\<not> (state = HardEnabled \<and> map_of maximum i = None))
       (HardEnabledOutsideEnvelope i)) (lock_entries locks)"

fun apply_workflow_locks :: "lock_entries \<Rightarrow> members \<Rightarrow> members \<Rightarrow> workflow_failure + members" where
  "apply_workflow_locks [] authored ms = Inr ms"
| "apply_workflow_locks ((i, HardDisabled) # es) authored ms =
     apply_workflow_locks es authored (btree_remove i ms)"
| "apply_workflow_locks ((i, HardEnabled) # es) authored ms =
     and_then (ok_or (map_of authored i) WfPanic) (\<lambda>m.
     apply_workflow_locks es authored (btree_insert i m ms))"

text \<open>The modes in the order of their names, each with its profile and routable members.\<close>

fun resolve_modes ::
  "('z) workflow_env_scheme \<Rightarrow> (string, compiled_revision) btree \<Rightarrow> catalog \<Rightarrow> provider_id \<Rightarrow>
     workflow_mode_definition list \<Rightarrow> members \<Rightarrow> (string, compiled_revision \<times> members) btree \<Rightarrow>
     workflow_validation_error + (members \<times> (string, compiled_revision \<times> members) btree)" where
  "resolve_modes E profiles c p [] maximum resolved = Inr (maximum, resolved)"
| "resolve_modes E profiles c p (m # ms) maximum resolved =
     and_then (workflow_profile_for E profiles (mode_profile_id m)) (\<lambda>r.
     and_then (routable_members r c p) (\<lambda>members.
     and_then (merge_members maximum members) (\<lambda>maximum.
     resolve_modes E profiles c p ms maximum (btree_insert (mode_name m) (r, members) resolved))))"

fun effective_modes ::
  "('z) workflow_env_scheme \<Rightarrow> string \<Rightarrow> members \<Rightarrow> members \<Rightarrow> lock_entries \<Rightarrow>
     (string \<times> compiled_revision \<times> members) list \<Rightarrow>
     workflow_failure + ((string \<times> compiled_workflow_mode) list \<times> (string \<times> workflow_profile) list)" where
  "effective_modes E i baseline authored es [] = Inr ([], [])"
| "effective_modes E i baseline authored es ((name, r, members) # rest) =
     and_then (map_err WfRejected (merge_members baseline members)) (\<lambda>effective.
     and_then (apply_workflow_locks es authored effective) (\<lambda>effective.
     and_then (map_err WfRejected (compile_workflow_profile E (i @ ''.'' @ name) (map snd effective))) (\<lambda>p.
     and_then (effective_modes E i baseline authored es rest) (\<lambda>(modes, profiles).
     Inr ((name, \<lparr>cm_profile_id = rev_profile_id r, cm_profile_digest = rev_digest r,
                   cm_effective_profile_digest = wp_digest p\<rparr>) # modes, (name, p) # profiles)))))"

definition check_superset :: "workflow_profile \<Rightarrow> (string \<times> workflow_profile) list \<Rightarrow> workflow_validation_error + unit" where
  "check_superset envelope profiles =
     try_for_each (\<lambda>e. ensure (\<not> list_ex (\<lambda>m. \<not> profile_contains envelope (member_capability m))
        (wp_members (snd e))) EnvelopeNotSuperset) profiles"

text \<open>Sealing: the compiled value with its digest, checked once more before it is returned.\<close>

definition seal_workflow ::
  "('z) workflow_env_scheme \<Rightarrow> compiled_workflow \<Rightarrow> workflow_failure + compiled_workflow" where
  "seal_workflow E w =
     and_then (map_err WfRejected (computed_digest E w)) (\<lambda>digest.
     and_then (verify_workflow E (w\<lparr>cw_digest := digest\<rparr>)) (\<lambda>_.
     Inr (w\<lparr>cw_digest := digest\<rparr>)))"

text \<open>From the effective profiles to the sealed workflow.\<close>

definition assemble_workflow ::
  "('z) workflow_env_scheme \<Rightarrow> workflow_definition \<Rightarrow> lock_snapshot \<Rightarrow> provider_id \<Rightarrow> profile_source_scope \<Rightarrow>
     compiled_revision \<Rightarrow> members \<Rightarrow> (string \<times> compiled_workflow_mode) list \<Rightarrow>
     (string \<times> workflow_profile) list \<Rightarrow> workflow_failure + compiled_workflow" where
  "assemble_workflow E d locks p scope baseline maximum modes effective =
     and_then (apply_workflow_locks (lock_entries locks) maximum maximum) (\<lambda>enveloped.
     and_then (map_err WfRejected (compile_workflow_profile E (wf_id d @ ''.maximum-envelope'')
        (map snd enveloped))) (\<lambda>envelope.
     and_then (map_err WfRejected (check_superset envelope effective)) (\<lambda>_.
     and_then (map_err WfRejected (workflow_definition_digest E d)) (\<lambda>definition_digest.
     seal_workflow E
       \<lparr>cw_schema_version = 1, cw_workflow_id = wf_id d, cw_display_name = wf_display_name d,
         cw_description = wf_description d, cw_origin = scope, cw_definition_digest = definition_digest,
         cw_provider = p, cw_baseline_profile_id = rev_profile_id baseline,
         cw_baseline_profile_digest = rev_digest baseline, cw_entry_mode = wf_entry_mode d,
         cw_modes = modes, cw_effective_profiles = effective, cw_maximum_envelope = envelope,
         cw_capability_lock_digest = lock_snapshot_digest locks,
         cw_catalog_fingerprints = envelope_fingerprints envelope,
         cw_system_controls = all_workflow_controls, cw_digest = []\<rparr>))))"

definition compile_workflow ::
  "('z) workflow_env_scheme \<Rightarrow> workflow_definition \<Rightarrow> (string, compiled_revision) btree \<Rightarrow> catalog \<Rightarrow>
     lock_snapshot \<Rightarrow> provider_id \<Rightarrow> profile_source_scope \<Rightarrow> workflow_failure + compiled_workflow" where
  "compile_workflow E d profiles c locks p scope =
     and_then (map_err WfRejected (validate_workflow E d)) (\<lambda>_.
     and_then (map_err (WfRejected \<circ> LockInvalid) (verify_locks E locks)) (\<lambda>_.
     and_then (ensure (lock_provider locks = p)
        (WfRejected (WfLockProviderMismatch p (lock_provider locks)))) (\<lambda>_.
     and_then (map_err WfRejected (workflow_profile_for E profiles (wf_baseline_profile_id d))) (\<lambda>baseline.
     and_then (map_err WfRejected (routable_members baseline c p)) (\<lambda>base.
     and_then (map_err WfRejected
        (resolve_modes E profiles c p (wf_modes (canonical_workflow d)) base [])) (\<lambda>(maximum, resolved).
     and_then (map_err WfRejected (validate_hard_enabled_locks maximum locks)) (\<lambda>_.
     and_then (effective_modes E (wf_id d) base maximum (lock_entries locks) resolved) (\<lambda>(modes, effective).
     assemble_workflow E d locks p scope baseline maximum modes effective))))))))"

section \<open>Members as maps\<close>

definition keyed :: "members \<Rightarrow> bool" where
  "keyed ms \<longleftrightarrow> btree_ok ms \<and> (\<forall>e\<in>set ms. member_capability (snd e) = fst e)"

lemma keyed_Nil [simp]: "keyed []"
  by (simp add: keyed_def)

lemma keyed_insert [simp]: "keyed ms \<Longrightarrow> keyed (btree_insert (member_capability m) m ms)"
  using set_btree_insert_subset [of "member_capability m" m ms] by (fastforce simp: keyed_def)

lemma keyed_remove [simp]: "keyed ms \<Longrightarrow> keyed (btree_remove i ms)"
  by (auto simp: keyed_def btree_remove_def)

lemma keyed_map_of: "keyed ms \<Longrightarrow> map_of ms i = Some m \<Longrightarrow> member_capability m = i"
  by (force simp: keyed_def dest: map_of_SomeD)

lemma in_keys: "i \<in> fst ` set ms \<longleftrightarrow> map_of ms i \<noteq> None"
  by (simp add: map_of_eq_None_iff)

lemma keyed_insert_at: "keyed ms \<Longrightarrow> keyed bs \<Longrightarrow> map_of bs i = Some m \<Longrightarrow> keyed (btree_insert i m ms)"
  using keyed_map_of [of bs i m] keyed_insert [of ms m] by simp

lemma keyed_btree_ok [simp]: "keyed ms \<Longrightarrow> btree_ok ms"
  by (simp add: keyed_def)

lemma find_keyed: "keyed ms \<Longrightarrow> find (\<lambda>x. member_capability x = i) (map snd ms) = map_of ms i"
proof (induction ms)
  case (Cons e ms)
  then show ?case by (cases e) (auto simp: keyed_def)
qed simp

lemma keyed_capabilities: "keyed ms \<Longrightarrow> map member_capability (map snd ms) = map fst ms"
  by (simp add: keyed_def)

definition routable :: "catalog \<Rightarrow> compiled_member \<Rightarrow> bool" where
  "routable c m \<longleftrightarrow> (case catalog_get c (member_capability m) of None \<Rightarrow> False
     | Some r \<Rightarrow> cap_kind r \<in> {KSkill, KMcpTool, KHook})"

lemma collect_routable_ok:
  assumes "collect_routable c p ms acc = Inr out" "keyed acc"
  shows "keyed out" "fst ` set out = fst ` set acc \<union> member_capability ` {m \<in> set ms. routable c m}"
proof -
  have "keyed out \<and> fst ` set out = fst ` set acc \<union> member_capability ` {m \<in> set ms. routable c m}"
    using assms
  proof (induction ms arbitrary: acc)
    case (Cons m ms)
    let ?i = "member_capability m"
    from Cons.prems(1) obtain r where r: "catalog_get c ?i = Some r" by (auto simp: Let_def)
    consider (route) "routable c m" "collect_routable c p ms (btree_insert ?i m acc) = Inr out"
      | (skip) "\<not> routable c m" "collect_routable c p ms acc = Inr out"
      using Cons.prems(1) r by (auto simp: Let_def routable_def split: if_splits)
    then show ?case
    proof cases
      case route
      with Cons.IH [OF route(2)] Cons.prems(2) show ?thesis by auto
    next
      case skip
      with Cons.IH [OF skip(2)] Cons.prems(2) show ?thesis by auto
    qed
  qed simp
  then show "keyed out" "fst ` set out = fst ` set acc \<union> member_capability ` {m \<in> set ms. routable c m}"
    by blast+
qed

definition routable_ids :: "catalog \<Rightarrow> provider_id \<Rightarrow> compiled_revision \<Rightarrow> capability_id set" where
  "routable_ids c p r = member_capability ` {m \<in> set (members_for_provider r p). routable c m}"

lemma routable_members_ok:
  assumes "routable_members r c p = Inr ms"
  shows "keyed ms" "fst ` set ms = routable_ids c p r"
  using collect_routable_ok [OF assms [unfolded routable_members_def]]
  by (simp_all add: routable_ids_def)

text \<open>Maps that agree where both are defined, and one map within another.\<close>

definition agree :: "members \<Rightarrow> members \<Rightarrow> bool" where
  "agree as bs \<longleftrightarrow> (\<forall>i a b. map_of as i = Some a \<longrightarrow> map_of bs i = Some b \<longrightarrow> a = b)"

definition within :: "members \<Rightarrow> members \<Rightarrow> bool" where
  "within as bs \<longleftrightarrow> (\<forall>i a. map_of as i = Some a \<longrightarrow> map_of bs i = Some a)"

lemma within_refl [simp]: "within as as"
  by (simp add: within_def)

lemma within_trans: "within as bs \<Longrightarrow> within bs cs \<Longrightarrow> within as cs"
  by (simp add: within_def)

lemma within_agree: "within as cs \<Longrightarrow> within bs cs \<Longrightarrow> agree as bs"
  by (fastforce simp: within_def agree_def)

lemma merge_members_ok:
  assumes "merge_members target source = Inr out" "keyed target" "keyed source"
  shows "keyed out" "agree target source"
    "map_of out i = (case map_of target i of None \<Rightarrow> map_of source i | Some x \<Rightarrow> Some x)"
proof -
  have "keyed out \<and> agree target source \<and>
      (\<forall>i. map_of out i = (case map_of target i of None \<Rightarrow> map_of source i | Some x \<Rightarrow> Some x))"
    using assms
  proof (induction source arbitrary: target)
    case (Cons e source)
    obtain j m where e: "e = (j, m)" by (cases e)
    have j: "member_capability m = j" "keyed source" "map_of source j = None"
      using Cons.prems(3) e by (auto simp: keyed_def map_of_eq_None_iff)
    show ?case
    proof (cases "map_of target j")
      case None
      let ?t = "btree_insert j m target"
      from Cons.prems(1) e None have "merge_members ?t source = Inr out" by simp
      moreover have "keyed ?t" using Cons.prems(2) j(1) by auto
      ultimately have IH: "keyed out" "agree ?t source"
        "\<And>i. map_of out i = (case map_of ?t i of None \<Rightarrow> map_of source i | Some x \<Rightarrow> Some x)"
        using Cons.IH j(2) by blast+
      have map_t: "map_of ?t i = (if i = j then Some m else map_of target i)" for i
        using Cons.prems(2) by simp
      have "agree target (e # source)"
        unfolding agree_def e using IH(2) None by (auto simp: agree_def map_t split: if_splits)
      moreover have "map_of out i = (case map_of target i of None \<Rightarrow> map_of (e # source) i | Some x \<Rightarrow> Some x)" for i
        using IH(3) [of i] None by (cases "i = j") (simp_all add: map_t e split: option.split)
      ultimately show ?thesis using IH(1) by blast
    next
      case (Some x)
      with Cons.prems(1) e have m: "merge_members target source = Inr out" "x = m" by auto
      from Cons.IH [OF m(1) Cons.prems(2) j(2)] Some m(2) show ?thesis
        unfolding agree_def e by (auto split: option.split)
    qed
  qed (auto simp: agree_def split: option.split)
  then show "keyed out" "agree target source"
    "map_of out i = (case map_of target i of None \<Rightarrow> map_of source i | Some x \<Rightarrow> Some x)" by blast+
qed

lemma merge_members_within:
  assumes "merge_members target source = Inr out" "keyed target" "keyed source"
  shows "within target out" "within source out" "fst ` set out = fst ` set target \<union> fst ` set source"
proof -
  note m = merge_members_ok [OF assms]
  show "within target out" by (simp add: within_def m(3))
  show "within source out"
    using m(2) by (auto simp: within_def m(3) agree_def split: option.split)
  have "i \<in> fst ` set out \<longleftrightarrow> i \<in> fst ` set target \<union> fst ` set source" for i
    unfolding Un_iff in_keys m(3) by (simp split: option.split)
  then show "fst ` set out = fst ` set target \<union> fst ` set source" by blast
qed

lemma merge_members_total:
  "agree target source \<Longrightarrow> keyed target \<Longrightarrow> keyed source \<Longrightarrow> \<exists>out. merge_members target source = Inr out"
proof (induction source arbitrary: target)
  case (Cons e source)
  obtain j m where e: "e = (j, m)" by (cases e)
  have j: "member_capability m = j" "keyed source" "map_of source j = None"
    using Cons.prems(3) e by (auto simp: keyed_def map_of_eq_None_iff)
  show ?case
  proof (cases "map_of target j")
    case None
    have "agree (btree_insert j m target) source"
      using Cons.prems(1,2) j(3) e by (auto simp: agree_def split: if_splits)
    with Cons.IH [OF this] Cons.prems(2) j None show ?thesis by (auto simp: e)
  next
    case (Some x)
    with Cons.prems(1) e have "x = m" by (auto simp: agree_def)
    moreover have "agree target source"
      unfolding agree_def
    proof (intro allI impI)
      fix i a b
      assume ab: "map_of target i = Some a" "map_of source i = Some b"
      with j(3) have "map_of (e # source) i = Some b" by (auto simp: e)
      with Cons.prems(1) ab(1) show "a = b" unfolding agree_def by blast
    qed
    ultimately show ?thesis using Cons.IH [OF _ Cons.prems(2) j(2)] Some e by simp
  qed
qed simp

text \<open>Of the entries for a capability the last lock counts.\<close>

lemma apply_workflow_locks_ok:
  assumes "apply_workflow_locks es authored ms = Inr out" "keyed ms" "keyed authored"
  shows "keyed out" "map_of out i = (case map_of (rev es) i of
     None \<Rightarrow> map_of ms i | Some HardDisabled \<Rightarrow> None | Some HardEnabled \<Rightarrow> map_of authored i)"
proof -
  have "keyed out \<and> (\<forall>i. map_of out i = (case map_of (rev es) i of
     None \<Rightarrow> map_of ms i | Some HardDisabled \<Rightarrow> None | Some HardEnabled \<Rightarrow> map_of authored i))"
    using assms
  proof (induction es authored ms rule: apply_workflow_locks.induct)
    case (2 j es authored ms)
    from 2 show ?case by (auto simp: map_add_def split: option.split)
  next
    case (3 j es authored ms)
    from 3(2) obtain m where m: "map_of authored j = Some m"
      "apply_workflow_locks es authored (btree_insert j m ms) = Inr out" by auto
    have "keyed (btree_insert j m ms)" using keyed_insert_at 3(3,4) m(1) by blast
    with 3(1) [OF _ m(2)] m(1) 3(3,4) show ?case by (auto simp: map_add_def split: option.split)
  qed (auto split: option.split)
  then show "keyed out" "map_of out i = (case map_of (rev es) i of
     None \<Rightarrow> map_of ms i | Some HardDisabled \<Rightarrow> None | Some HardEnabled \<Rightarrow> map_of authored i)" by blast+
qed

lemma apply_workflow_locks_total:
  assumes "\<forall>e\<in>set es. snd e = HardEnabled \<longrightarrow> map_of authored (fst e) \<noteq> None"
  shows "\<exists>out. apply_workflow_locks es authored ms = Inr out"
  using assms by (induction es authored ms rule: apply_workflow_locks.induct) auto

lemma locked_within:
  assumes "apply_workflow_locks es authored as = Inr as'" "apply_workflow_locks es authored bs = Inr bs'"
    and "keyed as" "keyed bs" "keyed authored" "within as bs"
  shows "within as' bs'"
  using apply_workflow_locks_ok(2) [OF assms(1,3,5)] apply_workflow_locks_ok(2) [OF assms(2,4,5)] assms(6)
  by (auto simp: within_def split: option.splits capability_lock_state.splits)

section \<open>Compiled profiles verify\<close>

lemma windows2_sorted:
  "\<not> list_ex (\<lambda>(a, b). member_capability a \<ge> member_capability b) (windows2 ms) \<longleftrightarrow>
     sorted_wrt (<) (map member_capability ms)"
proof (induction ms rule: windows2.induct)
  case (1 x y zs)
  then show ?case by (auto simp: not_le dest: less_trans)
qed simp_all

lemma compile_workflow_profile_ok:
  assumes "compile_workflow_profile E i (map snd ms) = Inr p" "keyed ms"
  shows "wp_members p = map snd ms" "verify_workflow_profile E p = Inr ()"
proof -
  have "sorted_wrt (<) (map member_capability (map snd ms))"
    using assms(2) by (simp add: keyed_def btree_ok_def cong: map_cong)
  with assms show "wp_members p = map snd ms" "verify_workflow_profile E p = Inr ()"
    by (auto simp: compile_workflow_profile_def verify_workflow_profile_def windows2_sorted)
qed

section \<open>Resolving the modes\<close>

definition mode_resolved ::
  "('z) workflow_env_scheme \<Rightarrow> (string, compiled_revision) btree \<Rightarrow> catalog \<Rightarrow> provider_id \<Rightarrow>
     workflow_mode_definition \<Rightarrow> compiled_revision \<times> members \<Rightarrow> bool" where
  "mode_resolved E profiles c p m rm \<longleftrightarrow>
     workflow_profile_for E profiles (mode_profile_id m) = Inr (fst rm) \<and>
     routable_members (fst rm) c p = Inr (snd rm)"

lemma resolve_modes_ok:
  assumes "resolve_modes E profiles c p ms maximum resolved = Inr (maximum', resolved')"
    and "keyed maximum" "btree_ok resolved" "distinct (map mode_name ms)"
    "set (map mode_name ms) \<inter> fst ` set resolved = {}"
    "\<forall>e\<in>set resolved. keyed (snd (snd e)) \<and> within (snd (snd e)) maximum"
  shows "keyed maximum' \<and> within maximum maximum' \<and> btree_ok resolved' \<and>
    fst ` set resolved' = fst ` set resolved \<union> mode_name ` set ms \<and>
    (\<forall>e\<in>set resolved'. keyed (snd (snd e)) \<and> within (snd (snd e)) maximum') \<and>
    (\<forall>i rm. map_of resolved i = Some rm \<longrightarrow> map_of resolved' i = Some rm) \<and>
    (\<forall>m\<in>set ms. \<exists>rm. map_of resolved' (mode_name m) = Some rm \<and> mode_resolved E profiles c p m rm)"
  using assms
proof (induction ms arbitrary: maximum resolved)
  case (Cons m ms)
  let ?n = "mode_name m"
  obtain r members maximum1 where step: "workflow_profile_for E profiles (mode_profile_id m) = Inr r"
    "routable_members r c p = Inr members" "merge_members maximum members = Inr maximum1"
    "resolve_modes E profiles c p ms maximum1 (btree_insert ?n (r, members) resolved) = Inr (maximum', resolved')"
    using Cons.prems(1) by auto
  let ?r = "btree_insert ?n (r, members) resolved"
  have keyed: "keyed members" by (rule routable_members_ok(1) [OF step(2)])
  note merged = merge_members_ok(1) [OF step(3) Cons.prems(2) keyed]
    merge_members_within [OF step(3) Cons.prems(2) keyed]
  have new: "map_of resolved ?n = None" using Cons.prems(5) by (auto simp: map_of_eq_None_iff)
  have set_r: "set ?r \<subseteq> insert (?n, r, members) (set resolved)" by (rule set_btree_insert_subset)
  have "\<forall>e\<in>set ?r. keyed (snd (snd e)) \<and> within (snd (snd e)) maximum1"
    using set_r Cons.prems(6) keyed merged(2,3) within_trans by fastforce
  moreover have "set (map mode_name ms) \<inter> fst ` set ?r = {}" using Cons.prems(4,5) by auto
  ultimately have IH: "keyed maximum' \<and> within maximum1 maximum' \<and> btree_ok resolved' \<and>
    fst ` set resolved' = fst ` set ?r \<union> mode_name ` set ms \<and>
    (\<forall>e\<in>set resolved'. keyed (snd (snd e)) \<and> within (snd (snd e)) maximum') \<and>
    (\<forall>i rm. map_of ?r i = Some rm \<longrightarrow> map_of resolved' i = Some rm) \<and>
    (\<forall>m\<in>set ms. \<exists>rm. map_of resolved' (mode_name m) = Some rm \<and> mode_resolved E profiles c p m rm)"
    using Cons.IH [OF step(4) merged(1) btree_ok_insert [OF Cons.prems(3)]] Cons.prems(4) by simp
  have map_r: "map_of ?r i = (if i = ?n then Some (r, members) else map_of resolved i)" for i
    using Cons.prems(3) by simp
  have "map_of resolved' ?n = Some (r, members)" using IH map_r by simp
  moreover have "mode_resolved E profiles c p m (r, members)" using step by (simp add: mode_resolved_def)
  ultimately have this_mode: "\<exists>rm. map_of resolved' ?n = Some rm \<and> mode_resolved E profiles c p m rm"
    by blast
  have old: "map_of resolved' i = Some rm" if "map_of resolved i = Some rm" for i rm
  proof -
    have "map_of ?r i = Some rm" using that map_r [of i] new by (cases "i = ?n") simp_all
    with IH show ?thesis by blast
  qed
  have "within maximum maximum'" using IH merged(2) within_trans by blast
  moreover have "fst ` set resolved' = fst ` set resolved \<union> mode_name ` set (m # ms)" using IH by simp
  moreover have "\<forall>x\<in>set (m # ms). \<exists>rm. map_of resolved' (mode_name x) = Some rm \<and>
      mode_resolved E profiles c p x rm"
    using IH this_mode by simp
  ultimately show ?case using IH old by blast
qed simp

lemma effective_modes_ok:
  assumes "effective_modes E i base authored es resolved = Inr (modes, profiles)"
    and "keyed base" "keyed authored" "\<forall>e\<in>set resolved. keyed (snd (snd e))"
  shows "map fst modes = map fst resolved" "map fst profiles = map fst resolved"
    "list_all2 (\<lambda>e f. cm_effective_profile_digest (snd e) = wp_digest (snd f)) modes profiles"
    "list_all2 (\<lambda>e f. verify_workflow_profile E (snd f) = Inr () \<and>
       (\<exists>merged out. merge_members base (snd (snd e)) = Inr merged \<and>
          apply_workflow_locks es authored merged = Inr out \<and> keyed merged \<and> keyed out \<and>
          wp_members (snd f) = map snd out)) resolved profiles"
proof -
  have "map fst modes = map fst resolved \<and> map fst profiles = map fst resolved \<and>
    list_all2 (\<lambda>e f. cm_effective_profile_digest (snd e) = wp_digest (snd f)) modes profiles \<and>
    list_all2 (\<lambda>e f. verify_workflow_profile E (snd f) = Inr () \<and>
       (\<exists>merged out. merge_members base (snd (snd e)) = Inr merged \<and>
          apply_workflow_locks es authored merged = Inr out \<and> keyed merged \<and> keyed out \<and>
          wp_members (snd f) = map snd out)) resolved profiles"
    using assms
  proof (induction resolved arbitrary: modes profiles)
    case (Cons e resolved)
    obtain n r members where e: "e = (n, r, members)" by (cases e)
    from Cons.prems(1) obtain merged out p modes' profiles' where step:
      "merge_members base members = Inr merged" "apply_workflow_locks es authored merged = Inr out"
      "compile_workflow_profile E (i @ ''.'' @ n) (map snd out) = Inr p"
      "effective_modes E i base authored es resolved = Inr (modes', profiles')"
      "modes = (n, \<lparr>cm_profile_id = rev_profile_id r, cm_profile_digest = rev_digest r,
         cm_effective_profile_digest = wp_digest p\<rparr>) # modes'" "profiles = (n, p) # profiles'"
      by (auto simp: e)
    have keyed: "keyed merged" using merge_members_ok(1) [OF step(1) Cons.prems(2)] Cons.prems(4) e by simp
    have "keyed out" by (rule apply_workflow_locks_ok(1) [OF step(2) keyed Cons.prems(3)])
    with compile_workflow_profile_ok [OF step(3)] Cons.IH [OF step(4)] Cons.prems keyed step
    show ?case by (auto simp: e)
  qed simp
  then show "map fst modes = map fst resolved" "map fst profiles = map fst resolved"
    "list_all2 (\<lambda>e f. cm_effective_profile_digest (snd e) = wp_digest (snd f)) modes profiles"
    "list_all2 (\<lambda>e f. verify_workflow_profile E (snd f) = Inr () \<and>
       (\<exists>merged out. merge_members base (snd (snd e)) = Inr merged \<and>
          apply_workflow_locks es authored merged = Inr out \<and> keyed merged \<and> keyed out \<and>
          wp_members (snd f) = map snd out)) resolved profiles" by blast+
qed

lemma validate_modes_ok:
  "validate_modes names ms = Inr out \<Longrightarrow>
     out = names \<union> mode_name ` set ms \<and> distinct (map mode_name ms) \<and> mode_name ` set ms \<inter> names = {}"
  by (induction names ms rule: validate_modes.induct) auto

section \<open>The self-check of the compiler\<close>

text \<open>Everything the compiler has computed when it builds the envelope.\<close>

definition compiled_parts ::
  "('z) workflow_env_scheme \<Rightarrow> workflow_definition \<Rightarrow> (string, compiled_revision) btree \<Rightarrow> catalog \<Rightarrow>
     lock_snapshot \<Rightarrow> provider_id \<Rightarrow> compiled_revision \<Rightarrow> members \<Rightarrow> members \<Rightarrow>
     (string, compiled_revision \<times> members) btree \<Rightarrow> bool" where
  "compiled_parts E d profiles c locks p baseline base maximum resolved \<longleftrightarrow>
     validate_workflow E d = Inr () \<and> verify_locks E locks = Inr () \<and> lock_provider locks = p \<and>
     workflow_profile_for E profiles (wf_baseline_profile_id d) = Inr baseline \<and>
     routable_members baseline c p = Inr base \<and>
     resolve_modes E profiles c p (wf_modes (canonical_workflow d)) base [] = Inr (maximum, resolved) \<and>
     validate_hard_enabled_locks maximum locks = Inr ()"

lemma validate_workflow_modes:
  assumes "validate_workflow E d = Inr u"
  shows "distinct (map mode_name (wf_modes d))" "wf_entry_mode d \<in> mode_name ` set (wf_modes d)"
  using assms validate_modes_ok [of "{}" "wf_modes d"] by (auto simp: validate_workflow_def)

lemma canonical_modes [simp]:
  "set (wf_modes (canonical_workflow d)) = set (wf_modes d)"
  "distinct (map mode_name (wf_modes (canonical_workflow d))) \<longleftrightarrow> distinct (map mode_name (wf_modes d))"
  by (simp_all add: canonical_workflow_def distinct_map)

lemma parts_ok:
  assumes "compiled_parts E d profiles c locks p baseline base maximum resolved"
  shows "keyed base" "keyed maximum" "within base maximum" "btree_ok resolved"
    "fst ` set resolved = mode_name ` set (wf_modes d)"
    "\<forall>e\<in>set resolved. keyed (snd (snd e)) \<and> within (snd (snd e)) maximum"
    "\<forall>m\<in>set (wf_modes d). \<exists>rm. map_of resolved (mode_name m) = Some rm \<and> mode_resolved E profiles c p m rm"
    "fst ` set base = routable_ids c p baseline"
proof -
  note parts = assms [unfolded compiled_parts_def]
  then have r: "routable_members baseline c p = Inr base"
    "resolve_modes E profiles c p (wf_modes (canonical_workflow d)) base [] = Inr (maximum, resolved)"
    "validate_workflow E d = Inr ()" by blast+
  show base: "keyed base" "fst ` set base = routable_ids c p baseline" by (rule routable_members_ok [OF r(1)])+
  have "distinct (map mode_name (wf_modes (canonical_workflow d)))"
    using validate_workflow_modes(1) [OF r(3)] by simp
  from resolve_modes_ok [OF r(2) base(1) _ this] show "keyed maximum" "within base maximum" "btree_ok resolved"
    "fst ` set resolved = mode_name ` set (wf_modes d)"
    "\<forall>e\<in>set resolved. keyed (snd (snd e)) \<and> within (snd (snd e)) maximum"
    "\<forall>m\<in>set (wf_modes d). \<exists>rm. map_of resolved (mode_name m) = Some rm \<and> mode_resolved E profiles c p m rm"
    by simp_all
qed

lemma locks_apply:
  assumes "validate_hard_enabled_locks maximum locks = Inr ()"
  shows "\<exists>out. apply_workflow_locks (lock_entries locks) maximum ms = Inr out"
  by (rule apply_workflow_locks_total)
    (use assms in \<open>fastforce simp: validate_hard_enabled_locks_def try_for_each_ok\<close>)

text \<open>Every effective member stands in the envelope.\<close>

lemma effective_within_envelope:
  assumes parts: "compiled_parts E d profiles c locks p baseline base maximum resolved"
    and modes: "effective_modes E (wf_id d) base maximum (lock_entries locks) resolved = Inr (modes, effective)"
    and envelope: "apply_workflow_locks (lock_entries locks) maximum maximum = Inr enveloped"
    and e: "(n, q) \<in> set effective"
  shows "verify_workflow_profile E q = Inr ()"
    "\<exists>out. keyed out \<and> wp_members q = map snd out \<and> within out enveloped"
proof -
  note ok = parts_ok [OF parts]
  have "\<forall>x\<in>set resolved. keyed (snd (snd x))" using ok(6) by blast
  note eff = effective_modes_ok [OF modes ok(1,2) this]
  from e obtain k where k: "k < length effective" "effective ! k = (n, q)" by (auto simp: in_set_conv_nth)
  have len: "length resolved = length effective" using eff(2) by (metis length_map)
  with list_all2_nthD2 [OF eff(4) k(1)] k obtain merged out where q:
    "verify_workflow_profile E q = Inr ()" "merge_members base (snd (snd (resolved ! k))) = Inr merged"
    "apply_workflow_locks (lock_entries locks) maximum merged = Inr out" "keyed merged" "keyed out"
    "wp_members q = map snd out" by auto
  have mem: "resolved ! k \<in> set resolved" using k(1) len by simp
  then have "keyed (snd (snd (resolved ! k)))" "within (snd (snd (resolved ! k))) maximum" using ok(6) by blast+
  with merge_members_ok(3) [OF q(2) ok(1)] ok(3) have "within merged maximum"
    by (auto simp: within_def split: option.splits)
  from locked_within [OF q(3) envelope q(4) ok(2) ok(2) this] q
  show "verify_workflow_profile E q = Inr ()"
    "\<exists>out. keyed out \<and> wp_members q = map snd out \<and> within out enveloped" by blast+
qed

lemma envelope_checks_pass:
  assumes "keyed enveloped" "wp_members envelope = map snd enveloped"
    and "keyed out" "within out enveloped" "m \<in> set (map snd out)"
  shows "check_enveloped envelope m = Inr ()" "profile_contains envelope (member_capability m)"
proof -
  from assms(5) obtain i where "(i, m) \<in> set out" by auto
  with assms(3) have "map_of out (member_capability m) = Some m"
    by (force simp: keyed_def btree_ok_distinct)
  with assms(4) have at: "map_of enveloped (member_capability m) = Some m" by (simp add: within_def)
  then show "check_enveloped envelope m = Inr ()"
    by (simp add: check_enveloped_def assms(2) find_keyed [OF assms(1)])
  from map_of_SomeD [OF at] show "profile_contains envelope (member_capability m)"
    by (force simp: profile_contains_def list_ex_iff assms(2))
qed

lemma computed_digest_unsigned [simp]: "computed_digest E (w\<lparr>cw_digest := x\<rparr>) = computed_digest E w"
  by (simp add: computed_digest_def)

lemma workflow_verifies:
  assumes parts: "compiled_parts E d profiles c locks p baseline base maximum resolved"
    and modes: "effective_modes E (wf_id d) base maximum (lock_entries locks) resolved = Inr (modes, effective)"
    and enveloped: "apply_workflow_locks (lock_entries locks) maximum maximum = Inr enveloped"
    and envelope: "compile_workflow_profile E i (map snd enveloped) = Inr envelope"
  shows "check_superset envelope effective = Inr ()"
    and "cw_schema_version w = 1 \<Longrightarrow> cw_system_controls w = all_workflow_controls \<Longrightarrow>
      cw_entry_mode w = wf_entry_mode d \<Longrightarrow> cw_modes w = modes \<Longrightarrow> cw_effective_profiles w = effective \<Longrightarrow>
      cw_maximum_envelope w = envelope \<Longrightarrow> cw_catalog_fingerprints w = envelope_fingerprints envelope \<Longrightarrow>
      computed_digest E w = Inr (cw_digest w) \<Longrightarrow> verify_workflow E w = Inr ()"
proof -
  note ok = parts_ok [OF parts]
  have keyed: "\<forall>x\<in>set resolved. keyed (snd (snd x))" using ok(6) by blast
  note eff = effective_modes_ok [OF modes ok(1,2) keyed]
  have "keyed enveloped" by (rule apply_workflow_locks_ok(1) [OF enveloped ok(2,2)])
  with compile_workflow_profile_ok [OF envelope] have env: "keyed enveloped"
    "wp_members envelope = map snd enveloped" "verify_workflow_profile E envelope = Inr ()" by blast+
  have member: "check_enveloped envelope m = Inr () \<and> profile_contains envelope (member_capability m)"
    if "(n, q) \<in> set effective" "m \<in> set (wp_members q)" for n q m
    using effective_within_envelope(2) [OF parts modes enveloped that(1)] that(2)
      envelope_checks_pass [OF env(1,2)] by auto
  then show "check_superset envelope effective = Inr ()"
    by (force simp: check_superset_def try_for_each_ok list_ex_iff)
  have names: "map fst modes = map fst effective" using eff(1,2) by simp
  have distinct: "distinct (map fst effective)" using eff(2) ok(4) by (simp add: btree_ok_distinct)
  assume w: "cw_schema_version w = 1" "cw_system_controls w = all_workflow_controls"
    "cw_entry_mode w = wf_entry_mode d" "cw_modes w = modes" "cw_effective_profiles w = effective"
    "cw_maximum_envelope w = envelope" "cw_catalog_fingerprints w = envelope_fingerprints envelope"
    "computed_digest E w = Inr (cw_digest w)"
  have mode: "verify_mode E w x = Inr ()" if x: "x \<in> set modes" for x
  proof -
    from x obtain k where k: "k < length modes" "modes ! k = x" by (auto simp: in_set_conv_nth)
    have len: "length modes = length effective" using names by (metis length_map)
    obtain q where q: "effective ! k = (fst x, q)"
      using names k len by (metis nth_map prod.collapse)
    with k len have mem: "(fst x, q) \<in> set effective" by (metis nth_mem)
    then have "map_of effective (fst x) = Some q" using distinct by simp
    moreover have "cm_effective_profile_digest (snd x) = wp_digest q"
      using list_all2_nthD [OF eff(3) k(1)] k(2) q by simp
    ultimately show ?thesis
      using effective_within_envelope(1) [OF parts modes enveloped mem] member [OF mem] w(5,6)
      by (simp add: verify_mode_def try_for_each_ok)
  qed
  have "validate_workflow E d = Inr ()" using parts by (simp add: compiled_parts_def)
  from validate_workflow_modes(2) [OF this] have "wf_entry_mode d \<in> fst ` set modes"
    using ok(5) eff(1) by (metis image_set)
  with w names env(3) mode show "verify_workflow E w = Inr ()"
    by (simp add: verify_workflow_def try_for_each_ok)
qed

section \<open>Which errors compiling can give\<close>

text \<open>The errors with which a compiled workflow fails its own check.\<close>

fun self_check_error :: "workflow_validation_error \<Rightarrow> bool" where
  "self_check_error EnvelopeNotSuperset \<longleftrightarrow> True"
| "self_check_error InvalidSystemControls \<longleftrightarrow> True"
| "self_check_error ModeProfileKeyMismatch \<longleftrightarrow> True"
| "self_check_error (EffectiveProfileDigestMismatch _ _ _) \<longleftrightarrow> True"
| "self_check_error CatalogFingerprintsMismatch \<longleftrightarrow> True"
| "self_check_error (UnsortedProfileMembers _) \<longleftrightarrow> True"
| "self_check_error (AuthoredMemberCountMismatch _ _ _) \<longleftrightarrow> True"
| "self_check_error (UnsupportedCompiledSchema _) \<longleftrightarrow> True"
| "self_check_error (WfDigestMismatch _ _) \<longleftrightarrow> True"
| "self_check_error _ \<longleftrightarrow> False"

definition input_error :: "workflow_validation_error + 'a \<Rightarrow> bool" where
  "input_error r \<longleftrightarrow> (case r of Inl e \<Rightarrow> \<not> self_check_error e | Inr _ \<Rightarrow> True)"

lemma input_error_bind: "input_error r \<Longrightarrow> (\<And>x. r = Inr x \<Longrightarrow> input_error (k x)) \<Longrightarrow> input_error (and_then r k)"
  by (cases r) (simp_all add: input_error_def)

lemma input_error_basic [simp]:
  "input_error (Inr x)" "input_error (ensure b e) \<longleftrightarrow> b \<or> \<not> self_check_error e"
  "input_error (ok_or v e) \<longleftrightarrow> v \<noteq> None \<or> \<not> self_check_error e"
  "input_error (Inl e) \<longleftrightarrow> \<not> self_check_error e"
  by (auto simp: input_error_def ensure_def ok_or_def split: option.split)

lemma input_error_map_err: "(\<And>e. \<not> self_check_error (f e)) \<Longrightarrow> input_error (map_err f r)"
  by (cases r) (simp_all add: input_error_def)

lemmas input_error_intros = input_error_bind input_error_map_err

lemma validate_modes_input: "input_error (validate_modes names ms)"
  by (induction names ms rule: validate_modes.induct)
    (auto intro!: input_error_intros simp: wf_validate_id_def)

lemma validate_workflow_input: "input_error (validate_workflow E d)"
  unfolding validate_workflow_def wf_validate_id_def
  by (intro input_error_bind validate_modes_input) (auto intro!: input_error_map_err)

lemma collect_routable_input: "input_error (collect_routable c p ms acc)"
  by (induction c p ms acc rule: collect_routable.induct)
    (auto intro!: input_error_intros simp: Let_def split: if_splits)

lemma merge_members_input: "input_error (merge_members target source)"
  by (induction target source rule: merge_members.induct)
    (auto intro!: input_error_intros split: option.splits)

lemma workflow_profile_for_input: "input_error (workflow_profile_for E profiles i)"
  by (auto simp: workflow_profile_for_def intro!: input_error_intros)

lemma resolve_modes_input: "input_error (resolve_modes E profiles c p ms maximum resolved)"
  by (induction E profiles c p ms maximum resolved rule: resolve_modes.induct)
    (auto intro!: input_error_intros workflow_profile_for_input collect_routable_input merge_members_input
      simp: routable_members_def)

lemma try_for_each_input: "(\<And>x. input_error (f x)) \<Longrightarrow> input_error (try_for_each f xs)"
  by (induction xs) (auto intro: input_error_bind)

lemma validate_locks_input: "input_error (validate_hard_enabled_locks maximum locks)"
  unfolding validate_hard_enabled_locks_def by (rule try_for_each_input) auto

lemma compile_workflow_profile_input: "input_error (compile_workflow_profile E i ms)"
  by (auto simp: compile_workflow_profile_def workflow_profile_digest_def intro!: input_error_intros)

lemma workflow_definition_digest_input: "input_error (workflow_definition_digest E d)"
  by (auto simp: workflow_definition_digest_def intro!: input_error_intros validate_workflow_input)

lemma computed_digest_input: "input_error (computed_digest E w)"
  by (auto simp: computed_digest_def intro!: input_error_intros)

text \<open>A failure that is neither a panic nor a failed self-check.\<close>

definition clean :: "workflow_failure + 'a \<Rightarrow> bool" where
  "clean r \<longleftrightarrow> (case r of Inl WfPanic \<Rightarrow> False | Inl (WfRejected e) \<Rightarrow> \<not> self_check_error e | Inr _ \<Rightarrow> True)"

lemma clean_bind: "clean r \<Longrightarrow> (\<And>x. r = Inr x \<Longrightarrow> clean (k x)) \<Longrightarrow> clean (and_then r k)"
  by (cases r) (simp_all add: clean_def)

lemma clean_input [simp]: "clean (map_err WfRejected r) \<longleftrightarrow> input_error r"
  by (cases r) (simp_all add: clean_def input_error_def)

lemma clean_basic [simp]:
  "clean (Inr x)" "clean (ensure b (WfRejected e)) \<longleftrightarrow> b \<or> \<not> self_check_error e"
  by (auto simp: clean_def ensure_def)

lemma effective_modes_clean:
  assumes "keyed base" "within base maximum" "validate_hard_enabled_locks maximum locks = Inr ()"
    "\<forall>e\<in>set resolved. keyed (snd (snd e)) \<and> within (snd (snd e)) maximum"
  shows "clean (effective_modes E i base maximum (lock_entries locks) resolved)"
  using assms(4)
proof (induction resolved)
  case (Cons e resolved)
  obtain n r ms where e: "e = (n, r, ms)" by (cases e)
  have "agree base ms" using assms(2) Cons.prems e within_agree by force
  then obtain merged where m: "merge_members base ms = Inr merged"
    using merge_members_total assms(1) Cons.prems e by force
  obtain out where o: "apply_workflow_locks (lock_entries locks) maximum merged = Inr out"
    using locks_apply [OF assms(3)] by blast
  have IH: "clean (effective_modes E i base maximum (lock_entries locks) resolved)"
    using Cons by simp
  show ?case
    by (simp add: e m o) (auto intro!: clean_bind simp: compile_workflow_profile_input IH)
qed simp

lemma assemble_workflow_ok:
  assumes parts: "compiled_parts E d profiles c locks p baseline base maximum resolved"
    and modes: "effective_modes E (wf_id d) base maximum (lock_entries locks) resolved = Inr (modes, effective)"
  shows "clean (assemble_workflow E d locks p scope baseline maximum modes effective)"
    "assemble_workflow E d locks p scope baseline maximum modes effective = Inr w \<Longrightarrow>
       cw_modes w = modes \<and> cw_effective_profiles w = effective \<and> verify_workflow E w = Inr ()"
proof -
  have "validate_hard_enabled_locks maximum locks = Inr ()" using parts by (simp add: compiled_parts_def)
  then obtain enveloped where env: "apply_workflow_locks (lock_entries locks) maximum maximum = Inr enveloped"
    using locks_apply by blast
  note checks = workflow_verifies [OF parts modes env]
  have sealed: "clean (seal_workflow E w)"
    if "cw_schema_version w = 1" "cw_system_controls w = all_workflow_controls"
      "cw_entry_mode w = wf_entry_mode d" "cw_modes w = modes" "cw_effective_profiles w = effective"
      "cw_catalog_fingerprints w = envelope_fingerprints (cw_maximum_envelope w)"
      "compile_workflow_profile E i (map snd enveloped) = Inr (cw_maximum_envelope w)" for w i
    unfolding seal_workflow_def
  proof (rule clean_bind)
    show "clean (map_err WfRejected (computed_digest E w))" by (simp add: computed_digest_input)
    fix digest
    assume "map_err WfRejected (computed_digest E w) = Inr digest"
    then have "verify_workflow E (w\<lparr>cw_digest := digest\<rparr>) = Inr ()"
      using checks(2) [OF that(7), of "w\<lparr>cw_digest := digest\<rparr>"] that by simp
    then show "clean (and_then (verify_workflow E (w\<lparr>cw_digest := digest\<rparr>))
      (\<lambda>_. Inr (w\<lparr>cw_digest := digest\<rparr>)))" by simp
  qed
  show "clean (assemble_workflow E d locks p scope baseline maximum modes effective)"
    unfolding assemble_workflow_def env and_then_simps
    by (intro clean_bind sealed)
      (simp_all add: compile_workflow_profile_input workflow_definition_digest_input checks(1))
  show "assemble_workflow E d locks p scope baseline maximum modes effective = Inr w \<Longrightarrow>
       cw_modes w = modes \<and> cw_effective_profiles w = effective \<and> verify_workflow E w = Inr ()"
    by (auto simp: assemble_workflow_def env seal_workflow_def)
qed

lemma compile_workflow_clean: "clean (compile_workflow E d profiles c locks p scope)"
  unfolding compile_workflow_def
proof (intro clean_bind)
  show "clean (map_err WfRejected (validate_workflow E d))" by (simp add: validate_workflow_input)
  show "clean (map_err (WfRejected \<circ> LockInvalid) (verify_locks E locks))"
    by (cases "verify_locks E locks") (simp_all add: clean_def)
  show "clean (ensure (lock_provider locks = p) (WfRejected (WfLockProviderMismatch p (lock_provider locks))))"
    by simp
  show "clean (map_err WfRejected (workflow_profile_for E profiles (wf_baseline_profile_id d)))"
    by (simp add: workflow_profile_for_input)
  show "clean (map_err WfRejected (routable_members baseline c p))" for baseline
    by (simp add: routable_members_def collect_routable_input)
  show "clean (map_err WfRejected (resolve_modes E profiles c p (wf_modes (canonical_workflow d)) base []))" for base
    by (simp add: resolve_modes_input)
  fix u1 u2 u3 baseline base mr
  assume pre: "map_err WfRejected (validate_workflow E d) = Inr u1"
    "map_err (WfRejected \<circ> LockInvalid) (verify_locks E locks) = Inr u2"
    "ensure (lock_provider locks = p) (WfRejected (WfLockProviderMismatch p (lock_provider locks))) = Inr u3"
    "map_err WfRejected (workflow_profile_for E profiles (wf_baseline_profile_id d)) = Inr baseline"
    "map_err WfRejected (routable_members baseline c p) = Inr base"
    "map_err WfRejected (resolve_modes E profiles c p (wf_modes (canonical_workflow d)) base []) = Inr mr"
  obtain maximum resolved where mr: "mr = (maximum, resolved)" by (cases mr)
  show "clean (case mr of (maximum, resolved) \<Rightarrow>
     and_then (map_err WfRejected (validate_hard_enabled_locks maximum locks)) (\<lambda>_.
     and_then (effective_modes E (wf_id d) base maximum (lock_entries locks) resolved) (\<lambda>(modes, effective).
     assemble_workflow E d locks p scope baseline maximum modes effective)))"
    unfolding mr prod.case
  proof (rule clean_bind)
    show "clean (map_err WfRejected (validate_hard_enabled_locks maximum locks))"
      by (simp add: validate_locks_input)
    fix u
    assume "map_err WfRejected (validate_hard_enabled_locks maximum locks) = Inr u"
    then have valid: "validate_hard_enabled_locks maximum locks = Inr ()" by simp
    with pre mr have parts: "compiled_parts E d profiles c locks p baseline base maximum resolved"
      by (simp add: compiled_parts_def)
    note ok = parts_ok [OF parts]
    show "clean (and_then (effective_modes E (wf_id d) base maximum (lock_entries locks) resolved)
      (\<lambda>(modes, effective). assemble_workflow E d locks p scope baseline maximum modes effective))"
      using assemble_workflow_ok(1) [OF parts]
      by (intro clean_bind effective_modes_clean ok valid) auto
  qed
qed

lemma compile_workflow_ok:
  assumes "compile_workflow E d profiles c locks p scope = Inr w"
  obtains baseline base maximum resolved where
    "compiled_parts E d profiles c locks p baseline base maximum resolved"
    "effective_modes E (wf_id d) base maximum (lock_entries locks) resolved =
       Inr (cw_modes w, cw_effective_profiles w)"
    "verify_workflow E w = Inr ()"
proof -
  from assms obtain baseline base maximum resolved modes effective where
    parts: "compiled_parts E d profiles c locks p baseline base maximum resolved"
    and modes: "effective_modes E (wf_id d) base maximum (lock_entries locks) resolved = Inr (modes, effective)"
    and w: "assemble_workflow E d locks p scope baseline maximum modes effective = Inr w"
    by (auto simp: compile_workflow_def compiled_parts_def)
  with assemble_workflow_ok(2) [OF parts modes w] that show thesis by metis
qed

section \<open>What a compiled workflow exposes\<close>

lemma list_all2_map_of:
  "list_all2 P xs ys \<Longrightarrow> map fst ys = map fst xs \<Longrightarrow> map_of xs k = Some a \<Longrightarrow>
     \<exists>b. map_of ys k = Some b \<and> P (k, a) (k, b)"
  by (induction rule: list_all2_induct) (auto split: if_splits)

definition locked_ids :: "lock_entries \<Rightarrow> capability_id set \<Rightarrow> capability_id set" where
  "locked_ids es ids = {i. case map_of (rev es) i of
     None \<Rightarrow> i \<in> ids | Some HardEnabled \<Rightarrow> True | Some HardDisabled \<Rightarrow> False}"

lemma locked_ids_applied:
  assumes "apply_workflow_locks es authored ms = Inr out" "keyed ms" "keyed authored"
    and "\<forall>e\<in>set es. snd e = HardEnabled \<longrightarrow> map_of authored (fst e) \<noteq> None"
  shows "fst ` set out = locked_ids es (fst ` set ms)"
proof -
  have "map_of (rev es) i = Some HardEnabled \<Longrightarrow> map_of authored i \<noteq> None" for i
    using assms(4) map_of_SomeD [of "rev es" i HardEnabled] by force
  then have "i \<in> fst ` set out \<longleftrightarrow> i \<in> locked_ids es (fst ` set ms)" for i
    unfolding in_keys locked_ids_def apply_workflow_locks_ok(2) [OF assms(1-3)] mem_Collect_eq
    by (simp split: option.split capability_lock_state.split)
  then show ?thesis by blast
qed

lemma workflow_profile_for_ok:
  "workflow_profile_for E profiles i = Inr r \<Longrightarrow> map_of profiles i = Some r"
  by (auto simp: workflow_profile_for_def)

lemma mode_effective_ids:
  assumes parts: "compiled_parts E d profiles c locks p baseline base maximum resolved"
    and eff: "effective_modes E (wf_id d) base maximum (lock_entries locks) resolved = Inr (modes, effective)"
    and m: "m \<in> set (wf_modes d)"
  obtains r q where "map_of profiles (mode_profile_id m) = Some r" "map_of effective (mode_name m) = Some q"
    "member_capability ` set (wp_members q) =
       locked_ids (lock_entries locks) (routable_ids c p baseline \<union> routable_ids c p r)"
proof -
  note ok = parts_ok [OF parts]
  have "\<forall>x\<in>set resolved. keyed (snd (snd x))" using ok(6) by blast
  note eff = effective_modes_ok [OF eff ok(1,2) this]
  from ok(7) m obtain r ms where r: "map_of resolved (mode_name m) = Some (r, ms)"
    "workflow_profile_for E profiles (mode_profile_id m) = Inr r" "routable_members r c p = Inr ms"
    by (force simp: mode_resolved_def)
  from list_all2_map_of [OF eff(4) eff(2) r(1)] obtain q merged out where q:
    "map_of effective (mode_name m) = Some q" "merge_members base ms = Inr merged"
    "apply_workflow_locks (lock_entries locks) maximum merged = Inr out" "keyed merged" "keyed out"
    "wp_members q = map snd out" by auto
  note routed = routable_members_ok [OF r(3)]
  have "validate_hard_enabled_locks maximum locks = Inr ()" using parts by (simp add: compiled_parts_def)
  then have "\<forall>e\<in>set (lock_entries locks). snd e = HardEnabled \<longrightarrow> map_of maximum (fst e) \<noteq> None"
    by (fastforce simp: validate_hard_enabled_locks_def try_for_each_ok)
  from locked_ids_applied [OF q(3,4) ok(2) this]
  have "fst ` set out = locked_ids (lock_entries locks) (routable_ids c p baseline \<union> routable_ids c p r)"
    using merge_members_within(3) [OF q(2) ok(1) routed(1)] routed(2) ok(8) by simp
  moreover have "member_capability ` set (wp_members q) = fst ` set out"
    using keyed_capabilities [OF q(5)] q(6) by (metis image_set)
  ultimately show thesis using that workflow_profile_for_ok [OF r(2)] q(1) by simp
qed

text \<open>
  C27: A compiled workflow has one effective profile for every mode of its definition and for
  nothing else. The capabilities of a mode are the routable members (skills, MCP tools and hooks
  of the catalog, granted for the provider) of the baseline profile together with those of the
  mode's profile, less the hard-disabled ones and with the hard-enabled ones.
\<close>

theorem workflow_modes_compose:
  "case compile_workflow E d profiles c locks p scope of Inl _ \<Rightarrow> True
   | Inr w \<Rightarrow> map_of profiles (wf_baseline_profile_id d) \<noteq> None \<and>
       fst ` set (cw_effective_profiles w) = mode_name ` set (wf_modes d) \<and>
       list_all (\<lambda>m. case (map_of profiles (mode_profile_id m), map_of (cw_effective_profiles w) (mode_name m)) of
           (Some r, Some q) \<Rightarrow> member_capability ` set (wp_members q) = locked_ids (lock_entries locks)
             (routable_ids c p (the (map_of profiles (wf_baseline_profile_id d))) \<union> routable_ids c p r)
         | _ \<Rightarrow> False) (wf_modes d)"
proof (cases "compile_workflow E d profiles c locks p scope")
  case (Inr w)
  then obtain baseline base maximum resolved where
    parts: "compiled_parts E d profiles c locks p baseline base maximum resolved"
    and eff: "effective_modes E (wf_id d) base maximum (lock_entries locks) resolved =
       Inr (cw_modes w, cw_effective_profiles w)" by (rule compile_workflow_ok)
  note ok = parts_ok [OF parts]
  have "\<forall>x\<in>set resolved. keyed (snd (snd x))" using ok(6) by blast
  from effective_modes_ok(2) [OF eff ok(1,2) this] ok(5)
  have names: "fst ` set (cw_effective_profiles w) = mode_name ` set (wf_modes d)" by (metis image_set)
  have base: "map_of profiles (wf_baseline_profile_id d) = Some baseline"
    using parts unfolding compiled_parts_def by (blast intro: workflow_profile_for_ok)
  have "case (map_of profiles (mode_profile_id m), map_of (cw_effective_profiles w) (mode_name m)) of
           (Some r, Some q) \<Rightarrow> member_capability ` set (wp_members q) =
             locked_ids (lock_entries locks) (routable_ids c p baseline \<union> routable_ids c p r)
         | _ \<Rightarrow> False" if "m \<in> set (wf_modes d)" for m
    using mode_effective_ids [OF parts eff that] by fastforce
  with names show ?thesis unfolding Inr sum.case base option.sel list_all_iff by simp
qed simp

text \<open>
  C28: The checks with which the compiler ends never fail, and it does not panic: a workflow it
  returns passes \<open>verify_digest\<close>, every hard-enabled capability it looks up is in the authored
  maximum, and a definition is refused only for what is wrong with its own text, its profiles,
  the catalog or the locks, never for an envelope that is not a superset, profile keys or digests
  that disagree, unsorted members or missing controls.
\<close>

theorem workflow_self_check_never_fails:
  "case compile_workflow E d profiles c locks p scope of
     Inr w \<Rightarrow> verify_workflow E w = Inr ()
   | Inl (WfRejected e) \<Rightarrow> \<not> self_check_error e
   | Inl WfPanic \<Rightarrow> False"
proof (cases "compile_workflow E d profiles c locks p scope")
  case (Inr w)
  then show ?thesis by (auto elim: compile_workflow_ok)
next
  case (Inl e)
  with compile_workflow_clean [of E d profiles c locks p scope] show ?thesis
    by (simp add: clean_def split: workflow_failure.splits)
qed

end
