(* ===== verification/Session_Lease.thy ===== *)
theory Session_Lease
  imports Transition_Coordinator Policy
begin

text \<open>
  \<open>sessions/lease.rs\<close>: the authority key of a machine, the bootstrap claim with which a provider
  process is started, and the lease it becomes. Every record is validated and authenticated with an
  HMAC over its JSON; HMAC and the JSON printers are parameters. A \<open>BTreeSet\<close> is its sorted list.
  Reading and zeroizing secrets and the printing of errors are not modelled.
\<close>

section \<open>Errors and the authority key\<close>

datatype lease_validation_error =
    LeaseInvalidIdentifier string
  | LeaseInvalidDigest string
  | InvalidAuthorityKey
  | InvalidAuthenticationMetadata
  | LeaseInvalidProcessEvidence
  | InvalidCoverage
  | InvalidCapabilityLocks
  | LeaseStrictIsolationUnavailable
  | InvalidLeaseExpiry
  | InvalidBootstrapExpiry
  | InvalidLifecycle
  | InvalidWorkflowEnvelope
  | LeaseOwnerAuthenticationFailed
  | AuthenticationFailed
  | LeaseSerialization string

definition session_lease_store_schema_v2 :: u32 where "session_lease_store_schema_v2 = 2"
definition session_lease_store_schema_v3 :: u32 where "session_lease_store_schema_v3 = 3"
definition bootstrap_lifetime_seconds :: int where "bootstrap_lifetime_seconds = 5 * 60"
definition max_session_lifetime_seconds :: int where "max_session_lifetime_seconds = 30 * 24 * 60 * 60"

definition session_authentication_algorithm :: string where
  "session_authentication_algorithm = ''hmac-sha256''"

definition bootstrap_authentication_purpose :: string where
  "bootstrap_authentication_purpose = ''unpin-session-bootstrap-v2'' @ [CHR 0x00]"

definition lease_authentication_purpose_v2 :: string where
  "lease_authentication_purpose_v2 = ''unpin-session-lease-v2'' @ [CHR 0x00]"

definition lease_authentication_purpose_v3 :: string where
  "lease_authentication_purpose_v3 = ''unpin-session-lease-v3'' @ [CHR 0x00]"

definition session_key_from_bytes :: "string \<Rightarrow> string + string" where
  "session_key_from_bytes bytes =
     (if length bytes = 32 then Inr bytes else Inl ''session authority key must be exactly 32 bytes'')"

definition session_key_id :: "('z) hashing_scheme \<Rightarrow> string \<Rightarrow> string" where
  "session_key_id H k = ''sha256:'' @ take 16 (encode_lower_hex (sha256 H k))"

section \<open>Identifiers, digests and lifetimes\<close>

definition lease_identifier :: "string \<Rightarrow> string \<Rightarrow> lease_validation_error + unit" where
  "lease_identifier label v = ensure (valid_identifier v) (LeaseInvalidIdentifier label)"

definition lease_digest :: "string \<Rightarrow> string \<Rightarrow> lease_validation_error + unit" where
  "lease_digest label v = ensure (length v = 64 \<and> list_all is_lower_hex v) (LeaseInvalidDigest label)"

definition validate_workspace_revision :: "string \<Rightarrow> lease_validation_error + unit" where
  "validate_workspace_revision v =
     ensure (length v \<in> {40, 64} \<and> list_all is_lower_hex v) (LeaseInvalidDigest ''workspace revision'')"

definition validate_lifetime ::
  "int \<Rightarrow> int \<Rightarrow> int \<Rightarrow> lease_validation_error \<Rightarrow> lease_validation_error + unit" where
  "validate_lifetime starts expires maximum e =
     and_then (ok_or (checked_sub expires starts) e) (\<lambda>lifetime.
     ensure (\<not> (lifetime \<le> 0 \<or> lifetime > maximum)) e)"

definition checked_add :: "int \<Rightarrow> int \<Rightarrow> int option" where
  "checked_add a b = (if i64_min \<le> a + b \<and> a + b \<le> i64_max then Some (a + b) else None)"

definition digest_bytes :: "('z) hashing_scheme \<Rightarrow> string \<Rightarrow> string" where
  "digest_bytes H bytes = encode_lower_hex (sha256 H bytes)"

definition validate_authentication_metadata ::
  "string \<Rightarrow> string \<Rightarrow> string \<Rightarrow> lease_validation_error + unit" where
  "validate_authentication_metadata alg kid t =
     and_then (ok_or (strip_prefix ''sha256:'' kid) InvalidAuthenticationMetadata) (\<lambda>d.
     and_then (ensure (\<not> (alg \<noteq> session_authentication_algorithm \<or> length d \<noteq> 16 \<or> \<not> list_all is_lower_hex d))
        InvalidAuthenticationMetadata) (\<lambda>_.
     lease_digest ''session authentication tag'' t))"

definition xor_byte :: "char \<Rightarrow> char \<Rightarrow> 8 word" where
  "xor_byte a b = xor (word_of_nat (code a)) (word_of_nat (code b))"

definition constant_time_equal :: "string \<Rightarrow> string \<Rightarrow> bool" where
  "constant_time_equal l r =
     (if length l \<noteq> length r then False
      else foldl (\<lambda>difference (a, b). or difference (xor_byte a b)) 0 (zip l r) = 0)"

definition is_ascii_hexdigit :: "char \<Rightarrow> bool" where
  "is_ascii_hexdigit c \<longleftrightarrow> is_digit c \<or> (97 \<le> code c \<and> code c \<le> 102) \<or> (65 \<le> code c \<and> code c \<le> 70)"

definition radix_16 :: "char \<Rightarrow> nat" where
  "radix_16 c = (if is_digit c then code c - 48 else if 97 \<le> code c then code c - 87 else code c - 55)"

fun decode_pairs :: "string \<Rightarrow> string" where
  "decode_pairs (a # b # rest) = char_of (16 * radix_16 a + radix_16 b) # decode_pairs rest"
| "decode_pairs _ = []"

definition decode_secret :: "string \<Rightarrow> string option" where
  "decode_secret raw =
     (if length raw \<noteq> 32 * 2 \<or> \<not> list_all is_ascii_hexdigit raw then None else Some (decode_pairs raw))"

definition decode_authentication_tag :: "string \<Rightarrow> lease_validation_error + string" where
  "decode_authentication_tag raw = ok_or (decode_secret raw) InvalidAuthenticationMetadata"

section \<open>What a session pins\<close>

datatype pinned_profile =
    PinnedNative
  | PinnedNone
  | PinnedProfile string string profile_source_scope string

fun validate_pinned_profile :: "pinned_profile \<Rightarrow> lease_validation_error + unit" where
  "validate_pinned_profile (PinnedProfile i digest scope def_digest) =
     and_then (lease_identifier ''profile id'' i) (\<lambda>_.
     and_then (lease_digest ''profile'' digest) (\<lambda>_.
     lease_digest ''profile definition'' def_digest))"
| "validate_pinned_profile _ = Inr ()"

fun pinned_digest :: "pinned_profile \<Rightarrow> string option" where
  "pinned_digest (PinnedProfile _ digest _ _) = Some digest"
| "pinned_digest _ = None"

definition requires_gateway_routing :: "pinned_profile \<Rightarrow> bool" where
  "requires_gateway_routing p \<longleftrightarrow> p \<noteq> PinnedNative"

record pinned_exposure =
  exposure_revision :: string
  exposure_profile :: pinned_profile
  exposure_locks :: "lock_snapshot option"

definition validate_exposure ::
  "('z) policy_env_scheme \<Rightarrow> pinned_exposure \<Rightarrow> lease_validation_error + unit" where
  "validate_exposure E x =
     and_then (lease_digest ''exposure revision'' (exposure_revision x)) (\<lambda>_.
     and_then (validate_pinned_profile (exposure_profile x)) (\<lambda>_.
     if_some (exposure_locks x) (\<lambda>locks. map_err (\<lambda>_. InvalidCapabilityLocks) (verify_locks E locks))))"

record pinned_workflow =
  pw_workflow_id :: string
  pw_workflow_revision :: string
  pw_baseline_profile_id :: string
  pw_baseline_profile_digest :: string
  pw_profile_revisions :: "(string, string) btree"
  pw_active_mode :: string
  pw_active_effective_profile_digest :: string
  pw_maximum_envelope_digest :: string
  pw_capability_lock_digest :: string
  pw_catalog_revision :: string
  pw_proposal_id :: string
  pw_proposal_fingerprint :: string
  pw_state_sequence :: u64
  pw_sealed_generation :: u64

definition validate_pinned_workflow :: "pinned_workflow \<Rightarrow> lease_validation_error + unit" where
  "validate_pinned_workflow w =
     and_then (lease_identifier ''workflow id'' (pw_workflow_id w)) (\<lambda>_.
     and_then (lease_identifier ''baseline profile id'' (pw_baseline_profile_id w)) (\<lambda>_.
     and_then (lease_identifier ''workflow mode'' (pw_active_mode w)) (\<lambda>_.
     and_then (lease_identifier ''workflow proposal id'' (pw_proposal_id w)) (\<lambda>_.
     and_then (try_for_each (\<lambda>(mode, digest).
        and_then (lease_identifier ''workflow mode'' mode) (\<lambda>_. lease_digest ''workflow profile'' digest))
        (pw_profile_revisions w)) (\<lambda>_.
     and_then (try_for_each (\<lambda>(label, digest). lease_digest label digest)
        [(''workflow revision'', pw_workflow_revision w),
         (''baseline profile'', pw_baseline_profile_digest w),
         (''effective profile'', pw_active_effective_profile_digest w),
         (''maximum envelope'', pw_maximum_envelope_digest w),
         (''capability lock'', pw_capability_lock_digest w),
         (''catalog revision'', pw_catalog_revision w),
         (''proposal fingerprint'', pw_proposal_fingerprint w)]) (\<lambda>_.
     ensure (\<not> (pw_profile_revisions w = [] \<or> map_of (pw_profile_revisions w) (pw_active_mode w) = None \<or>
           pw_state_sequence w = 0 \<or> pw_sealed_generation w = 0)) InvalidWorkflowEnvelope))))))"

datatype isolation_level = Strict | ConnectionScoped

datatype coverage_level = VerifiedMasked | ExternalDegraded "string list"

fun validate_coverage :: "coverage_level \<Rightarrow> lease_validation_error + unit" where
  "validate_coverage VerifiedMasked = Inr ()"
| "validate_coverage (ExternalDegraded reasons) =
     and_then (ensure (reasons \<noteq> []) InvalidCoverage) (\<lambda>_.
     and_then (try_for_each (lease_identifier ''coverage reason'') reasons) (\<lambda>_.
     ensure (remdups_adj (sort reasons) = reasons) InvalidCoverage))"

definition supports_strict_isolation :: "coverage_level \<Rightarrow> bool" where
  "supports_strict_isolation c \<longleftrightarrow> c = VerifiedMasked"

record process_evidence =
  pid :: u32
  start_marker :: string

definition validate_process :: "process_evidence \<Rightarrow> lease_validation_error + unit" where
  "validate_process p =
     and_then (ensure (pid p \<noteq> 0) LeaseInvalidProcessEvidence) (\<lambda>_.
     lease_identifier ''process start marker'' (start_marker p))"

record bootstrap_request =
  req_provider :: provider_id
  req_repository_key :: string
  req_workspace_key :: string
  req_workspace_revision :: "string option"
  req_exposure :: pinned_exposure
  req_process :: process_evidence
  req_connection_scope_id :: string
  req_isolation :: isolation_level
  req_coverage :: coverage_level
  req_protected_resources :: "string list"
  req_lease_expires_at :: int

definition validate_request ::
  "('z) policy_env_scheme \<Rightarrow> bootstrap_request \<Rightarrow> int \<Rightarrow> lease_validation_error + unit" where
  "validate_request E r now =
     and_then (lease_identifier ''repository key'' (req_repository_key r)) (\<lambda>_.
     and_then (lease_identifier ''workspace key'' (req_workspace_key r)) (\<lambda>_.
     and_then (lease_identifier ''connection scope'' (req_connection_scope_id r)) (\<lambda>_.
     and_then (if_some (req_workspace_revision r) validate_workspace_revision) (\<lambda>_.
     and_then (validate_exposure E (req_exposure r)) (\<lambda>_.
     and_then (ensure (case exposure_locks (req_exposure r) of None \<Rightarrow> True
          | Some locks \<Rightarrow> lock_provider locks = req_provider r) InvalidCapabilityLocks) (\<lambda>_.
     and_then (validate_process (req_process r)) (\<lambda>_.
     and_then (validate_coverage (req_coverage r)) (\<lambda>_.
     and_then (ensure (\<not> (req_isolation r = Strict \<and> \<not> supports_strict_isolation (req_coverage r)))
        LeaseStrictIsolationUnavailable) (\<lambda>_.
     and_then (try_for_each (lease_identifier ''protected resource'') (req_protected_resources r)) (\<lambda>_.
     validate_lifetime now (req_lease_expires_at r) max_session_lifetime_seconds InvalidLeaseExpiry))))))))))"

record connection_claim =
  claim_connection_owner_id :: string
  claim_provider :: provider_id
  claim_binding_repository_key :: string
  claim_binding_workspace_key :: string
  claim_process :: process_evidence
  claim_connection_scope_id :: string

definition validate_claim :: "connection_claim \<Rightarrow> lease_validation_error + unit" where
  "validate_claim c =
     and_then (lease_identifier ''connection owner'' (claim_connection_owner_id c)) (\<lambda>_.
     and_then (lease_identifier ''repository key'' (claim_binding_repository_key c)) (\<lambda>_.
     and_then (lease_identifier ''workspace key'' (claim_binding_workspace_key c)) (\<lambda>_.
     and_then (lease_identifier ''connection scope'' (claim_connection_scope_id c)) (\<lambda>_.
     validate_process (claim_process c)))))"

text \<open>The secrets a process holds: the bootstrap authority and, once claimed, the session handle.\<close>

record bootstrap_authority =
  authority_session_id :: string
  authority_secret :: string

record session_handle =
  handle_session_id :: string
  handle_owner_id :: string
  handle_secret :: string

section \<open>The lease\<close>

datatype lease_lifecycle = LeaseActive | Revoking | LeaseClosed | LeaseExpired

definition contributes_active_intent :: "lease_lifecycle \<Rightarrow> bool" where
  "contributes_active_intent l \<longleftrightarrow> l \<in> {LeaseActive, Revoking}"

datatype live_exposure_status =
  Configured | NotificationSent | ObservedRefresh | ReloadRequired | NextSessionOnly | StatusUnknown

record session_lease =
  lease_session_id :: string
  lease_provider :: provider_id
  lease_repository_key :: string
  lease_workspace_key :: string
  workspace_start_revision :: "string option"
  last_workspace_revision :: "string option"
  workspace_drifted :: bool
  lease_workflow :: "pinned_workflow option"
  desired_exposure :: pinned_exposure
  observed_exposure :: pinned_exposure
  live_status :: live_exposure_status
  lease_process :: process_evidence
  isolation :: isolation_level
  coverage :: coverage_level
  protected_resources :: "string list"
  lease_lifecycle :: lease_lifecycle
  admission_open :: bool
  in_flight_calls :: u32
  in_flight_call_ids :: "string list"
  heartbeat_at :: int
  lease_expires_at :: int
  connection_owner_id :: string
  closed_reason :: "string option"
  connection_scope_digest :: string
  owner_secret_digest :: string
  authentication_algorithm :: string
  authority_key_id :: string
  authentication_tag :: string

record pending_bootstrap =
  pend_session_id :: string
  pend_provider :: provider_id
  pend_repository_key :: string
  pend_workspace_key :: string
  pend_workspace_revision :: "string option"
  pend_exposure :: pinned_exposure
  pend_process :: process_evidence
  pend_connection_scope_digest :: string
  pend_isolation :: isolation_level
  pend_coverage :: coverage_level
  pend_protected_resources :: "string list"
  pend_lease_expires_at :: int
  pend_issued_at :: int
  pend_bootstrap_expires_at :: int
  pend_secret_digest :: string
  pend_authentication_algorithm :: string
  pend_authority_key_id :: string
  pend_authentication_tag :: string

record lease_env = policy_env +
  session_hmac :: "string \<Rightarrow> string \<Rightarrow> string"
  lease_json_v2 :: "session_lease \<Rightarrow> string + string"
  lease_json_v3 :: "session_lease \<Rightarrow> string + string"
  bootstrap_json :: "pending_bootstrap \<Rightarrow> string + string"

definition session_authenticate :: "('z) lease_env_scheme \<Rightarrow> string \<Rightarrow> string \<Rightarrow> string \<Rightarrow> string" where
  "session_authenticate E k purpose payload = encode_lower_hex (session_hmac E k (purpose @ payload))"

definition session_verify ::
  "('z) lease_env_scheme \<Rightarrow> string \<Rightarrow> string \<Rightarrow> string \<Rightarrow> string \<Rightarrow> lease_validation_error + unit" where
  "session_verify E k purpose payload t =
     and_then (decode_authentication_tag t) (\<lambda>mac.
     ensure (session_hmac E k (purpose @ payload) = mac) AuthenticationFailed)"

text \<open>The body of version 3 is every field but the tag, that of version 2 has no workflow either.\<close>

definition lease_message_v3 :: "('z) lease_env_scheme \<Rightarrow> session_lease \<Rightarrow> lease_validation_error + string" where
  "lease_message_v3 E l = map_err LeaseSerialization (lease_json_v3 E (l\<lparr>authentication_tag := []\<rparr>))"

definition lease_message_v2 :: "('z) lease_env_scheme \<Rightarrow> session_lease \<Rightarrow> lease_validation_error + string" where
  "lease_message_v2 E l =
     map_err LeaseSerialization (lease_json_v2 E (l\<lparr>authentication_tag := [], lease_workflow := None\<rparr>))"

definition store_schema_version :: "session_lease \<Rightarrow> u32" where
  "store_schema_version l =
     (if lease_workflow l \<noteq> None then session_lease_store_schema_v3 else session_lease_store_schema_v2)"

definition seal_lease ::
  "('z) lease_env_scheme \<Rightarrow> string \<Rightarrow> session_lease \<Rightarrow> lease_validation_error + session_lease" where
  "seal_lease E k l0 =
     (let l = l0\<lparr>authentication_algorithm := session_authentication_algorithm,
                 authority_key_id := session_key_id E k\<rparr> in
      and_then (lease_message_v3 E l) (\<lambda>message.
      Inr (l\<lparr>authentication_tag := session_authenticate E k lease_authentication_purpose_v3 message\<rparr>)))"

text \<open>The lifecycle part of \<open>validate_shape\<close>.\<close>

definition closed_admission_allowed :: "session_lease \<Rightarrow> bool" where
  "closed_admission_allowed l \<longleftrightarrow>
     (lease_workflow l \<noteq> None \<and> desired_exposure l \<noteq> observed_exposure l \<and>
        live_status l \<in> {Configured, NotificationSent, ReloadRequired}) \<or>
     (lease_workflow l \<noteq> None \<and> live_status l = StatusUnknown)"

definition validate_lifecycle :: "session_lease \<Rightarrow> lease_validation_error + unit" where
  "validate_lifecycle l =
     and_then (try_for_each (lease_digest ''in-flight call'') (in_flight_call_ids l)) (\<lambda>_.
     and_then (ensure (unat (in_flight_calls l) = length (in_flight_call_ids l)) InvalidLifecycle) (\<lambda>_.
     and_then (if contributes_active_intent (lease_lifecycle l)
        then validate_lifetime (heartbeat_at l) (lease_expires_at l) max_session_lifetime_seconds InvalidLeaseExpiry
        else Inr ()) (\<lambda>_.
     and_then (ensure (\<not> (lease_lifecycle l = LeaseActive \<and> \<not> admission_open l \<and>
          \<not> closed_admission_allowed l)) InvalidLifecycle) (\<lambda>_.
     ensure (\<not> (lease_lifecycle l \<in> {LeaseClosed, LeaseExpired} \<and>
          (admission_open l \<or> in_flight_calls l \<noteq> 0 \<or> in_flight_call_ids l \<noteq> []))) InvalidLifecycle))))"

definition validate_lease ::
  "('z) policy_env_scheme \<Rightarrow> session_lease \<Rightarrow> lease_validation_error + unit" where
  "validate_lease E l =
     and_then (lease_identifier ''session id'' (lease_session_id l)) (\<lambda>_.
     and_then (lease_identifier ''repository key'' (lease_repository_key l)) (\<lambda>_.
     and_then (lease_identifier ''workspace key'' (lease_workspace_key l)) (\<lambda>_.
     and_then (if_some (workspace_start_revision l) validate_workspace_revision) (\<lambda>_.
     and_then (if_some (last_workspace_revision l) validate_workspace_revision) (\<lambda>_.
     and_then (validate_exposure E (desired_exposure l)) (\<lambda>_.
     and_then (validate_exposure E (observed_exposure l)) (\<lambda>_.
     and_then (if_some (lease_workflow l) (\<lambda>w.
        and_then (validate_pinned_workflow w) (\<lambda>_.
        ensure (pw_active_effective_profile_digest w = exposure_revision (desired_exposure l))
          InvalidWorkflowEnvelope))) (\<lambda>_.
     and_then (validate_process (lease_process l)) (\<lambda>_.
     and_then (validate_coverage (coverage l)) (\<lambda>_.
     and_then (ensure (\<not> (isolation l = Strict \<and> \<not> supports_strict_isolation (coverage l)))
        LeaseStrictIsolationUnavailable) (\<lambda>_.
     and_then (try_for_each (lease_identifier ''protected resource'') (protected_resources l)) (\<lambda>_.
     and_then (lease_identifier ''connection owner'' (connection_owner_id l)) (\<lambda>_.
     and_then (if_some (closed_reason l) (lease_identifier ''closed reason'')) (\<lambda>_.
     and_then (lease_digest ''connection scope'' (connection_scope_digest l)) (\<lambda>_.
     and_then (lease_digest ''owner secret'' (owner_secret_digest l)) (\<lambda>_.
     and_then (validate_authentication_metadata (authentication_algorithm l) (authority_key_id l)
        (authentication_tag l)) (\<lambda>_.
     validate_lifecycle l)))))))))))))))))"

definition verify_lease ::
  "('z) lease_env_scheme \<Rightarrow> string \<Rightarrow> u32 \<Rightarrow> session_lease \<Rightarrow> lease_validation_error + unit" where
  "verify_lease E k schema l =
     and_then (validate_lease E l) (\<lambda>_.
     and_then (ensure (\<not> (authentication_algorithm l \<noteq> session_authentication_algorithm \<or>
          authority_key_id l \<noteq> session_key_id E k)) AuthenticationFailed) (\<lambda>_.
     if schema = session_lease_store_schema_v2
     then and_then (lease_message_v2 E l) (\<lambda>message.
            session_verify E k lease_authentication_purpose_v2 message (authentication_tag l))
     else if schema = session_lease_store_schema_v3
     then and_then (lease_message_v3 E l) (\<lambda>message.
            session_verify E k lease_authentication_purpose_v3 message (authentication_tag l))
     else Inl AuthenticationFailed))"

definition verify_handle ::
  "('z) hashing_scheme \<Rightarrow> session_lease \<Rightarrow> session_handle \<Rightarrow> lease_validation_error + unit" where
  "verify_handle H l h =
     ensure (lease_session_id l = handle_session_id h \<and> connection_owner_id l = handle_owner_id h \<and>
        constant_time_equal (owner_secret_digest l) (digest_bytes H (handle_secret h)))
       LeaseOwnerAuthenticationFailed"

section \<open>The bootstrap claim\<close>

definition bootstrap_message ::
  "('z) lease_env_scheme \<Rightarrow> pending_bootstrap \<Rightarrow> lease_validation_error + string" where
  "bootstrap_message E p =
     map_err LeaseSerialization (bootstrap_json E (p\<lparr>pend_authentication_tag := []\<rparr>))"

definition verify_pending ::
  "('z) lease_env_scheme \<Rightarrow> string \<Rightarrow> pending_bootstrap \<Rightarrow> lease_validation_error + unit" where
  "verify_pending E k p =
     and_then (lease_identifier ''session id'' (pend_session_id p)) (\<lambda>_.
     and_then (lease_identifier ''repository key'' (pend_repository_key p)) (\<lambda>_.
     and_then (lease_identifier ''workspace key'' (pend_workspace_key p)) (\<lambda>_.
     and_then (if_some (pend_workspace_revision p) validate_workspace_revision) (\<lambda>_.
     and_then (validate_exposure E (pend_exposure p)) (\<lambda>_.
     and_then (validate_process (pend_process p)) (\<lambda>_.
     and_then (validate_coverage (pend_coverage p)) (\<lambda>_.
     and_then (try_for_each (lease_identifier ''protected resource'') (pend_protected_resources p)) (\<lambda>_.
     and_then (lease_digest ''connection scope'' (pend_connection_scope_digest p)) (\<lambda>_.
     and_then (lease_digest ''bootstrap secret'' (pend_secret_digest p)) (\<lambda>_.
     and_then (validate_authentication_metadata (pend_authentication_algorithm p)
        (pend_authority_key_id p) (pend_authentication_tag p)) (\<lambda>_.
     and_then (validate_lifetime (pend_issued_at p) (pend_bootstrap_expires_at p)
        bootstrap_lifetime_seconds InvalidBootstrapExpiry) (\<lambda>_.
     and_then (validate_lifetime (pend_issued_at p) (pend_lease_expires_at p)
        max_session_lifetime_seconds InvalidLeaseExpiry) (\<lambda>_.
     and_then (ensure (\<not> (pend_authentication_algorithm p \<noteq> session_authentication_algorithm \<or>
          pend_authority_key_id p \<noteq> session_key_id E k)) AuthenticationFailed) (\<lambda>_.
     and_then (bootstrap_message E p) (\<lambda>message.
     session_verify E k bootstrap_authentication_purpose message (pend_authentication_tag p))))))))))))))))"

definition pending_from_request ::
  "('z) lease_env_scheme \<Rightarrow> string \<Rightarrow> string \<Rightarrow> bootstrap_request \<Rightarrow> string \<Rightarrow> int \<Rightarrow>
     lease_validation_error + pending_bootstrap" where
  "pending_from_request E k i r secret_digest now =
     and_then (validate_request E r now) (\<lambda>_.
     and_then (ok_or (checked_add now bootstrap_lifetime_seconds) InvalidBootstrapExpiry) (\<lambda>expires.
     (let p = \<lparr>pend_session_id = i, pend_provider = req_provider r,
         pend_repository_key = req_repository_key r, pend_workspace_key = req_workspace_key r,
         pend_workspace_revision = req_workspace_revision r, pend_exposure = req_exposure r,
         pend_process = req_process r,
         pend_connection_scope_digest = digest_bytes E (req_connection_scope_id r),
         pend_isolation = req_isolation r, pend_coverage = req_coverage r,
         pend_protected_resources = req_protected_resources r,
         pend_lease_expires_at = req_lease_expires_at r, pend_issued_at = now,
         pend_bootstrap_expires_at = expires, pend_secret_digest = secret_digest,
         pend_authentication_algorithm = session_authentication_algorithm,
         pend_authority_key_id = session_key_id E k, pend_authentication_tag = []\<rparr> in
      and_then (bootstrap_message E p) (\<lambda>message.
      (let q = p\<lparr>pend_authentication_tag :=
           session_authenticate E k bootstrap_authentication_purpose message\<rparr> in
       and_then (verify_pending E k q) (\<lambda>_. Inr q))))))"

definition matches_claim :: "('z) hashing_scheme \<Rightarrow> pending_bootstrap \<Rightarrow> connection_claim \<Rightarrow> bool" where
  "matches_claim H p c \<longleftrightarrow> pend_provider p = claim_provider c \<and>
     pend_repository_key p = claim_binding_repository_key c \<and>
     pend_workspace_key p = claim_binding_workspace_key c \<and> pend_process p = claim_process c \<and>
     pend_connection_scope_digest p = digest_bytes H (claim_connection_scope_id c)"

definition into_lease ::
  "('z) lease_env_scheme \<Rightarrow> string \<Rightarrow> pending_bootstrap \<Rightarrow> connection_claim \<Rightarrow> string \<Rightarrow> int \<Rightarrow>
     lease_validation_error + session_lease" where
  "into_lease E k p c owner_digest now =
     and_then (seal_lease E k
       \<lparr>lease_session_id = pend_session_id p, lease_provider = pend_provider p,
        lease_repository_key = pend_repository_key p, lease_workspace_key = pend_workspace_key p,
        workspace_start_revision = pend_workspace_revision p,
        last_workspace_revision = pend_workspace_revision p, workspace_drifted = False,
        lease_workflow = None, desired_exposure = pend_exposure p, observed_exposure = pend_exposure p,
        live_status = ObservedRefresh, lease_process = pend_process p, isolation = pend_isolation p,
        coverage = pend_coverage p, protected_resources = pend_protected_resources p,
        lease_lifecycle = LeaseActive, admission_open = True, in_flight_calls = 0,
        in_flight_call_ids = [], heartbeat_at = now, lease_expires_at = pend_lease_expires_at p,
        connection_owner_id = claim_connection_owner_id c, closed_reason = None,
        connection_scope_digest = pend_connection_scope_digest p, owner_secret_digest = owner_digest,
        authentication_algorithm = session_authentication_algorithm,
        authority_key_id = session_key_id E k, authentication_tag = []\<rparr>) (\<lambda>l.
     and_then (verify_lease E k session_lease_store_schema_v3 l) (\<lambda>_. Inr l))"

datatype session_record = SessionPending pending_bootstrap | Established session_lease

fun record_session_id :: "session_record \<Rightarrow> string" where
  "record_session_id (SessionPending p) = pend_session_id p"
| "record_session_id (Established l) = lease_session_id l"

fun workflow_counters :: "session_record \<Rightarrow> (u64 \<times> u64) option" where
  "workflow_counters (Established l) =
     map_option (\<lambda>w. (pw_state_sequence w, pw_sealed_generation w)) (lease_workflow l)"
| "workflow_counters (SessionPending _) = None"

fun lease_authentication_tag :: "session_record \<Rightarrow> lease_validation_error + string" where
  "lease_authentication_tag (Established l) = Inr (authentication_tag l)"
| "lease_authentication_tag (SessionPending _) = Inl InvalidLifecycle"

fun verify_record ::
  "('z) lease_env_scheme \<Rightarrow> string \<Rightarrow> u32 \<Rightarrow> session_record \<Rightarrow> lease_validation_error + unit" where
  "verify_record E k schema (SessionPending p) = verify_pending E k p"
| "verify_record E k schema (Established l) = verify_lease E k schema l"

section \<open>Comparing and decoding secrets\<close>

lemma xor_byte_zero [simp]: "xor_byte a b = 0 \<longleftrightarrow> a = b"
proof -
  have "word_of_nat (code a) = (word_of_nat (code b) :: 8 word) \<longleftrightarrow> code a = code b"
    by (simp add: word_of_nat_eq_iff take_bit_nat_eq_self)
  moreover have "xor x y = 0 \<longleftrightarrow> x = y" for x y :: "8 word"
    by (metis xor.assoc xor_self_eq xor.right_neutral xor.left_neutral)
  ultimately show ?thesis by (simp add: xor_byte_def)
qed

lemma constant_time_fold:
  "foldl (\<lambda>difference (a, b). or difference (xor_byte a b)) d zs = 0 \<longleftrightarrow>
     d = 0 \<and> (\<forall>(a, b)\<in>set zs. a = b)"
  by (induction zs arbitrary: d) (auto simp: or_eq_0_iff split: prod.splits)

lemma constant_time_equal_iff [simp]: "constant_time_equal l r \<longleftrightarrow> l = r"
proof -
  have "(\<forall>(a, b)\<in>set (zip l r). a = b) \<longleftrightarrow> l = r" if "length l = length r"
    using that by (induction l r rule: list_induct2) auto
  then show ?thesis by (auto simp: constant_time_equal_def constant_time_fold)
qed

lemma decode_pairs_encode: "decode_pairs (encode_lower_hex bs) = bs"
proof (induction bs)
  case (Cons b bs)
  have digit: "n < 16 \<Longrightarrow> radix_16 (hex_digit n) = n" for n
    by (drule less_16_cases) (auto simp: hex_digit_def radix_16_def is_digit_def)
  have "code b < 256" by simp
  then have "code b div 16 < 16" by (simp add: less_mult_imp_div_less)
  with digit [of "code b div 16"] digit [of "code b mod 16"] Cons show ?case by simp
qed simp

lemma lower_hex_is_hexdigit: "is_lower_hex c \<Longrightarrow> is_ascii_hexdigit c"
  by (auto simp: is_lower_hex_def is_ascii_hexdigit_def)

lemma decode_secret_encode: "length bs = 32 \<Longrightarrow> decode_secret (encode_lower_hex bs) = Some bs"
  using encode_lower_hex_is_hex [of bs]
  by (auto simp: decode_secret_def decode_pairs_encode list_all_iff lower_hex_is_hexdigit)

section \<open>Sealing and verifying\<close>

text \<open>HMAC-SHA-256 has 32 bytes.\<close>

definition hmac_length :: "('z) lease_env_scheme \<Rightarrow> bool" where
  "hmac_length E \<longleftrightarrow> (\<forall>k m. length (session_hmac E k m) = 32)"

lemma authenticated_verifies:
  "hmac_length E \<Longrightarrow> session_verify E k purpose m (session_authenticate E k purpose m) = Inr ()"
  by (simp add: session_verify_def session_authenticate_def decode_authentication_tag_def hmac_length_def
      decode_secret_encode)

lemma authenticate_is_digest:
  "hmac_length E \<Longrightarrow> lease_digest label (session_authenticate E k purpose m) = Inr ()"
  by (simp add: lease_digest_def session_authenticate_def hmac_length_def encode_lower_hex_is_hex)

end
