(* ===== verification/High_Water.thy ===== *)
theory High_Water
  imports Session_Lease
begin

text \<open>
  The high-water record of \<open>sessions/workflow_router.rs\<close>: for a session that pins a workflow, the
  counters and the tag of the newest lease, kept in a store of its own so that an older lease file
  put back in place is noticed. A change of the lease is announced as pending and finalized after.
\<close>

section \<open>Records\<close>

record pending_high_water =
  source_lease_revision :: state_revision
  source_lease_tag :: string
  target_lease_schema_version :: u32
  target_state_sequence :: u64
  target_sealed_generation :: u64
  target_lease_tag :: string

record workflow_high_water =
  water_session_id :: string
  water_lease_schema_version :: u32
  water_state_sequence :: u64
  water_sealed_generation :: u64
  water_lease_tag :: string
  water_pending :: "pending_high_water option"
  water_authentication_algorithm :: string
  water_authority_key_id :: string
  water_authentication_tag :: string

datatype workflow_router_error =
    InvalidProposal
  | InvalidHighWater
  | StaleOperation
  | RouterWorkflowNotPinned
  | TransitionInProgress
  | ExpansionRequiresOperatorReview
  | OperationNotFound
  | OperationNotCancellable
  | OperationBindingMismatch
  | RecoveryRequired string
  | RouterSession string
  | RouterJournal string
  | RouterState state_error
  | RouterLease lease_validation_error
  | RouterSerialization string

datatype high_water_error =
    WaterState state_error
  | WaterRouter workflow_router_error
  | WaterAuthenticationFailed
  | WaterSessionMismatch
  | WaterReplay

record session_env = lease_env +
  water_json :: "workflow_high_water \<Rightarrow> string + string"
  record_render :: "session_record stored_document \<Rightarrow> string + string"
  water_render :: "workflow_high_water stored_document \<Rightarrow> string + string"

definition validate_high_water :: "workflow_high_water \<Rightarrow> workflow_router_error + unit" where
  "validate_high_water v =
     and_then (map_err RouterLease (lease_identifier ''session id'' (water_session_id v))) (\<lambda>_.
     and_then (ensure (\<not> (water_lease_schema_version v = 0 \<or> water_state_sequence v = 0 \<or>
          water_sealed_generation v = 0)) InvalidHighWater) (\<lambda>_.
     and_then (map_err RouterLease (lease_digest ''workflow high-water lease authentication tag''
          (water_lease_tag v))) (\<lambda>_.
     if_some (water_pending v) (\<lambda>p.
       and_then (ok_or (strip_prefix ''sha256:'' (fingerprint (source_lease_revision p))) InvalidHighWater)
         (\<lambda>d.
       and_then (map_err RouterLease (lease_digest ''source lease revision fingerprint'' d)) (\<lambda>_.
       and_then (map_err RouterLease (lease_digest ''source lease authentication tag''
           (source_lease_tag p))) (\<lambda>_.
       and_then (map_err RouterLease (lease_digest ''target lease authentication tag''
           (target_lease_tag p))) (\<lambda>_.
       ensure (\<not> (sequence (source_lease_revision p) = 0 \<or> target_lease_schema_version p = 0 \<or>
            target_state_sequence p < water_state_sequence v \<or>
            target_sealed_generation p < water_sealed_generation v)) InvalidHighWater))))))))"

definition new_high_water ::
  "string \<Rightarrow> u32 \<Rightarrow> u64 \<Rightarrow> u64 \<Rightarrow> string \<Rightarrow> workflow_router_error + workflow_high_water" where
  "new_high_water i schema seq gen t =
     (let v = \<lparr>water_session_id = i, water_lease_schema_version = schema, water_state_sequence = seq,
         water_sealed_generation = gen, water_lease_tag = t, water_pending = None,
         water_authentication_algorithm = [], water_authority_key_id = [],
         water_authentication_tag = []\<rparr> in
      and_then (validate_high_water v) (\<lambda>_. Inr v))"

definition prepare_transition ::
  "workflow_high_water \<Rightarrow> pending_high_water \<Rightarrow> workflow_router_error + workflow_high_water" where
  "prepare_transition v p =
     (let v' = v\<lparr>water_pending := Some p\<rparr> in and_then (validate_high_water v') (\<lambda>_. Inr v'))"

definition finalized_target :: "workflow_high_water \<Rightarrow> workflow_router_error + workflow_high_water" where
  "finalized_target v =
     and_then (ok_or (water_pending v) InvalidHighWater) (\<lambda>p.
     new_high_water (water_session_id v) (target_lease_schema_version p) (target_state_sequence p)
       (target_sealed_generation p) (target_lease_tag p))"

definition workflow_high_water_purpose :: string where
  "workflow_high_water_purpose = ''unpin-session-workflow-high-water-v1'' @ [CHR 0x00]"

definition water_message ::
  "('z) session_env_scheme \<Rightarrow> workflow_high_water \<Rightarrow> workflow_router_error + string" where
  "water_message E v = map_err RouterSerialization (water_json E (v\<lparr>water_authentication_tag := []\<rparr>))"

definition seal_high_water ::
  "('z) session_env_scheme \<Rightarrow> string \<Rightarrow> workflow_high_water \<Rightarrow> high_water_error + workflow_high_water" where
  "seal_high_water E k v0 =
     (let v = v0\<lparr>water_authentication_algorithm := session_authentication_algorithm,
                 water_authority_key_id := session_key_id E k\<rparr> in
      and_then (map_err WaterRouter (water_message E v)) (\<lambda>message.
      Inr (v\<lparr>water_authentication_tag := session_authenticate E k workflow_high_water_purpose message\<rparr>)))"

definition verify_high_water ::
  "('z) session_env_scheme \<Rightarrow> string \<Rightarrow> workflow_high_water \<Rightarrow> high_water_error + unit" where
  "verify_high_water E k v =
     and_then (map_err WaterRouter (validate_high_water v)) (\<lambda>_.
     and_then (ensure (\<not> (water_authentication_algorithm v \<noteq> session_authentication_algorithm \<or>
          water_authority_key_id v \<noteq> session_key_id E k)) WaterAuthenticationFailed) (\<lambda>_.
     and_then (map_err WaterRouter (water_message E v)) (\<lambda>message.
     ensure (constant_time_equal (session_authenticate E k workflow_high_water_purpose message)
         (water_authentication_tag v)) WaterAuthenticationFailed)))"

section \<open>The store\<close>

definition water_env :: "('z) session_env_scheme \<Rightarrow> workflow_high_water json_env" where
  "water_env E = \<lparr>sha256 = sha256 E, render = water_render E\<rparr>"

definition high_water_path :: "path \<Rightarrow> string \<Rightarrow> path" where
  "high_water_path root i = root @ [''sessions'', ''workflow-high-water'', json_file i]"

definition water_state ::
  "(workflow_high_water disk, state_error, 'a) exec \<Rightarrow> (workflow_high_water disk, high_water_error, 'a) exec" where
  "water_state m d = (case m d of (r, t) \<Rightarrow> (map_err WaterState r, t))"

definition load_high_water ::
  "('z) session_env_scheme \<Rightarrow> string \<Rightarrow> path \<Rightarrow> string \<Rightarrow>
     (workflow_high_water disk, high_water_error, workflow_high_water state_snapshot option) exec" where
  "load_high_water E k root i =
     bind_exec (pure_exec (map_err (WaterRouter \<circ> RouterLease) (lease_identifier ''session id'' i))) (\<lambda>_.
     bind_exec (water_state (load (water_env E) 1 (high_water_path root i))) (\<lambda>snapshot.
     bind_exec (pure_exec (if_some snapshot (\<lambda>s.
        and_then (ensure (water_session_id (snapshot_value s) = i) WaterSessionMismatch) (\<lambda>_.
        verify_high_water E k (snapshot_value s))))) (\<lambda>_.
     pure_exec (Inr snapshot))))"

text \<open>What may replace the current record: nothing older, and while a change is pending only its end.\<close>

definition moving_forward :: "workflow_high_water \<Rightarrow> workflow_high_water \<Rightarrow> bool" where
  "moving_forward current v \<longleftrightarrow> water_lease_schema_version v \<ge> water_lease_schema_version current \<and>
     water_state_sequence v \<ge> water_state_sequence current \<and>
     water_sealed_generation v \<ge> water_sealed_generation current"

definition clearing_pending :: "workflow_high_water \<Rightarrow> workflow_high_water \<Rightarrow> bool" where
  "clearing_pending current v \<longleftrightarrow> water_pending current \<noteq> None \<and> water_pending v = None \<and>
     water_lease_schema_version v = water_lease_schema_version current \<and>
     water_state_sequence v = water_state_sequence current \<and>
     water_sealed_generation v = water_sealed_generation current \<and>
     water_lease_tag v = water_lease_tag current"

definition finalizing_pending :: "workflow_high_water \<Rightarrow> workflow_high_water \<Rightarrow> bool" where
  "finalizing_pending current v \<longleftrightarrow> (case water_pending current of None \<Rightarrow> False
     | Some p \<Rightarrow> water_pending v = None \<and>
         water_lease_schema_version v = target_lease_schema_version p \<and>
         water_state_sequence v = target_state_sequence p \<and>
         water_sealed_generation v = target_sealed_generation p \<and>
         water_lease_tag v = target_lease_tag p)"

definition water_may_follow :: "workflow_high_water \<Rightarrow> workflow_high_water \<Rightarrow> bool" where
  "water_may_follow current v \<longleftrightarrow> \<not> (\<not> moving_forward current v \<or>
     (water_pending current \<noteq> None \<and> \<not> clearing_pending current v \<and> \<not> finalizing_pending current v))"

definition publish_high_water ::
  "('z) session_env_scheme \<Rightarrow> string \<Rightarrow> path \<Rightarrow> string \<Rightarrow> state_revision option \<Rightarrow> owner_generation \<Rightarrow>
     workflow_high_water \<Rightarrow> (workflow_high_water disk, high_water_error, state_revision) exec" where
  "publish_high_water E k root i expected owner v =
     bind_exec (pure_exec (ensure (water_session_id v = i) WaterSessionMismatch)) (\<lambda>_.
     bind_exec (pure_exec (map_err WaterRouter (validate_high_water v))) (\<lambda>_.
     bind_exec (load_high_water E k root i) (\<lambda>current.
     bind_exec (pure_exec (ensure (map_option snapshot_revision current = expected)
        (WaterState (StaleRevision expected (map_option snapshot_revision current))))) (\<lambda>_.
     bind_exec (pure_exec (ensure (case current of None \<Rightarrow> True
        | Some s \<Rightarrow> water_may_follow (snapshot_value s) v) WaterReplay)) (\<lambda>_.
     bind_exec (pure_exec (seal_high_water E k v)) (\<lambda>sealed.
     water_state (compare_and_swap (water_env E) 1 (high_water_path root i) expected owner sealed)))))))"

definition remove_high_water ::
  "('z) session_env_scheme \<Rightarrow> path \<Rightarrow> string \<Rightarrow> state_revision \<Rightarrow>
     (workflow_high_water disk, high_water_error, unit) exec" where
  "remove_high_water E root i expected =
     bind_exec (pure_exec (map_err (WaterRouter \<circ> RouterLease) (lease_identifier ''session id'' i))) (\<lambda>_.
     water_state (remove_if_revision (water_env E) 1 (high_water_path root i) expected))"

end
