(* ===== verification/Session_State.thy ===== *)
theory Session_State
  imports High_Water
begin

text \<open>
  What \<open>sessions/manager.rs\<close> and \<open>sessions/mode.rs\<close> work on: the records of gateway modes, the errors,
  and the state of the machine. The state holds the three stores, the overlays on disk, the processes
  alive, the random secrets still to come and the outcome of each lock acquisition (a blocking lock,
  so an operation is one step). Where the code keeps the printed text of another error the model
  keeps the error.
\<close>

section \<open>Gateway modes\<close>

record gateway_mode_target =
  target_repository_key :: "string option"
  target_workspace_key :: "string option"
  target_provider :: "provider_id option"

datatype gateway_install_state = Detached | Installed

datatype gateway_routing_state = RoutingOff | RoutingActive

record gateway_mode_state =
  mode_target :: gateway_mode_target
  mode_installation :: gateway_install_state
  mode_routing :: gateway_routing_state
  mode_admission_open :: bool
  mode_changed_at :: int
  mode_changed_by :: string
  mode_integrity_digest :: string

datatype invalid_state =
    InvalidLease lease_validation_error
  | InvalidWater high_water_error
  | InvalidRouter workflow_router_error
  | InvalidText string

datatype lease_error =
    LeaseState state_error
  | SessionAuthorityUnavailable
  | SessionNotFound
  | SessionPathMismatch
  | UnexpectedSessionEntry path
  | UnexpectedModeEntry path
  | UnsafeOverlay path
  | BootstrapNotConsumed
  | BootstrapAlreadyConsumed
  | BootstrapExpired
  | BootstrapAuthenticationFailed
  | SessionBindingMismatch
  | MultiplexedConnection
  | GatewayAdmissionClosed
  | StrictIsolationUnavailable
  | ContextMismatch
  | OwnerAuthenticationFailed
  | IntegrityMismatch
  | InvalidProcessEvidence
  | InvalidState invalid_state
  | InvalidExposureStatus
  | InvalidCallAdmission
  | InvalidStaleWindow
  | SessionLeaseExpired
  | LeaseNotActive
  | AdmissionClosed
  | InFlightOverflow
  | SessionDraining
  | OwnerGenerationOverflow
  | WorkflowAlreadyPinned
  | WorkflowNotPinned
  | WorkflowExpansionRequiresReview
  | WorkflowHighWaterMissing
  | WorkflowRecoveryRequired
  | WorkflowReplay
  | SecureRandomUnavailable
  | ProcessInspection string
  | ProcessNotRunning u32
  | ActiveLeases "string list"
  | GatewayNotInstalled
  | GatewayMustBeOff

text \<open>\<open>From<LeaseValidationError>\<close>.\<close>

fun lease_error_of :: "lease_validation_error \<Rightarrow> lease_error" where
  "lease_error_of LeaseStrictIsolationUnavailable = StrictIsolationUnavailable"
| "lease_error_of LeaseOwnerAuthenticationFailed = OwnerAuthenticationFailed"
| "lease_error_of AuthenticationFailed = IntegrityMismatch"
| "lease_error_of LeaseInvalidProcessEvidence = InvalidProcessEvidence"
| "lease_error_of other = InvalidState (InvalidLease other)"

record manager_env = session_env +
  mode_target_json :: "gateway_mode_target \<Rightarrow> string + string"
  mode_body_json :: "gateway_mode_state \<Rightarrow> string + string"
  mode_render :: "gateway_mode_state stored_document \<Rightarrow> string + string"

definition validate_mode_target :: "gateway_mode_target \<Rightarrow> lease_error + unit" where
  "validate_mode_target t =
     and_then (if_some (target_repository_key t)
        (\<lambda>v. map_err lease_error_of (lease_identifier ''gateway repository key'' v))) (\<lambda>_.
     if_some (target_workspace_key t) (\<lambda>v.
       and_then (map_err lease_error_of (lease_identifier ''gateway workspace key'' v)) (\<lambda>_.
       ensure (target_repository_key t \<noteq> None)
         (InvalidState (InvalidText ''workspace gateway target requires repository key'')))))"

definition matches_binding :: "gateway_mode_target \<Rightarrow> provider_id \<Rightarrow> string \<Rightarrow> string \<Rightarrow> bool" where
  "matches_binding t p repository workspace \<longleftrightarrow>
     (case target_repository_key t of None \<Rightarrow> True | Some v \<Rightarrow> v = repository) \<and>
     (case target_workspace_key t of None \<Rightarrow> True | Some v \<Rightarrow> v = workspace) \<and>
     (case target_provider t of None \<Rightarrow> True | Some v \<Rightarrow> v = p)"

definition target_matches :: "gateway_mode_target \<Rightarrow> session_lease \<Rightarrow> bool" where
  "target_matches t l = matches_binding t (lease_provider l) (lease_repository_key l) (lease_workspace_key l)"

definition specificity :: "gateway_mode_target \<Rightarrow> nat" where
  "specificity t = of_bool (target_repository_key t \<noteq> None) * 2 + of_bool (target_workspace_key t \<noteq> None) * 4 +
     of_bool (target_provider t \<noteq> None)"

definition target_key :: "('z) manager_env_scheme \<Rightarrow> gateway_mode_target \<Rightarrow> lease_error + string" where
  "target_key E t =
     and_then (validate_mode_target t) (\<lambda>_.
     and_then (map_err (InvalidState \<circ> InvalidText) (mode_target_json E t)) (\<lambda>bytes.
     Inr (digest_bytes E bytes)))"

definition validate_mode_shape :: "gateway_mode_state \<Rightarrow> lease_error + unit" where
  "validate_mode_shape m =
     and_then (validate_mode_target (mode_target m)) (\<lambda>_.
     and_then (map_err lease_error_of (lease_identifier ''gateway mode actor'' (mode_changed_by m))) (\<lambda>_.
     and_then (ensure (\<not> (mode_installation m = Detached \<and> mode_routing m \<noteq> RoutingOff))
        (InvalidState (InvalidText ''detached gateway cannot route sessions''))) (\<lambda>_.
     and_then (ensure (\<not> (mode_routing m = RoutingOff \<and> mode_admission_open m))
        (InvalidState (InvalidText ''gateway admission cannot stay open while routing is off''))) (\<lambda>_.
     ensure (\<not> (mode_installation m = Detached \<and> mode_admission_open m))
        (InvalidState (InvalidText ''detached gateway cannot admit sessions''))))))"

definition calculate_integrity :: "('z) manager_env_scheme \<Rightarrow> gateway_mode_state \<Rightarrow> lease_error + string" where
  "calculate_integrity E m =
     and_then (map_err (InvalidState \<circ> InvalidText) (mode_body_json E (m\<lparr>mode_integrity_digest := []\<rparr>)))
       (\<lambda>bytes. Inr (digest_bytes E bytes))"

definition seal_mode :: "('z) manager_env_scheme \<Rightarrow> gateway_mode_state \<Rightarrow> lease_error + gateway_mode_state" where
  "seal_mode E m =
     and_then (validate_mode_shape m) (\<lambda>_.
     and_then (calculate_integrity E m) (\<lambda>d. Inr (m\<lparr>mode_integrity_digest := d\<rparr>)))"

definition verify_mode_state :: "('z) manager_env_scheme \<Rightarrow> gateway_mode_state \<Rightarrow> lease_error + unit" where
  "verify_mode_state E m =
     and_then (validate_mode_shape m) (\<lambda>_.
     and_then (calculate_integrity E m) (\<lambda>actual.
     ensure (actual = mode_integrity_digest m) IntegrityMismatch))"

section \<open>The state of the machine\<close>

text \<open>
  An overlay directory: private and owned, with its marker's version and session and the outcome
  of the directory sync after its removal; or unsafe; or one the system cannot read or remove.
\<close>

datatype overlay = OwnedOverlay u32 string "state_error option" | ContestedOverlay | UnreadableOverlay state_error

record session_state =
  session_files :: "session_record disk"
  water_files :: "workflow_high_water disk"
  mode_files :: "gateway_mode_state disk"
  overlays :: "(string \<times> overlay) list"
  processes :: "process_evidence \<Rightarrow> bool"
  fresh_secrets :: "string list"
  lock_script :: "state_error option list"

type_synonym 'a session_exec = "(session_state, lease_error, 'a) exec"

record session_manager =
  manager_root :: path
  manager_key :: "string option"
  manager_pid :: u32

definition on_sessions :: "(session_record disk, state_error, 'a) exec \<Rightarrow> 'a session_exec" where
  "on_sessions m s = (case m (session_files s) of (r, d) \<Rightarrow> (map_err LeaseState r, s\<lparr>session_files := d\<rparr>))"

definition on_waters :: "(workflow_high_water disk, high_water_error, 'a) exec \<Rightarrow> (session_state, high_water_error, 'a) exec" where
  "on_waters m s = (case m (water_files s) of (r, d) \<Rightarrow> (r, s\<lparr>water_files := d\<rparr>))"

definition water_result :: "(session_state, high_water_error, 'a) exec \<Rightarrow> 'a session_exec" where
  "water_result m s = (case m s of (r, t) \<Rightarrow> (map_err (InvalidState \<circ> InvalidWater) r, t))"

definition on_modes :: "(gateway_mode_state disk, state_error, 'a) exec \<Rightarrow> 'a session_exec" where
  "on_modes m s = (case m (mode_files s) of (r, d) \<Rightarrow> (map_err LeaseState r, s\<lparr>mode_files := d\<rparr>))"

definition checked :: "lease_validation_error + 'a \<Rightarrow> 'a session_exec" where
  "checked r = pure_exec (map_err lease_error_of r)"

text \<open>\<open>match\<close> on the result of a call.\<close>

definition match_exec :: "('s, 'e, 'a) exec \<Rightarrow> ('e + 'a \<Rightarrow> ('s, 'f, 'b) exec) \<Rightarrow> ('s, 'f, 'b) exec" where
  "match_exec m f s = (case m s of (r, t) \<Rightarrow> f r t)"

text \<open>The registry lock and the admission locks: both block, and the system may refuse them.\<close>

definition acquire_lock :: "unit session_exec" where
  "acquire_lock s =
     (case lock_script s of
        [] \<Rightarrow> (Inr (), s)
      | None # rest \<Rightarrow> (Inr (), s\<lparr>lock_script := rest\<rparr>)
      | Some e # rest \<Rightarrow> (Inl (LeaseState e), s\<lparr>lock_script := rest\<rparr>))"

fun acquire_each_admission :: "string list \<Rightarrow> unit session_exec" where
  "acquire_each_admission [] s = (Inr (), s)"
| "acquire_each_admission (res # rest) s =
     bind_exec (checked (lease_identifier ''protected resource'' res)) (\<lambda>_.
     bind_exec acquire_lock (\<lambda>_. acquire_each_admission rest)) s"

definition acquire_transition_admission :: "string list \<Rightarrow> unit session_exec" where
  "acquire_transition_admission resources = acquire_each_admission (sort (remdups resources))"

definition secure_random_secret :: "string session_exec" where
  "secure_random_secret s =
     (case fresh_secrets s of
        [] \<Rightarrow> (Inl SecureRandomUnavailable, s)
      | v # rest \<Rightarrow> (Inr v, s\<lparr>fresh_secrets := rest\<rparr>))"

definition authority_key :: "session_manager \<Rightarrow> lease_error + string" where
  "authority_key M = ok_or (manager_key M) SessionAuthorityUnavailable"

definition get_session_leases_dir :: "path \<Rightarrow> path" where
  "get_session_leases_dir root = root @ [''runtime'', ''sessions'']"

definition get_session_lease_path :: "path \<Rightarrow> string \<Rightarrow> path" where
  "get_session_lease_path root i = get_session_leases_dir root @ [json_file i]"

definition get_gateway_modes_dir :: "path \<Rightarrow> path" where
  "get_gateway_modes_dir root = root @ [''runtime'', ''modes'']"

definition get_gateway_mode_path :: "path \<Rightarrow> string \<Rightarrow> path" where
  "get_gateway_mode_path root key = get_gateway_modes_dir root @ [json_file key]"

definition get_session_overlay_root :: "path \<Rightarrow> string \<Rightarrow> path" where
  "get_session_overlay_root root i = root @ [''runtime'', ''overlays'', encode_path_segment i]"

definition record_env :: "('z) manager_env_scheme \<Rightarrow> session_record json_env" where
  "record_env E = \<lparr>sha256 = sha256 E, render = record_render E\<rparr>"

definition mode_env :: "('z) manager_env_scheme \<Rightarrow> gateway_mode_state json_env" where
  "mode_env E = \<lparr>sha256 = sha256 E, render = mode_render E\<rparr>"

end
