(* ===== verification/Session_Manager.thy ===== *)
theory Session_Manager
  imports Session_State
begin

text \<open>
  \<open>sessions/manager.rs\<close>: bootstraps become leases, their owner changes them by compare-and-swap under
  the registry lock, the high-water record of a workflow is kept in step, stale leases are reaped, and
  plans that touch a protected resource conflict with active leases. Reading \<open>/proc\<close> is not modelled.
\<close>

section \<open>Reading a record\<close>

record lease_snapshot =
  lease_revision :: state_revision
  snapshot_lease :: session_lease

definition checked_succ :: "u64 \<Rightarrow> u64 option" where
  "checked_succ w = (if w = - 1 then None else Some (w + 1))"

definition load_record ::
  "('z) manager_env_scheme \<Rightarrow> session_manager \<Rightarrow> path \<Rightarrow> session_record state_snapshot session_exec" where
  "load_record E M p =
     bind_exec (on_sessions (load_compatible (record_env E) session_lease_store_schema_v3
        [session_lease_store_schema_v2] p)) (\<lambda>found.
     pure_exec (ok_or found SessionNotFound))"

definition load_verified ::
  "('z) manager_env_scheme \<Rightarrow> session_manager \<Rightarrow> string \<Rightarrow> path \<Rightarrow> session_record state_snapshot session_exec" where
  "load_verified E M k p =
     bind_exec (load_record E M p) (\<lambda>snapshot.
     bind_exec (checked (verify_record E k (snapshot_schema_version snapshot) (snapshot_value snapshot))) (\<lambda>_.
     pure_exec (Inr snapshot)))"

section \<open>The lease and its high-water record\<close>

text \<open>\<open>load\<close> and \<open>publish\<close> of the high-water store of this machine.\<close>

abbreviation waters_load where
  "waters_load E M k i \<equiv> on_waters (load_high_water E k (manager_root M) i)"

abbreviation waters_publish where
  "waters_publish E M k i expected owner v \<equiv> on_waters (publish_high_water E k (manager_root M) i expected owner v)"

definition pending_source_matches :: "pending_high_water \<Rightarrow> session_lease \<Rightarrow> state_revision \<Rightarrow> bool" where
  "pending_source_matches p l revision \<longleftrightarrow> source_lease_revision p = revision \<and>
     constant_time_equal (source_lease_tag p) (authentication_tag l)"

definition pending_target_matches :: "pending_high_water \<Rightarrow> u32 \<Rightarrow> pinned_workflow \<Rightarrow> session_lease \<Rightarrow> bool" where
  "pending_target_matches p schema w l \<longleftrightarrow> target_lease_schema_version p = schema \<and>
     target_state_sequence p = pw_state_sequence w \<and> target_sealed_generation p = pw_sealed_generation w \<and>
     constant_time_equal (target_lease_tag p) (authentication_tag l)"

definition water_matches :: "workflow_high_water \<Rightarrow> u32 \<Rightarrow> pinned_workflow \<Rightarrow> session_lease \<Rightarrow> bool" where
  "water_matches v schema w l \<longleftrightarrow> water_lease_schema_version v = schema \<and>
     water_state_sequence v = pw_state_sequence w \<and> water_sealed_generation v = pw_sealed_generation w \<and>
     constant_time_equal (water_lease_tag v) (authentication_tag l)"

lemma access_faults: "access d = (r, t) \<Longrightarrow> faults t = tl (faults d)"
  by (auto simp: access_def split: list.splits fault.splits)

text \<open>
  The two loops of \<open>reconcile_lease_high_water\<close>. They read again after a stale revision; between the
  reading and the change only the environment can interfere, so each further round takes a fault.
\<close>

lemma load_high_water_faults:
  assumes "waters_load E M k i s = (Inr (Some c), t)"
  shows "faults (water_files t) = tl (faults (water_files s))" "files (water_files t) = files (water_files s)"
    "stored (water_env E) 1 (water_files s) (high_water_path (manager_root M) i) = Inr (Some c)"
proof -
  from assms obtain d where d: "load (water_env E) 1 (high_water_path (manager_root M) i) (water_files s) = (Inr (Some c), d)"
    "t = s\<lparr>water_files := d\<rparr>"
    by (auto simp: on_waters_def load_high_water_def bind_exec_ok water_state_def split: prod.splits)
  then show "files (water_files t) = files (water_files s)"
    "stored (water_env E) 1 (water_files s) (high_water_path (manager_root M) i) = Inr (Some c)"
    using load_ok by fastforce+
  from d show "faults (water_files t) = tl (faults (water_files s))"
    by (auto simp: load_def bind_exec_ok dest: access_faults)
qed

text \<open>A call takes entries from the script of faults and adds none.\<close>

definition spends :: "('v disk, 'e, 'a) exec \<Rightarrow> bool" where
  "spends m \<longleftrightarrow> (\<forall>d r t. m d = (r, t) \<longrightarrow> length (faults t) \<le> length (faults d))"

lemma spends_bind: "spends m \<Longrightarrow> (\<And>x. spends (k x)) \<Longrightarrow> spends (bind_exec m k)"
  unfolding spends_def bind_exec_result by (meson le_trans)

lemma spends_pure [simp]: "spends (pure_exec r)"
  by (simp add: spends_def)

lemma spends_access [simp]: "spends access"
  by (auto simp: spends_def dest!: access_faults)

lemma spends_local: "(\<And>d. spends (k d)) \<Longrightarrow> spends (\<lambda>d. k d d)"
  by (simp add: spends_def)

lemma spends_write [simp]: "spends (write_document E p schema seq owner v f)"
  unfolding write_document_def Let_def
  by (intro spends_bind spends_pure)
    (auto simp: spends_def write_atomically_def Let_def split: fault.splits)

lemma spends_remove [simp]: "spends (remove_file p f)"
  by (auto simp: spends_def remove_file_def Let_def split: fault.splits)

lemma spends_load [simp]: "spends (load E schema p)"
  unfolding load_def by (intro spends_bind spends_pure spends_access) (simp add: spends_def)

lemma spends_swap [simp]: "spends (compare_and_swap E schema p expected owner v)"
  unfolding compare_and_swap_def Let_def
  by (intro spends_bind spends_pure spends_access, rule spends_local, intro spends_bind spends_pure spends_write)

lemma spends_remove_if_revision [simp]: "spends (remove_if_revision E schema p expected)"
  unfolding remove_if_revision_def Let_def
  by (intro spends_bind spends_pure spends_access, rule spends_local, intro spends_bind spends_pure spends_remove)

lemma spends_water [simp]: "spends m \<Longrightarrow> spends (water_state m)"
  by (force simp: spends_def water_state_def split: prod.splits)

lemma spends_high_water [simp]:
  "spends (load_high_water E k root i)" "spends (publish_high_water E k root i expected owner v)"
  "spends (remove_high_water E root i revision)"
proof -
  show load: "spends (load_high_water E k root i)"
    unfolding load_high_water_def by (intro spends_bind spends_pure spends_water spends_load)
  show "spends (publish_high_water E k root i expected owner v)"
    unfolding publish_high_water_def by (intro spends_bind spends_pure spends_water spends_swap load)
  show "spends (remove_high_water E root i revision)"
    unfolding remove_high_water_def by (intro spends_bind spends_pure spends_water spends_remove_if_revision)
qed

text \<open>Without a fault a change whose revision was just read is not stale.\<close>

lemma calm_load:
  "faults d = [] \<Longrightarrow> load E 1 p d = (stored E 1 d p, d)"
  by (simp add: load_no_fault)

lemma calm_swap:
  assumes "faults d = []" "stored E 1 d p = Inr (Some c)"
  shows "compare_and_swap E 1 p (Some (snapshot_revision c)) owner v d \<noteq> (Inl (StaleRevision x y), t)"
proof
  assume "compare_and_swap E 1 p (Some (snapshot_revision c)) owner v d = (Inl (StaleRevision x y), t)"
  with assms show False
    by (auto simp: compare_and_swap_def bind_exec_result validate_schema_version_def Let_def
        validate_owner_generation_def validate_owner_transition_def next_sequence_def and_then_err
        write_document_def write_atomically_def map_err_def split: sum.splits)
qed

lemma calm_remove:
  assumes "faults d = []" "stored E 1 d p = Inr (Some c)"
  shows "remove_if_revision E 1 p (snapshot_revision c) d \<noteq> (Inl (StaleRevision x y), t)"
proof
  assume "remove_if_revision E 1 p (snapshot_revision c) d = (Inl (StaleRevision x y), t)"
  with assms show False
    by (auto simp: remove_if_revision_def bind_exec_result validate_schema_version_def Let_def remove_file_def)
qed

lemma calm_load_high_water:
  assumes "faults d = []" "stored (water_env E) 1 d (high_water_path root i) = Inr (Some c)"
    and "load_high_water E k root i d = (r, u)"
  shows "u = d" "r \<noteq> Inl (WaterState e)" "r = Inr found \<Longrightarrow> found = Some c"
  using assms
  by (auto simp: load_high_water_def bind_exec_result water_state_def calm_load verify_high_water_def
      and_then_err map_err_def split: prod.splits sum.splits)

lemma calm_publish:
  assumes "faults d = []" "stored (water_env E) 1 d (high_water_path root i) = Inr (Some c)"
  shows "publish_high_water E k root i (Some (snapshot_revision c)) owner v d \<noteq>
    (Inl (WaterState (StaleRevision x y)), t)"
proof
  assume *: "publish_high_water E k root i (Some (snapshot_revision c)) owner v d =
    (Inl (WaterState (StaleRevision x y)), t)"
  obtain r u where load: "load_high_water E k root i d = (r, u)" by fastforce
  note calm = calm_load_high_water [OF assms load]
  from * load calm(2) obtain sealed where
    "r = Inr (Some c)"
    "water_state (compare_and_swap (water_env E) 1 (high_water_path root i) (Some (snapshot_revision c)) owner sealed) u =
       (Inl (WaterState (StaleRevision x y)), t)"
    by (auto simp: publish_high_water_def bind_exec_result map_err_def seal_high_water_def and_then_err Let_def
        dest: calm(3) split: sum.splits)
  with calm(1) calm_swap [OF assms] show False
    by (auto simp: water_state_def map_err_def split: prod.splits sum.splits)
qed

abbreviation water_faults :: "session_state \<Rightarrow> nat" where
  "water_faults s \<equiv> length (faults (water_files s))"

text \<open>A round that has read \<open>c\<close> and then meets a stale revision has used up a fault.\<close>

lemma stale_round:
  assumes "waters_load E M k i s = (Inr (Some c), t)"
    and "on_waters m t = (Inl (WaterState (StaleRevision x y)), u)" "spends m"
    and "\<And>d. faults d = [] \<Longrightarrow>
      stored (water_env E) 1 d (high_water_path (manager_root M) i) = Inr (Some c) \<Longrightarrow>
      m d \<noteq> (Inl (WaterState (StaleRevision x y)), water_files u)"
  shows "water_faults u < water_faults s"
proof -
  note l = load_high_water_faults [OF assms(1)]
  have m: "m (water_files t) = (Inl (WaterState (StaleRevision x y)), water_files u)"
    using assms(2) by (auto simp: on_waters_def split: prod.splits)
  then have le: "water_faults u \<le> water_faults t" using assms(3) by (auto simp: spends_def)
  have "stored (water_env E) 1 (water_files t) (high_water_path (manager_root M) i) = Inr (Some c)"
    using l(2,3) by (simp add: read_snapshot_def)
  then have "faults (water_files t) \<noteq> []" using assms(4) m by blast
  with l(1) have "water_faults t < water_faults s" by (cases "faults (water_files s)") auto
  with le show ?thesis by simp
qed

lemma stale_publish:
  "waters_load E M k i s = (Inr (Some c), t) \<Longrightarrow>
   waters_publish E M k i (Some (snapshot_revision c)) owner v t = (Inl (WaterState (StaleRevision x y)), u) \<Longrightarrow>
   water_faults u < water_faults s"
  by (erule stale_round) (auto dest: calm_publish)

lemma stale_remove:
  assumes "waters_load E M k i s = (Inr (Some c), t)"
    and "on_waters (remove_high_water E (manager_root M) i (snapshot_revision c)) t =
      (Inl (WaterState (StaleRevision x y)), u)"
  shows "water_faults u < water_faults s"
proof (rule stale_round [OF assms])
  fix d :: "workflow_high_water disk"
  assume "faults d = []" "stored (water_env E) 1 d (high_water_path (manager_root M) i) = Inr (Some c)"
  then show "remove_high_water E (manager_root M) i (snapshot_revision c) d \<noteq>
      (Inl (WaterState (StaleRevision x y)), water_files u)"
    using calm_remove [of d "water_env E" "high_water_path (manager_root M) i" c x y]
    by (auto simp: remove_high_water_def bind_exec_result water_state_def map_err_def lease_identifier_def
        split: prod.splits sum.splits)
qed simp

text \<open>A lease without workflow must not have a high-water record, unless it is the source of a first pin.\<close>

function reconcile_unpinned ::
  "('z) manager_env_scheme \<Rightarrow> session_manager \<Rightarrow> string \<Rightarrow> session_lease \<Rightarrow> state_revision \<Rightarrow> unit session_exec" where
  "reconcile_unpinned E M k l revision s =
     (case waters_load E M k (lease_session_id l) s of
        (Inl e, t) \<Rightarrow> (Inl (InvalidState (InvalidWater e)), t)
      | (Inr None, t) \<Rightarrow> (Inr (), t)
      | (Inr (Some c), t) \<Rightarrow>
          (case water_pending (snapshot_value c) of
             None \<Rightarrow> (Inl WorkflowReplay, t)
           | Some p \<Rightarrow>
               if \<not> pending_source_matches p l revision then (Inl WorkflowRecoveryRequired, t)
               else (case on_waters (remove_high_water E (manager_root M) (lease_session_id l)
                        (snapshot_revision c)) t of
                   (Inr _, u) \<Rightarrow> (Inr (), u)
                 | (Inl (WaterState (StaleRevision x y)), u) \<Rightarrow> reconcile_unpinned E M k l revision u
                 | (Inl e, u) \<Rightarrow> (Inl (InvalidState (InvalidWater e)), u))))"
  by pat_completeness auto
termination
  by (relation "measure (\<lambda>(E, M, k, l, revision, s). water_faults s)") (auto intro: stale_remove [OF sym sym])

text \<open>
  A pinned lease must be the one the record vouches for. A pending change is finalized when the
  lease is its target and cleared when it is its source.
\<close>

function reconcile_pinned ::
  "('z) manager_env_scheme \<Rightarrow> session_manager \<Rightarrow> string \<Rightarrow> u32 \<Rightarrow> pinned_workflow \<Rightarrow> session_lease \<Rightarrow>
     state_revision \<Rightarrow> unit session_exec" where
  "reconcile_pinned E M k schema w l revision s =
     (case waters_load E M k (lease_session_id l) s of
        (Inl e, t) \<Rightarrow> (Inl (InvalidState (InvalidWater e)), t)
      | (Inr None, t) \<Rightarrow> (Inl WorkflowHighWaterMissing, t)
      | (Inr (Some c), t) \<Rightarrow>
          (case water_pending (snapshot_value c) of
             Some p \<Rightarrow>
               if pending_target_matches p schema w l
               then (case finalized_target (snapshot_value c) of
                   Inl e \<Rightarrow> (Inl (InvalidState (InvalidRouter e)), t)
                 | Inr v \<Rightarrow>
                     (case waters_publish E M k (lease_session_id l) (Some (snapshot_revision c))
                         (snapshot_owner c) v t of
                        (Inr _, u) \<Rightarrow> (Inr (), u)
                      | (Inl (WaterState (StaleRevision x y)), u) \<Rightarrow> reconcile_pinned E M k schema w l revision u
                      | (Inl e, u) \<Rightarrow> (Inl (InvalidState (InvalidWater e)), u)))
               else if pending_source_matches p l revision \<and> water_matches (snapshot_value c) schema w l
               then (case waters_publish E M k (lease_session_id l) (Some (snapshot_revision c))
                         (snapshot_owner c) ((snapshot_value c)\<lparr>water_pending := None\<rparr>) t of
                        (Inr _, u) \<Rightarrow> (Inr (), u)
                      | (Inl (WaterState (StaleRevision x y)), u) \<Rightarrow> reconcile_pinned E M k schema w l revision u
                      | (Inl e, u) \<Rightarrow> (Inl (InvalidState (InvalidWater e)), u))
               else (Inl WorkflowRecoveryRequired, t)
           | None \<Rightarrow>
               if water_matches (snapshot_value c) schema w l then (Inr (), t) else (Inl WorkflowReplay, t)))"
  by pat_completeness auto
termination
  by (relation "measure (\<lambda>(E, M, k, schema, w, l, revision, s). water_faults s)") (auto intro: stale_publish [OF sym sym])

declare reconcile_unpinned.simps [simp del] reconcile_pinned.simps [simp del]

definition reconcile_lease_high_water ::
  "('z) manager_env_scheme \<Rightarrow> session_manager \<Rightarrow> string \<Rightarrow> u32 \<Rightarrow> session_lease \<Rightarrow> state_revision \<Rightarrow> unit session_exec" where
  "reconcile_lease_high_water E M k schema l revision =
     (case lease_workflow l of
        None \<Rightarrow> reconcile_unpinned E M k l revision
      | Some w \<Rightarrow> reconcile_pinned E M k schema w l revision)"

definition load_established_unlocked ::
  "('z) manager_env_scheme \<Rightarrow> session_manager \<Rightarrow> string \<Rightarrow> lease_snapshot session_exec" where
  "load_established_unlocked E M i =
     bind_exec (pure_exec (authority_key M)) (\<lambda>k.
     bind_exec (checked (lease_identifier ''session id'' i)) (\<lambda>_.
     bind_exec (load_verified E M k (get_session_lease_path (manager_root M) i)) (\<lambda>snapshot.
     bind_exec (pure_exec (ensure (record_session_id (snapshot_value snapshot) = i) SessionPathMismatch)) (\<lambda>_.
     (case snapshot_value snapshot of
        Established l \<Rightarrow>
          bind_exec (reconcile_lease_high_water E M k (snapshot_schema_version snapshot) l
             (snapshot_revision snapshot)) (\<lambda>_.
          pure_exec (Inr \<lparr>lease_revision = snapshot_revision snapshot, snapshot_lease = l\<rparr>))
      | SessionPending _ \<Rightarrow> pure_exec (Inl BootstrapNotConsumed))))))"

section \<open>Changing a lease\<close>

text \<open>
  A change of a pinned lease is announced in the high-water record before the lease is written: the
  record must vouch for the lease as it was, or be absent when this change pins the workflow.
\<close>

definition announced_base ::
  "session_record state_snapshot \<Rightarrow> string \<Rightarrow> pinned_workflow \<Rightarrow> string \<Rightarrow> owner_generation \<Rightarrow>
     workflow_high_water state_snapshot option \<Rightarrow>
     lease_error + (state_revision option \<times> owner_generation \<times> workflow_high_water)" where
  "announced_base snapshot i w source_tag owner current =
     (case current of
        Some c \<Rightarrow>
          and_then (ok_or (workflow_counters (snapshot_value snapshot)) WorkflowRecoveryRequired)
            (\<lambda>(source_sequence, source_generation).
          and_then (ensure (\<not> (water_pending (snapshot_value c) \<noteq> None \<or>
               snapshot_schema_version snapshot \<noteq> water_lease_schema_version (snapshot_value c) \<or>
               source_sequence \<noteq> water_state_sequence (snapshot_value c) \<or>
               source_generation \<noteq> water_sealed_generation (snapshot_value c) \<or>
               \<not> constant_time_equal source_tag (water_lease_tag (snapshot_value c)))) WorkflowRecoveryRequired) (\<lambda>_.
          Inr (Some (snapshot_revision c), snapshot_owner c, snapshot_value c)))
      | None \<Rightarrow>
          and_then (ensure (workflow_counters (snapshot_value snapshot) = None) WorkflowHighWaterMissing) (\<lambda>_.
          and_then (map_err (InvalidState \<circ> InvalidRouter) (new_high_water i (snapshot_schema_version snapshot)
             (pw_state_sequence w) (pw_sealed_generation w) source_tag)) (\<lambda>v.
          Inr (None, owner, v))))"

definition announce_transition ::
  "('z) manager_env_scheme \<Rightarrow> session_manager \<Rightarrow> string \<Rightarrow> string \<Rightarrow> session_record state_snapshot \<Rightarrow> string \<Rightarrow>
     session_lease \<Rightarrow> owner_generation \<Rightarrow> (state_revision \<times> workflow_high_water) option session_exec" where
  "announce_transition E M k i snapshot source_tag l owner =
     (case lease_workflow l of
        None \<Rightarrow> pure_exec (Inr None)
      | Some w \<Rightarrow>
          bind_exec (water_result (waters_load E M k i)) (\<lambda>current.
          bind_exec (pure_exec (announced_base snapshot i w source_tag owner current))
            (\<lambda>(expected, water_owner, base).
          bind_exec (pure_exec (map_err (InvalidState \<circ> InvalidRouter) (prepare_transition base
             \<lparr>source_lease_revision = snapshot_revision snapshot, source_lease_tag = source_tag,
              target_lease_schema_version = session_lease_store_schema_v3,
              target_state_sequence = pw_state_sequence w, target_sealed_generation = pw_sealed_generation w,
              target_lease_tag = authentication_tag l\<rparr>))) (\<lambda>announced.
          bind_exec (water_result (waters_publish E M k i expected water_owner announced)) (\<lambda>revision.
          pure_exec (Inr (Some (revision, announced))))))))"

definition finalize_transition ::
  "('z) manager_env_scheme \<Rightarrow> session_manager \<Rightarrow> string \<Rightarrow> string \<Rightarrow> string \<Rightarrow> u64 \<Rightarrow>
     (state_revision \<times> workflow_high_water) option \<Rightarrow> unit session_exec" where
  "finalize_transition E M k i actor g announced =
     (case announced of
        None \<Rightarrow> pure_exec (Inr ())
      | Some (revision, v) \<Rightarrow>
          bind_exec (pure_exec (map_err LeaseState (new_owner actor g))) (\<lambda>owner.
          bind_exec (pure_exec (map_err (InvalidState \<circ> InvalidRouter) (finalized_target v))) (\<lambda>final.
          bind_exec (water_result (waters_publish E M k i (Some revision) owner final)) (\<lambda>_.
          pure_exec (Inr ())))))"

definition replace_record ::
  "('z) manager_env_scheme \<Rightarrow> path \<Rightarrow> u32 \<Rightarrow> state_revision \<Rightarrow> owner_generation \<Rightarrow> session_record \<Rightarrow>
     state_revision session_exec" where
  "replace_record E p schema expected owner r =
     (if schema = session_lease_store_schema_v3
      then on_sessions (compare_and_swap (record_env E) session_lease_store_schema_v3 p (Some expected) owner r)
      else on_sessions (compare_and_swap_migrating_schema (record_env E) session_lease_store_schema_v3 p
             expected schema owner r))"

fun established_lease :: "session_record \<Rightarrow> lease_error + session_lease" where
  "established_lease (Established l) = Inr l"
| "established_lease (SessionPending _) = Inl BootstrapNotConsumed"

type_synonym lease_change = "session_lease \<Rightarrow> lease_error + session_lease"

definition update_lease ::
  "('z) manager_env_scheme \<Rightarrow> session_manager \<Rightarrow> string \<Rightarrow> state_revision \<Rightarrow> string \<Rightarrow> lease_change \<Rightarrow>
     lease_snapshot session_exec" where
  "update_lease E M i expected actor change =
     bind_exec (pure_exec (authority_key M)) (\<lambda>k.
     bind_exec (checked (lease_identifier ''session id'' i)) (\<lambda>_.
     bind_exec (checked (lease_identifier ''state actor'' actor)) (\<lambda>_.
     bind_exec (load_verified E M k (get_session_lease_path (manager_root M) i)) (\<lambda>snapshot.
     bind_exec (pure_exec (ensure (snapshot_revision snapshot = expected)
        (LeaseState (StaleRevision (Some expected) (Some (snapshot_revision snapshot)))))) (\<lambda>_.
     bind_exec (checked (lease_authentication_tag (snapshot_value snapshot))) (\<lambda>source_tag.
     bind_exec (pure_exec (established_lease (snapshot_value snapshot))) (\<lambda>l.
     bind_exec (pure_exec (change l)) (\<lambda>changed.
     bind_exec (checked (seal_lease E k changed)) (\<lambda>sealed.
     bind_exec (checked (verify_lease E k session_lease_store_schema_v3 sealed)) (\<lambda>_.
     bind_exec (pure_exec (ok_or (checked_succ (generation (snapshot_owner snapshot)))
        OwnerGenerationOverflow)) (\<lambda>g.
     bind_exec (pure_exec (map_err LeaseState (new_owner actor g))) (\<lambda>owner.
     bind_exec (announce_transition E M k i snapshot source_tag sealed owner) (\<lambda>announced.
     bind_exec (replace_record E (get_session_lease_path (manager_root M) i)
        (snapshot_schema_version snapshot) expected owner (Established sealed)) (\<lambda>revision.
     bind_exec (finalize_transition E M k i actor g announced) (\<lambda>_.
     pure_exec (Inr \<lparr>lease_revision = revision, snapshot_lease = sealed\<rparr>))))))))))))))))"

definition registry_lock :: "unit session_exec" where
  "registry_lock = acquire_lock"

definition owned_change :: "('z) hashing_scheme \<Rightarrow> session_handle \<Rightarrow> int \<Rightarrow> lease_change \<Rightarrow> lease_change" where
  "owned_change H h now change l =
     and_then (map_err lease_error_of (verify_handle H l h)) (\<lambda>_.
     and_then (change l) (\<lambda>l'. Inr (l'\<lparr>heartbeat_at := now\<rparr>)))"

definition update_owned_lease ::
  "('z) manager_env_scheme \<Rightarrow> session_manager \<Rightarrow> session_handle \<Rightarrow> state_revision \<Rightarrow> int \<Rightarrow> lease_change \<Rightarrow>
     lease_snapshot session_exec" where
  "update_owned_lease E M h expected now change =
     bind_exec registry_lock (\<lambda>_.
     bind_exec (load_established_unlocked E M (handle_session_id h)) (\<lambda>loaded.
     bind_exec (checked (verify_handle E (snapshot_lease loaded) h)) (\<lambda>_.
     bind_exec (pure_exec (ensure (\<not> lease_expires_at (snapshot_lease loaded) \<le> now) SessionLeaseExpired)) (\<lambda>_.
     update_lease E M (handle_session_id h) expected (handle_owner_id h) (owned_change E h now change)))))"

definition load_for_handle_unlocked ::
  "('z) manager_env_scheme \<Rightarrow> session_manager \<Rightarrow> session_handle \<Rightarrow> lease_snapshot session_exec" where
  "load_for_handle_unlocked E M h =
     bind_exec (load_established_unlocked E M (handle_session_id h)) (\<lambda>snapshot.
     bind_exec (checked (verify_handle E (snapshot_lease snapshot) h)) (\<lambda>_.
     pure_exec (Inr snapshot)))"

definition load_for_handle ::
  "('z) manager_env_scheme \<Rightarrow> session_manager \<Rightarrow> session_handle \<Rightarrow> lease_snapshot session_exec" where
  "load_for_handle E M h = bind_exec registry_lock (\<lambda>_. load_for_handle_unlocked E M h)"

definition assert_bound_context ::
  "('z) manager_env_scheme \<Rightarrow> session_manager \<Rightarrow> session_handle \<Rightarrow> provider_id \<Rightarrow> string \<Rightarrow> string \<Rightarrow> unit session_exec" where
  "assert_bound_context E M h p repository workspace =
     bind_exec (load_for_handle E M h) (\<lambda>snapshot.
     (let l = snapshot_lease snapshot in
      pure_exec (ensure (lease_provider l = p \<and> lease_repository_key l = repository \<and>
        lease_workspace_key l = workspace) ContextMismatch)))"

section \<open>The changes an owner makes\<close>

definition require_active :: "session_lease \<Rightarrow> lease_error + unit" where
  "require_active l =
     (if lease_lifecycle l = LeaseActive then Inr ()
      else if lease_lifecycle l = Revoking then Inl AdmissionClosed
      else Inl LeaseNotActive)"

definition bump_sequence :: "pinned_workflow \<Rightarrow> lease_error + pinned_workflow" where
  "bump_sequence w =
     and_then (ok_or (checked_succ (pw_state_sequence w)) OwnerGenerationOverflow) (\<lambda>seq.
     Inr (w\<lparr>pw_state_sequence := seq\<rparr>))"

definition request_exposure_change :: "pinned_exposure \<Rightarrow> int \<Rightarrow> lease_change" where
  "request_exposure_change exposure now l =
     and_then (require_active l) (\<lambda>_.
     and_then (ensure (\<not> lease_expires_at l \<le> now) SessionLeaseExpired) (\<lambda>_.
     Inr (l\<lparr>desired_exposure := exposure, live_status := Configured\<rparr>)))"

definition pin_workflow_change :: "pinned_workflow \<Rightarrow> pinned_exposure \<Rightarrow> lease_change" where
  "pin_workflow_change w exposure l =
     and_then (require_active l) (\<lambda>_.
     and_then (ensure (lease_workflow l = None) WorkflowAlreadyPinned) (\<lambda>_.
     Inr (l\<lparr>lease_workflow := Some w, desired_exposure := exposure, observed_exposure := exposure,
            live_status := ObservedRefresh\<rparr>)))"

definition update_workflow_mode_change :: "string \<Rightarrow> pinned_exposure \<Rightarrow> lease_change" where
  "update_workflow_mode_change mode exposure l =
     and_then (require_active l) (\<lambda>_.
     and_then (ok_or (lease_workflow l) WorkflowNotPinned) (\<lambda>w.
     and_then (ensure (map_of (pw_profile_revisions w) mode = Some (exposure_revision exposure))
        WorkflowExpansionRequiresReview) (\<lambda>_.
     and_then (bump_sequence (w\<lparr>pw_active_mode := mode,
        pw_active_effective_profile_digest := exposure_revision exposure\<rparr>)) (\<lambda>w'.
     Inr (l\<lparr>lease_workflow := Some w', desired_exposure := exposure, live_status := Configured,
            admission_open := False\<rparr>)))))"

definition defer_workflow_mode_change :: "string \<Rightarrow> lease_change" where
  "defer_workflow_mode_change mode l =
     and_then (require_active l) (\<lambda>_.
     and_then (ok_or (lease_workflow l) WorkflowNotPinned) (\<lambda>w.
     and_then (ensure (map_of (pw_profile_revisions w) mode = Some (exposure_revision (observed_exposure l)))
        (InvalidState (InvalidText ''observed workflow mode does not match current exposure''))) (\<lambda>_.
     and_then (bump_sequence (w\<lparr>pw_active_mode := mode,
        pw_active_effective_profile_digest := exposure_revision (observed_exposure l)\<rparr>)) (\<lambda>w'.
     Inr (l\<lparr>lease_workflow := Some w', desired_exposure := observed_exposure l,
            live_status := NextSessionOnly, admission_open := True\<rparr>)))))"

definition cancel_workflow_change :: "string \<Rightarrow> pinned_exposure \<Rightarrow> lease_change" where
  "cancel_workflow_change mode observed l =
     and_then (ok_or (lease_workflow l) WorkflowNotPinned) (\<lambda>w.
     and_then (bump_sequence (w\<lparr>pw_active_mode := mode,
        pw_active_effective_profile_digest := exposure_revision observed\<rparr>)) (\<lambda>w'.
     Inr (l\<lparr>lease_workflow := Some w', observed_exposure := observed, desired_exposure := observed,
            live_status := ObservedRefresh, admission_open := True\<rparr>)))"

definition restore_observed_change :: lease_change where
  "restore_observed_change l =
     and_then (require_active l) (\<lambda>_.
     Inr (l\<lparr>desired_exposure := observed_exposure l, live_status := ObservedRefresh, admission_open := True\<rparr>))"

definition quarantine_change :: lease_change where
  "quarantine_change l =
     and_then (require_active l) (\<lambda>_. Inr (l\<lparr>live_status := StatusUnknown, admission_open := False\<rparr>))"

definition observe_exposure_change :: "live_exposure_status \<Rightarrow> lease_change" where
  "observe_exposure_change status l =
     and_then (require_active l) (\<lambda>_.
     (let l' = (if status = ObservedRefresh
                then l\<lparr>observed_exposure := desired_exposure l, admission_open := True\<rparr>
                else if status = NextSessionOnly
                then l\<lparr>desired_exposure := observed_exposure l, admission_open := True\<rparr>
                else l) in
      Inr (l'\<lparr>live_status := status\<rparr>)))"

definition report_revision_change :: "string option \<Rightarrow> lease_change" where
  "report_revision_change current l =
     and_then (require_active l) (\<lambda>_.
     Inr (l\<lparr>workspace_drifted := current \<noteq> workspace_start_revision l, last_workspace_revision := current\<rparr>))"

text \<open>\<open>u32::try_from(in_flight_call_ids.len())\<close> after the set has changed.\<close>

definition count_in_flight :: lease_change where
  "count_in_flight l =
     (let n = length (in_flight_call_ids l) in
      and_then (ensure (n < 2 ^ 32) InFlightOverflow) (\<lambda>_. Inr (l\<lparr>in_flight_calls := word_of_nat n\<rparr>)))"

definition admit_call_change :: "string \<Rightarrow> lease_change" where
  "admit_call_change call l =
     and_then (ensure (\<not> (lease_lifecycle l \<noteq> LeaseActive \<or> \<not> admission_open l)) AdmissionClosed) (\<lambda>_.
     and_then (ensure (call \<notin> set (in_flight_call_ids l)) InvalidCallAdmission) (\<lambda>_.
     count_in_flight (l\<lparr>in_flight_call_ids := insort call (in_flight_call_ids l)\<rparr>)))"

definition finish_call_change :: "string \<Rightarrow> lease_change" where
  "finish_call_change call l =
     and_then (ensure (call \<in> set (in_flight_call_ids l)) InvalidCallAdmission) (\<lambda>_.
     count_in_flight (l\<lparr>in_flight_call_ids := remove1 call (in_flight_call_ids l)\<rparr>))"

definition runtime_stopped_change :: lease_change where
  "runtime_stopped_change l =
     Inr (l\<lparr>lease_lifecycle := Revoking, admission_open := False, in_flight_call_ids := [],
            in_flight_calls := 0, closed_reason := Some ''gateway-runtime-stopped''\<rparr>)"

definition heartbeat_change :: "('z) hashing_scheme \<Rightarrow> session_handle \<Rightarrow> int \<Rightarrow> lease_change" where
  "heartbeat_change H h now l =
     and_then (map_err lease_error_of (verify_handle H l h)) (\<lambda>_.
     and_then (ensure (contributes_active_intent (lease_lifecycle l)) LeaseNotActive) (\<lambda>_.
     Inr (l\<lparr>heartbeat_at := now\<rparr>)))"

definition request_revoke_change :: "string \<Rightarrow> int \<Rightarrow> lease_change" where
  "request_revoke_change reason now l =
     Inr (l\<lparr>lease_lifecycle := Revoking, admission_open := False, heartbeat_at := now,
            closed_reason := Some reason\<rparr>)"

definition begin_revoke_change :: "int \<Rightarrow> lease_change" where
  "begin_revoke_change now l =
     (if contributes_active_intent (lease_lifecycle l)
      then Inr (l\<lparr>lease_lifecycle := Revoking, admission_open := False, heartbeat_at := now,
                  closed_reason := Some ''gateway-force-off''\<rparr>)
      else Inl LeaseNotActive)"

datatype in_flight_close_policy = RequireDrained | Abandon

definition close_change :: "string \<Rightarrow> int \<Rightarrow> lease_lifecycle \<Rightarrow> in_flight_close_policy \<Rightarrow> lease_change" where
  "close_change reason now lc policy l =
     and_then (ensure (\<not> (policy = RequireDrained \<and> (in_flight_calls l \<noteq> 0 \<or> in_flight_call_ids l \<noteq> [])))
        SessionDraining) (\<lambda>_.
     Inr (l\<lparr>lease_lifecycle := lc, admission_open := False, in_flight_calls := 0,
            in_flight_call_ids := [], heartbeat_at := now, closed_reason := Some reason\<rparr>))"

section \<open>The operations of an owner\<close>

definition request_exposure where
  "request_exposure E M h expected exposure now =
     bind_exec (checked (validate_exposure E exposure)) (\<lambda>_.
     update_owned_lease E M h expected now (request_exposure_change exposure now))"

definition pin_workflow where
  "pin_workflow E M h expected w exposure now =
     bind_exec (checked (validate_pinned_workflow w)) (\<lambda>_.
     bind_exec (checked (validate_exposure E exposure)) (\<lambda>_.
     bind_exec (pure_exec (ensure (pw_active_effective_profile_digest w = exposure_revision exposure)
        (InvalidState (InvalidText ''workflow effective exposure does not match pinned exposure'')))) (\<lambda>_.
     update_owned_lease E M h expected now (pin_workflow_change w exposure))))"

definition update_workflow_mode where
  "update_workflow_mode E M h expected mode exposure now =
     bind_exec (checked (lease_identifier ''workflow mode'' mode)) (\<lambda>_.
     bind_exec (checked (validate_exposure E exposure)) (\<lambda>_.
     update_owned_lease E M h expected now (update_workflow_mode_change mode exposure)))"

definition defer_workflow_mode_to_next_session where
  "defer_workflow_mode_to_next_session E M h expected mode now =
     bind_exec (checked (lease_identifier ''workflow mode'' mode)) (\<lambda>_.
     update_owned_lease E M h expected now (defer_workflow_mode_change mode))"

definition cancel_workflow_transition where
  "cancel_workflow_transition E M h expected mode observed now =
     update_owned_lease E M h expected now (cancel_workflow_change mode observed)"

definition restore_observed_exposure where
  "restore_observed_exposure E M h expected now = update_owned_lease E M h expected now restore_observed_change"

definition quarantine_workflow_observation where
  "quarantine_workflow_observation E M h expected now = update_owned_lease E M h expected now quarantine_change"

definition observe_exposure where
  "observe_exposure E M h expected status now =
     bind_exec (pure_exec (ensure (status \<in> {NotificationSent, ObservedRefresh, ReloadRequired, NextSessionOnly,
        StatusUnknown}) InvalidExposureStatus)) (\<lambda>_.
     update_owned_lease E M h expected now (observe_exposure_change status))"

definition report_workspace_revision where
  "report_workspace_revision E M h expected current now =
     bind_exec (checked (if_some current validate_workspace_revision)) (\<lambda>_.
     update_owned_lease E M h expected now (report_revision_change current))"

definition reconcile_stopped_runtime where
  "reconcile_stopped_runtime E M h expected now = update_owned_lease E M h expected now runtime_stopped_change"

definition heartbeat ::
  "('z) manager_env_scheme \<Rightarrow> session_manager \<Rightarrow> session_handle \<Rightarrow> state_revision \<Rightarrow> int \<Rightarrow>
     lease_snapshot session_exec" where
  "heartbeat E M h expected now =
     bind_exec registry_lock (\<lambda>_.
     bind_exec (load_for_handle_unlocked E M h) (\<lambda>loaded.
     (let l = snapshot_lease loaded in
     bind_exec (pure_exec (ensure (\<not> lease_expires_at l \<le> now) SessionLeaseExpired)) (\<lambda>_.
     bind_exec (pure_exec (ensure (contributes_active_intent (lease_lifecycle l)) LeaseNotActive)) (\<lambda>_.
     (let revision = (if lease_lifecycle l = Revoking \<and> closed_reason l = Some ''gateway-force-off''
                      then lease_revision loaded else expected) in
      update_lease E M (handle_session_id h) revision (handle_owner_id h) (heartbeat_change E h now)))))))"

end
