(* ===== verification/Session_Registry.thy ===== *)
theory Session_Registry
  imports Session_Manager
begin

text \<open>
  The rest of \<open>sessions/manager.rs\<close>: calls in flight, closing and revoking, the scan of the registry,
  the reaper of stale sessions, the bootstrap of a new session, and the check of a transition plan
  against the active leases.
\<close>

section \<open>Calls in flight\<close>

record call_admission =
  admitted_session_id :: string
  admitted_call_id :: string
  admitted_exposure_revision :: string
  admitted_at_revision :: u64

text \<open>Decimal digits, as \<open>format!\<close> prints integers.\<close>

fun dec_nat :: "nat \<Rightarrow> string" where
  "dec_nat n = (if n < 10 then [char_of (48 + n)] else dec_nat (n div 10) @ [char_of (48 + n mod 10)])"

definition dec_int :: "int \<Rightarrow> string" where
  "dec_int i = (if i < 0 then CHR ''-'' # dec_nat (nat (- i)) else dec_nat (nat i))"

definition session_call_id :: "('z) hashing_scheme \<Rightarrow> session_handle \<Rightarrow> state_revision \<Rightarrow> int \<Rightarrow> string" where
  "session_call_id H h expected now =
     digest_bytes H (''session-call-v1'' @ [CHR 0x00] @ handle_session_id h @ [CHR 0x00] @
       dec_nat (unat (sequence expected)) @ [CHR 0x00] @ dec_int now)"

definition admit_call_with_snapshot ::
  "('z) manager_env_scheme \<Rightarrow> session_manager \<Rightarrow> session_handle \<Rightarrow> state_revision \<Rightarrow> int \<Rightarrow>
     (call_admission \<times> lease_snapshot) session_exec" where
  "admit_call_with_snapshot E M h expected now =
     (let call = session_call_id E h expected now in
      bind_exec (update_owned_lease E M h expected now (admit_call_change call)) (\<lambda>updated.
      pure_exec (Inr (\<lparr>admitted_session_id = lease_session_id (snapshot_lease updated),
          admitted_call_id = call,
          admitted_exposure_revision = exposure_revision (observed_exposure (snapshot_lease updated)),
          admitted_at_revision = sequence (lease_revision updated)\<rparr>, updated))))"

definition admit_call ::
  "('z) manager_env_scheme \<Rightarrow> session_manager \<Rightarrow> session_handle \<Rightarrow> state_revision \<Rightarrow> int \<Rightarrow>
     call_admission session_exec" where
  "admit_call E M h expected now =
     bind_exec (admit_call_with_snapshot E M h expected now) (\<lambda>(admission, _). pure_exec (Inr admission))"

definition finish_call ::
  "('z) manager_env_scheme \<Rightarrow> session_manager \<Rightarrow> session_handle \<Rightarrow> state_revision \<Rightarrow> call_admission \<Rightarrow> int \<Rightarrow>
     lease_snapshot session_exec" where
  "finish_call E M h expected admission now =
     bind_exec (pure_exec (ensure (\<not> (admitted_session_id admission \<noteq> handle_session_id h \<or>
        admitted_at_revision admission > sequence expected)) InvalidCallAdmission)) (\<lambda>_.
     update_owned_lease E M h expected now (finish_call_change (admitted_call_id admission)))"

section \<open>Closing and revoking\<close>

definition close_unlocked ::
  "('z) manager_env_scheme \<Rightarrow> session_manager \<Rightarrow> lease_snapshot \<Rightarrow> string \<Rightarrow> string \<Rightarrow> int \<Rightarrow> lease_lifecycle \<Rightarrow>
     in_flight_close_policy \<Rightarrow> lease_snapshot session_exec" where
  "close_unlocked E M snapshot actor reason now lc policy =
     update_lease E M (lease_session_id (snapshot_lease snapshot)) (lease_revision snapshot) actor
       (close_change reason now lc policy)"

definition remove_record ::
  "('z) manager_env_scheme \<Rightarrow> session_manager \<Rightarrow> string \<Rightarrow> state_revision \<Rightarrow> unit session_exec" where
  "remove_record E M i revision =
     on_sessions (remove_if_revision (record_env E) session_lease_store_schema_v3
       (get_session_lease_path (manager_root M) i) revision)"

definition remove_compatible_record ::
  "('z) manager_env_scheme \<Rightarrow> session_manager \<Rightarrow> string \<Rightarrow> state_revision \<Rightarrow> unit session_exec" where
  "remove_compatible_record E M i revision =
     on_sessions (remove_if_revision_compatible (record_env E) session_lease_store_schema_v3
       (get_session_lease_path (manager_root M) i) revision [session_lease_store_schema_v2])"

definition close_and_remove_unlocked ::
  "('z) manager_env_scheme \<Rightarrow> session_manager \<Rightarrow> lease_snapshot \<Rightarrow> string \<Rightarrow> string \<Rightarrow> int \<Rightarrow> lease_lifecycle \<Rightarrow>
     in_flight_close_policy \<Rightarrow> unit session_exec" where
  "close_and_remove_unlocked E M snapshot actor reason now lc policy =
     bind_exec (close_unlocked E M snapshot actor reason now lc policy) (\<lambda>closed.
     remove_record E M (lease_session_id (snapshot_lease closed)) (lease_revision closed))"

definition close_owned ::
  "('z) manager_env_scheme \<Rightarrow> session_manager \<Rightarrow> session_handle \<Rightarrow> state_revision \<Rightarrow> string \<Rightarrow> int \<Rightarrow> unit session_exec" where
  "close_owned E M h expected reason now =
     bind_exec (checked (lease_identifier ''close reason'' reason)) (\<lambda>_.
     bind_exec registry_lock (\<lambda>_.
     bind_exec (load_for_handle_unlocked E M h) (\<lambda>current.
     bind_exec (pure_exec (ensure (lease_revision current = expected)
        (LeaseState (StaleRevision (Some expected) (Some (lease_revision current)))))) (\<lambda>_.
     bind_exec (pure_exec (ensure (\<not> (in_flight_calls (snapshot_lease current) \<noteq> 0 \<or>
        in_flight_call_ids (snapshot_lease current) \<noteq> [])) SessionDraining)) (\<lambda>_.
     close_and_remove_unlocked E M current (handle_owner_id h) reason now LeaseClosed RequireDrained)))))"

definition request_revoke ::
  "('z) manager_env_scheme \<Rightarrow> session_manager \<Rightarrow> string \<Rightarrow> state_revision \<Rightarrow> string \<Rightarrow> string \<Rightarrow> int \<Rightarrow>
     lease_snapshot session_exec" where
  "request_revoke E M i expected actor reason now =
     bind_exec (checked (lease_identifier ''session id'' i)) (\<lambda>_.
     bind_exec (checked (lease_identifier ''session revoke reason'' reason)) (\<lambda>_.
     bind_exec registry_lock (\<lambda>_.
     bind_exec (load_established_unlocked E M i) (\<lambda>current.
     bind_exec (pure_exec (ensure (lease_revision current = expected)
        (LeaseState (StaleRevision (Some expected) (Some (lease_revision current)))))) (\<lambda>_.
     bind_exec (pure_exec (ensure (contributes_active_intent (lease_lifecycle (snapshot_lease current)))
        LeaseNotActive)) (\<lambda>_.
     update_lease E M i expected actor (request_revoke_change reason now)))))))"

definition begin_revoke_unlocked ::
  "('z) manager_env_scheme \<Rightarrow> session_manager \<Rightarrow> lease_snapshot \<Rightarrow> string \<Rightarrow> int \<Rightarrow> lease_snapshot session_exec" where
  "begin_revoke_unlocked E M snapshot actor now =
     update_lease E M (lease_session_id (snapshot_lease snapshot)) (lease_revision snapshot) actor
       (begin_revoke_change now)"

definition remove_drained_unlocked ::
  "('z) manager_env_scheme \<Rightarrow> session_manager \<Rightarrow> lease_snapshot \<Rightarrow> string \<Rightarrow> int \<Rightarrow> bool session_exec" where
  "remove_drained_unlocked E M snapshot actor now =
     (if in_flight_calls (snapshot_lease snapshot) \<noteq> 0 \<or> in_flight_call_ids (snapshot_lease snapshot) \<noteq> []
      then pure_exec (Inr False)
      else bind_exec (close_and_remove_unlocked E M snapshot actor ''gateway-off'' now LeaseClosed RequireDrained)
        (\<lambda>_. pure_exec (Inr True)))"

section \<open>The registry\<close>

definition strip_suffix :: "string \<Rightarrow> string \<Rightarrow> string option" where
  "strip_suffix sfx v = map_option rev (strip_prefix (rev sfx) (rev v))"

text \<open>The entries of a directory, in the order the system lists them; reading it may fail.\<close>

definition read_dir :: "path \<Rightarrow> ('v disk, state_error, path list) exec" where
  "read_dir dir =
     bind_exec access (\<lambda>_ d.
     (Inr (filter (\<lambda>p. p \<noteq> [] \<and> butlast p = dir) (remdups (map fst (files d)))), d))"

definition hidden :: "string \<Rightarrow> bool" where
  "hidden name \<longleftrightarrow> take 1 name = ''.''"

definition scan_record ::
  "('z) manager_env_scheme \<Rightarrow> session_manager \<Rightarrow> string \<Rightarrow> path \<Rightarrow>
     session_record state_snapshot option session_exec" where
  "scan_record E M k p =
     (if hidden (last p) then pure_exec (Inr None)
      else bind_exec (pure_exec (ok_or (strip_suffix ''.json'' (last p)) (UnexpectedSessionEntry p))) (\<lambda>encoded.
        bind_exec (load_verified E M k p) (\<lambda>snapshot.
        bind_exec (case snapshot_value snapshot of
            Established l \<Rightarrow> reconcile_lease_high_water E M k (snapshot_schema_version snapshot) l
              (snapshot_revision snapshot)
          | SessionPending _ \<Rightarrow> pure_exec (Inr ())) (\<lambda>_.
        bind_exec (pure_exec (ensure (encode_path_segment (record_session_id (snapshot_value snapshot)) = encoded)
          SessionPathMismatch)) (\<lambda>_.
        pure_exec (Inr (Some snapshot)))))))"

fun scan_each ::
  "('z) manager_env_scheme \<Rightarrow> session_manager \<Rightarrow> string \<Rightarrow> path list \<Rightarrow>
     session_record state_snapshot list session_exec" where
  "scan_each E M k [] s = (Inr [], s)"
| "scan_each E M k (p # ps) s =
     bind_exec (scan_record E M k p) (\<lambda>found.
     bind_exec (scan_each E M k ps) (\<lambda>rest.
     pure_exec (Inr (case found of None \<Rightarrow> rest | Some r \<Rightarrow> r # rest)))) s"

definition scan_records ::
  "('z) manager_env_scheme \<Rightarrow> session_manager \<Rightarrow> session_record state_snapshot list session_exec" where
  "scan_records E M =
     bind_exec (pure_exec (authority_key M)) (\<lambda>k.
     bind_exec (on_sessions (read_dir (get_session_leases_dir (manager_root M)))) (\<lambda>paths.
     bind_exec (scan_each E M k paths) (\<lambda>found.
     pure_exec (Inr (sort_key (\<lambda>r. record_session_id (snapshot_value r)) found)))))"

fun keep_established ::
  "('z) lease_env_scheme \<Rightarrow> string \<Rightarrow> session_record state_snapshot list \<Rightarrow>
     lease_validation_error + lease_snapshot list" where
  "keep_established E k [] = Inr []"
| "keep_established E k (r # rs) =
     (case snapshot_value r of
        Established l \<Rightarrow>
          and_then (verify_lease E k (snapshot_schema_version r) l) (\<lambda>_.
          and_then (keep_established E k rs) (\<lambda>ls.
          Inr (\<lparr>lease_revision = snapshot_revision r, snapshot_lease = l\<rparr> # ls)))
      | SessionPending _ \<Rightarrow> keep_established E k rs)"

definition list_unlocked ::
  "('z) manager_env_scheme \<Rightarrow> session_manager \<Rightarrow> lease_snapshot list session_exec" where
  "list_unlocked E M =
     bind_exec (pure_exec (authority_key M)) (\<lambda>k.
     bind_exec (scan_records E M) (\<lambda>found.
     bind_exec (checked (keep_established E k found)) (\<lambda>leases.
     pure_exec (Inr (sort_key (\<lambda>l. lease_session_id (snapshot_lease l)) leases)))))"

text \<open>\<open>list\<close>: without a single entry the directory need not exist and nothing is locked.\<close>

definition list_sessions ::
  "('z) manager_env_scheme \<Rightarrow> session_manager \<Rightarrow> lease_snapshot list session_exec" where
  "list_sessions E M =
     bind_exec (pure_exec (authority_key M)) (\<lambda>_.
     bind_exec (on_sessions (read_dir (get_session_leases_dir (manager_root M)))) (\<lambda>paths.
     if paths = [] then pure_exec (Inr [])
     else bind_exec registry_lock (\<lambda>_. list_unlocked E M)))"

section \<open>The reaper\<close>

definition cleanup_overlay :: "session_manager \<Rightarrow> string \<Rightarrow> bool session_exec" where
  "cleanup_overlay M i =
     bind_exec (pure_exec (authority_key M)) (\<lambda>_.
     bind_exec (checked (lease_identifier ''session id'' i)) (\<lambda>_ s.
     (case map_of (overlays s) i of
        None \<Rightarrow> (Inr False, s)
      | Some ContestedOverlay \<Rightarrow> (Inl (UnsafeOverlay (get_session_overlay_root (manager_root M) i)), s)
      | Some (UnreadableOverlay e) \<Rightarrow> (Inl (LeaseState e), s)
      | Some (OwnedOverlay version owner sync) \<Rightarrow>
          if version \<noteq> 1 \<or> owner \<noteq> i
          then (Inl (UnsafeOverlay (get_session_overlay_root (manager_root M) i)), s)
          else ((case sync of None \<Rightarrow> Inr True | Some e \<Rightarrow> Inl (LeaseState e)),
                s\<lparr>overlays := AList.delete i (overlays s)\<rparr>))))"

fun reap_pending ::
  "('z) manager_env_scheme \<Rightarrow> session_manager \<Rightarrow> int \<Rightarrow> session_record state_snapshot list \<Rightarrow> unit session_exec" where
  "reap_pending E M now [] s = (Inr (), s)"
| "reap_pending E M now (r # rs) s =
     (case snapshot_value r of
        SessionPending p \<Rightarrow>
          if pend_bootstrap_expires_at p \<le> now
          then bind_exec (cleanup_overlay M (pend_session_id p)) (\<lambda>_.
               bind_exec (remove_compatible_record E M (pend_session_id p) (snapshot_revision r)) (\<lambda>_.
               reap_pending E M now rs)) s
          else reap_pending E M now rs s
      | Established _ \<Rightarrow> reap_pending E M now rs s)"

definition lease_stale :: "(process_evidence \<Rightarrow> bool) \<Rightarrow> int \<Rightarrow> int \<Rightarrow> session_lease \<Rightarrow> bool" where
  "lease_stale alive now window l \<longleftrightarrow>
     (let heartbeat_stale = (case checked_sub now (heartbeat_at l) of None \<Rightarrow> False | Some age \<Rightarrow> age \<ge> window);
          hard_expired = (now \<ge> lease_expires_at l) in
      hard_expired \<or> (heartbeat_stale \<and> \<not> alive (lease_process l)))"

fun reap_leases ::
  "('z) manager_env_scheme \<Rightarrow> session_manager \<Rightarrow> (process_evidence \<Rightarrow> bool) \<Rightarrow> int \<Rightarrow> int \<Rightarrow> lease_snapshot list \<Rightarrow>
     string list session_exec" where
  "reap_leases E M alive now window [] s = (Inr [], s)"
| "reap_leases E M alive now window (l # ls) s =
     (if lease_stale alive now window (snapshot_lease l)
      then let i = lease_session_id (snapshot_lease l) in
        bind_exec (close_unlocked E M l ''stale-session-reaper'' ''stale-process-or-heartbeat'' now
          LeaseExpired Abandon) (\<lambda>expired.
        bind_exec (cleanup_overlay M i) (\<lambda>_.
        bind_exec (remove_record E M i (lease_revision expired)) (\<lambda>_.
        bind_exec (reap_leases E M alive now window ls) (\<lambda>rest.
        pure_exec (Inr (i # rest)))))) s
      else reap_leases E M alive now window ls s)"

definition expire_stale ::
  "('z) manager_env_scheme \<Rightarrow> session_manager \<Rightarrow> int \<Rightarrow> int \<Rightarrow> (process_evidence \<Rightarrow> bool) \<Rightarrow>
     string list session_exec" where
  "expire_stale E M now window alive =
     bind_exec (pure_exec (ensure (window > 0) InvalidStaleWindow)) (\<lambda>_.
     bind_exec registry_lock (\<lambda>_.
     bind_exec (scan_records E M) (\<lambda>found.
     bind_exec (reap_pending E M now found) (\<lambda>_.
     bind_exec (list_unlocked E M) (\<lambda>leases.
     bind_exec (reap_leases E M alive now window leases) (\<lambda>expired.
     pure_exec (Inr (sort expired))))))))"

definition default_stale_after_seconds :: int where
  "default_stale_after_seconds = 30"

definition reconcile_stale ::
  "('z) manager_env_scheme \<Rightarrow> session_manager \<Rightarrow> int \<Rightarrow> string list session_exec" where
  "reconcile_stale E M now s = expire_stale E M now default_stale_after_seconds (processes s) s"

section \<open>Gateway modes that close admission\<close>

text \<open>The innermost mode record that covers the binding; the first of equal specificity wins.\<close>

fun select_mode ::
  "('z) manager_env_scheme \<Rightarrow> provider_id \<Rightarrow> string \<Rightarrow> string \<Rightarrow> path list \<Rightarrow> (nat \<times> bool) option \<Rightarrow>
     (nat \<times> bool) option session_exec" where
  "select_mode E p repository workspace [] selected s = (Inr selected, s)"
| "select_mode E p repository workspace (file # rest) selected s =
     (if hidden (last file) then select_mode E p repository workspace rest selected s
      else bind_exec (pure_exec (ok_or (strip_suffix ''.json'' (last file)) (UnexpectedModeEntry file))) (\<lambda>encoded.
        bind_exec (on_modes (load (mode_env E) 1 file)) (\<lambda>found.
        bind_exec (pure_exec (ok_or found GatewayNotInstalled)) (\<lambda>snapshot.
        (let m = snapshot_value snapshot in
        bind_exec (pure_exec (verify_mode_state E m)) (\<lambda>_.
        bind_exec (pure_exec (target_key E (mode_target m))) (\<lambda>key.
        bind_exec (pure_exec (ensure (encode_path_segment key = encoded) SessionPathMismatch)) (\<lambda>_.
        select_mode E p repository workspace rest
          (if matches_binding (mode_target m) p repository workspace \<and>
              (case selected of None \<Rightarrow> True | Some current \<Rightarrow> specificity (mode_target m) > fst current)
           then Some (specificity (mode_target m), mode_admission_open m) else selected)))))))) s)"

definition gateway_admission_blocked ::
  "('z) manager_env_scheme \<Rightarrow> session_manager \<Rightarrow> provider_id \<Rightarrow> string \<Rightarrow> string \<Rightarrow> bool session_exec" where
  "gateway_admission_blocked E M p repository workspace =
     bind_exec (on_modes (read_dir (get_gateway_modes_dir (manager_root M)))) (\<lambda>paths.
     bind_exec (select_mode E p repository workspace paths None) (\<lambda>selected.
     pure_exec (Inr (case selected of None \<Rightarrow> False | Some (_, opened) \<Rightarrow> \<not> opened))))"

section \<open>Bootstrapping a session\<close>

fun le_bytes :: "nat \<Rightarrow> nat \<Rightarrow> string" where
  "le_bytes 0 x = []"
| "le_bytes (Suc n) x = char_of (x mod 256) # le_bytes n (x div 256)"

definition bootstrap_session_id :: "('z) hashing_scheme \<Rightarrow> session_manager \<Rightarrow> string \<Rightarrow> int \<Rightarrow> string" where
  "bootstrap_session_id H M secret now =
     ''session-'' @ take 32 (digest_bytes H (secret @ le_bytes 8 (nat (now mod 2 ^ 64)) @
       le_bytes 4 (unat (manager_pid M))))"

definition prepare_bootstrap ::
  "('z) manager_env_scheme \<Rightarrow> session_manager \<Rightarrow> bootstrap_request \<Rightarrow> int \<Rightarrow> bootstrap_authority session_exec" where
  "prepare_bootstrap E M request now =
     bind_exec (pure_exec (authority_key M)) (\<lambda>k.
     bind_exec (checked (validate_request E request now)) (\<lambda>_.
     bind_exec (reconcile_stale E M now) (\<lambda>_.
     bind_exec registry_lock (\<lambda>_.
     bind_exec secure_random_secret (\<lambda>secret.
     (let i = bootstrap_session_id E M secret now in
     bind_exec (checked (pending_from_request E k i request (digest_bytes E secret) now)) (\<lambda>p.
     bind_exec (pure_exec (map_err LeaseState (new_owner (''bootstrap-'' @ i) 1))) (\<lambda>owner.
     bind_exec (on_sessions (compare_and_swap (record_env E) session_lease_store_schema_v3
        (get_session_lease_path (manager_root M) i) None owner (SessionPending p))) (\<lambda>_.
     pure_exec (Inr \<lparr>authority_session_id = i, authority_secret = secret\<rparr>))))))))))"

fun pending_claim :: "session_record \<Rightarrow> lease_error + pending_bootstrap" where
  "pending_claim (SessionPending p) = Inr p"
| "pending_claim (Established _) = Inl BootstrapAlreadyConsumed"

record claimed_session =
  claimed_lease :: lease_snapshot
  claimed_handle :: session_handle

text \<open>What must hold of the pending claim before it may become a lease.\<close>

definition check_claim ::
  "('z) manager_env_scheme \<Rightarrow> session_manager \<Rightarrow> bootstrap_authority \<Rightarrow> connection_claim \<Rightarrow> int \<Rightarrow>
     pending_bootstrap \<Rightarrow> unit session_exec" where
  "check_claim E M auth claim now p =
     bind_exec (pure_exec (ensure (\<not> pend_bootstrap_expires_at p \<le> now) BootstrapExpired)) (\<lambda>_.
     bind_exec (pure_exec (ensure (constant_time_equal (pend_secret_digest p)
        (digest_bytes E (authority_secret auth))) BootstrapAuthenticationFailed)) (\<lambda>_.
     bind_exec (pure_exec (ensure (matches_claim E p claim) SessionBindingMismatch)) (\<lambda>_.
     bind_exec (if requires_gateway_routing (exposure_profile (pend_exposure p))
        then gateway_admission_blocked E M (pend_provider p) (pend_repository_key p) (pend_workspace_key p)
        else pure_exec (Inr False)) (\<lambda>blocked.
     bind_exec (pure_exec (ensure (\<not> blocked) GatewayAdmissionClosed)) (\<lambda>_.
     bind_exec (list_unlocked E M) (\<lambda>leases.
     pure_exec (ensure (\<not> list_ex (\<lambda>c. contributes_active_intent (lease_lifecycle (snapshot_lease c)) \<and>
        connection_scope_digest (snapshot_lease c) = pend_connection_scope_digest p) leases)
        MultiplexedConnection)))))))"

text \<open>A stale revision at the last write means that somebody else has claimed.\<close>

fun claim_error :: "lease_error \<Rightarrow> lease_error" where
  "claim_error (LeaseState (StaleRevision x y)) = BootstrapAlreadyConsumed"
| "claim_error e = e"

definition claim_result :: "'a session_exec \<Rightarrow> 'a session_exec" where
  "claim_result m s = (case m s of (r, t) \<Rightarrow> (map_err claim_error r, t))"

definition claim_bootstrap ::
  "('z) manager_env_scheme \<Rightarrow> session_manager \<Rightarrow> bootstrap_authority \<Rightarrow> connection_claim \<Rightarrow> int \<Rightarrow>
     claimed_session session_exec" where
  "claim_bootstrap E M auth claim now =
     (let path = get_session_lease_path (manager_root M) (authority_session_id auth) in
     bind_exec (pure_exec (authority_key M)) (\<lambda>k.
     bind_exec (checked (validate_claim claim)) (\<lambda>_.
     bind_exec (load_verified E M k path) (\<lambda>preflight.
     bind_exec (pure_exec (pending_claim (snapshot_value preflight))) (\<lambda>early.
     bind_exec (acquire_transition_admission (pend_protected_resources early)) (\<lambda>_.
     bind_exec registry_lock (\<lambda>_.
     bind_exec (load_verified E M k path) (\<lambda>snapshot.
     bind_exec (pure_exec (pending_claim (snapshot_value snapshot))) (\<lambda>p.
     bind_exec (check_claim E M auth claim now p) (\<lambda>_.
     bind_exec secure_random_secret (\<lambda>secret.
     (let h = \<lparr>handle_session_id = pend_session_id p, handle_owner_id = claim_connection_owner_id claim,
               handle_secret = secret\<rparr> in
     bind_exec (checked (into_lease E k p claim (digest_bytes E secret) now)) (\<lambda>l.
     bind_exec (pure_exec (ok_or (checked_succ (generation (snapshot_owner snapshot)))
        OwnerGenerationOverflow)) (\<lambda>g.
     bind_exec (pure_exec (map_err LeaseState (new_owner (claim_connection_owner_id claim) g))) (\<lambda>owner.
     bind_exec (claim_result (replace_record E path (snapshot_schema_version snapshot)
        (snapshot_revision snapshot) owner (Established l))) (\<lambda>revision.
     pure_exec (Inr \<lparr>claimed_lease = \<lparr>lease_revision = revision, snapshot_lease = l\<rparr>,
        claimed_handle = h\<rparr>)))))))))))))))))"

definition cancel_bootstrap ::
  "('z) manager_env_scheme \<Rightarrow> session_manager \<Rightarrow> bootstrap_authority \<Rightarrow> unit session_exec" where
  "cancel_bootstrap E M auth =
     bind_exec (pure_exec (authority_key M)) (\<lambda>k.
     bind_exec registry_lock (\<lambda>_.
     bind_exec (load_verified E M k (get_session_lease_path (manager_root M) (authority_session_id auth)))
       (\<lambda>snapshot.
     bind_exec (pure_exec (pending_claim (snapshot_value snapshot))) (\<lambda>p.
     bind_exec (pure_exec (ensure (constant_time_equal (pend_secret_digest p)
        (digest_bytes E (authority_secret auth))) BootstrapAuthenticationFailed)) (\<lambda>_.
     remove_compatible_record E M (authority_session_id auth) (snapshot_revision snapshot))))))"

section \<open>Transition plans and active leases\<close>

text \<open>The outcome of the conflict check; the last one is the panic of \<open>expect\<close> on the conflict code.\<close>

datatype conflict_check = NoConflict | ConflictWith string | ConflictPanic

definition session_conflict :: "string \<Rightarrow> conflict_check" where
  "session_conflict c = (if valid_code c then ConflictWith c else ConflictPanic)"

text \<open>The first protected resource of the first active lease, not allowed to proceed, that the plan touches.\<close>

fun first_lease_conflict :: "(session_lease \<Rightarrow> bool) \<Rightarrow> string list \<Rightarrow> lease_snapshot list \<Rightarrow> string option" where
  "first_lease_conflict allowed resources [] = None"
| "first_lease_conflict allowed resources (s # ss) =
     (let l = snapshot_lease s in
      if \<not> contributes_active_intent (lease_lifecycle l) \<or> allowed l
      then first_lease_conflict allowed resources ss
      else case find (\<lambda>r. r \<in> set resources) (protected_resources l) of
          Some r \<Rightarrow> Some r
        | None \<Rightarrow> first_lease_conflict allowed resources ss)"

definition acquire_with_allowed_lease ::
  "('z) manager_env_scheme \<Rightarrow> session_manager \<Rightarrow> transition_plan \<Rightarrow> (session_lease \<Rightarrow> bool) \<Rightarrow> session_state \<Rightarrow>
     conflict_check \<times> session_state" where
  "acquire_with_allowed_lease E M plan allowed s =
     (let resources = map resource_id (effects plan) in
      case bind_exec (acquire_transition_admission resources) (\<lambda>_.
           bind_exec registry_lock (\<lambda>_. list_unlocked E M)) s of
        (Inl _, t) \<Rightarrow> (session_conflict ''session-state-unavailable'', t)
      | (Inr leases, t) \<Rightarrow>
          ((case first_lease_conflict allowed resources leases of
              None \<Rightarrow> NoConflict
            | Some r \<Rightarrow> session_conflict (''active-lease-'' @ r)), t))"

definition acquire_session_conflict ::
  "('z) manager_env_scheme \<Rightarrow> session_manager \<Rightarrow> transition_plan \<Rightarrow> session_state \<Rightarrow> conflict_check \<times> session_state" where
  "acquire_session_conflict E M plan = acquire_with_allowed_lease E M plan (\<lambda>_. False)"

definition acquire_gateway_workflow ::
  "('z) manager_env_scheme \<Rightarrow> session_manager \<Rightarrow> transition_plan \<Rightarrow> gateway_mode_target \<Rightarrow> bool \<Rightarrow> session_state \<Rightarrow>
     conflict_check \<times> session_state" where
  "acquire_gateway_workflow E M plan tgt allow_forced_drain =
     acquire_with_allowed_lease E M plan (\<lambda>l. allow_forced_drain \<and> target_matches tgt l \<and>
       requires_gateway_routing (exposure_profile (desired_exposure l)))"

end
