(* ===== verification/Gateway_Mode.thy ===== *)
theory Gateway_Mode
  imports Session_Registry
begin

text \<open>
  The gateway mode manager of \<open>sessions/mode.rs\<close>: a mode record per target is installed, activated,
  turned off (refusing while leases route through it, or by force) and detached.
\<close>

section \<open>The mode records\<close>

datatype force_mode = ForceNo | ForceYes

record gateway_mode_snapshot =
  mode_revision :: state_revision
  snapshot_mode :: gateway_mode_state

record gateway_mode_outcome =
  outcome_mode :: gateway_mode_state
  draining_sessions :: "string list"

definition new_mode_state ::
  "('z) manager_env_scheme \<Rightarrow> gateway_mode_target \<Rightarrow> string \<Rightarrow> int \<Rightarrow> lease_error + gateway_mode_state" where
  "new_mode_state E tgt actor now =
     seal_mode E \<lparr>mode_target = tgt, mode_installation = Detached, mode_routing = RoutingOff,
       mode_admission_open = False, mode_changed_at = now, mode_changed_by = actor, mode_integrity_digest = []\<rparr>"

definition mode_path ::
  "('z) manager_env_scheme \<Rightarrow> session_manager \<Rightarrow> gateway_mode_target \<Rightarrow> lease_error + path" where
  "mode_path E M tgt =
     and_then (target_key E tgt) (\<lambda>key. Inr (get_gateway_mode_path (manager_root M) key))"

definition check_mode_target :: "('z) manager_env_scheme \<Rightarrow> gateway_mode_target \<Rightarrow> gateway_mode_state \<Rightarrow> lease_error + unit" where
  "check_mode_target E tgt m =
     and_then (verify_mode_state E m) (\<lambda>_.
     ensure (mode_target m = tgt) (InvalidState (InvalidText ''gateway mode target does not match state path'')))"

definition load_mode ::
  "('z) manager_env_scheme \<Rightarrow> session_manager \<Rightarrow> gateway_mode_target \<Rightarrow> gateway_mode_snapshot option session_exec" where
  "load_mode E M tgt =
     bind_exec (pure_exec (mode_path E M tgt)) (\<lambda>path.
     bind_exec (on_modes (load (mode_env E) 1 path)) (\<lambda>found.
     bind_exec (pure_exec (if_some found (\<lambda>c. check_mode_target E tgt (snapshot_value c)))) (\<lambda>_.
     pure_exec (Inr (map_option (\<lambda>c. \<lparr>mode_revision = snapshot_revision c, snapshot_mode = snapshot_value c\<rparr>)
       found)))))"

text \<open>The record a change starts from: the stored one, or a new one in generation 1.\<close>

definition mode_base ::
  "('z) manager_env_scheme \<Rightarrow> gateway_mode_target \<Rightarrow> string \<Rightarrow> int \<Rightarrow> gateway_mode_state state_snapshot option \<Rightarrow>
     lease_error + (state_revision option \<times> u64 \<times> gateway_mode_state)" where
  "mode_base E tgt actor now current =
     (case current of
        Some c \<Rightarrow>
          and_then (check_mode_target E tgt (snapshot_value c)) (\<lambda>_.
          and_then (ok_or (checked_succ (generation (snapshot_owner c))) OwnerGenerationOverflow) (\<lambda>g.
          Inr (Some (snapshot_revision c), g, snapshot_value c)))
      | None \<Rightarrow> and_then (new_mode_state E tgt actor now) (\<lambda>m. Inr (None, 1, m)))"

type_synonym mode_change = "gateway_mode_state \<Rightarrow> lease_error + gateway_mode_state"

definition update_mode ::
  "('z) manager_env_scheme \<Rightarrow> session_manager \<Rightarrow> gateway_mode_target \<Rightarrow> string \<Rightarrow> int \<Rightarrow> mode_change \<Rightarrow>
     gateway_mode_snapshot session_exec" where
  "update_mode E M tgt actor now change =
     bind_exec (pure_exec (validate_mode_target tgt)) (\<lambda>_.
     bind_exec (checked (lease_identifier ''gateway mode actor'' actor)) (\<lambda>_.
     bind_exec (pure_exec (mode_path E M tgt)) (\<lambda>path.
     bind_exec (on_modes (load (mode_env E) 1 path)) (\<lambda>current.
     bind_exec (pure_exec (mode_base E tgt actor now current)) (\<lambda>(expected, g, m).
     bind_exec (pure_exec (change m)) (\<lambda>changed.
     bind_exec (pure_exec (seal_mode E (changed\<lparr>mode_changed_at := now, mode_changed_by := actor\<rparr>))) (\<lambda>sealed.
     bind_exec (pure_exec (map_err LeaseState (new_owner actor g))) (\<lambda>owner.
     bind_exec (on_modes (compare_and_swap (mode_env E) 1 path expected owner sealed)) (\<lambda>revision.
     pure_exec (Inr \<lparr>mode_revision = revision, snapshot_mode = sealed\<rparr>))))))))))"

section \<open>Operations\<close>

definition install_change :: mode_change where
  "install_change m =
     Inr (m\<lparr>mode_installation := Installed, mode_routing := RoutingOff, mode_admission_open := False\<rparr>)"

definition activate_change :: mode_change where
  "activate_change m =
     and_then (ensure (mode_installation m = Installed) GatewayNotInstalled) (\<lambda>_.
     Inr (m\<lparr>mode_routing := RoutingActive, mode_admission_open := True\<rparr>))"

definition fence_change :: "bool \<Rightarrow> mode_change" where
  "fence_change idle m =
     (let closed = m\<lparr>mode_admission_open := False\<rparr> in
      Inr (if idle then closed\<lparr>mode_routing := RoutingOff\<rparr> else closed))"

definition off_change :: mode_change where
  "off_change m = Inr (m\<lparr>mode_routing := RoutingOff, mode_admission_open := False\<rparr>)"

definition detach_change :: mode_change where
  "detach_change m =
     Inr (m\<lparr>mode_routing := RoutingOff, mode_installation := Detached, mode_admission_open := False\<rparr>)"

definition install_mode where
  "install_mode E M tgt actor now = bind_exec registry_lock (\<lambda>_. update_mode E M tgt actor now install_change)"

definition activate_mode where
  "activate_mode E M tgt actor now = bind_exec registry_lock (\<lambda>_. update_mode E M tgt actor now activate_change)"

text \<open>The leases that route through the target.\<close>

definition routes_through :: "gateway_mode_target \<Rightarrow> session_lease \<Rightarrow> bool" where
  "routes_through tgt l \<longleftrightarrow> target_matches tgt l \<and>
     requires_gateway_routing (exposure_profile (desired_exposure l)) \<and>
     contributes_active_intent (lease_lifecycle l)"

fun drain_each ::
  "('z) manager_env_scheme \<Rightarrow> session_manager \<Rightarrow> string \<Rightarrow> int \<Rightarrow> lease_snapshot list \<Rightarrow> string list session_exec" where
  "drain_each E M actor now [] s = (Inr [], s)"
| "drain_each E M actor now (l # ls) s =
     bind_exec (if lease_lifecycle (snapshot_lease l) = LeaseActive
        then begin_revoke_unlocked E M l actor now else pure_exec (Inr l)) (\<lambda>revoked.
     bind_exec (remove_drained_unlocked E M revoked actor now) (\<lambda>removed.
     bind_exec (drain_each E M actor now ls) (\<lambda>rest.
     pure_exec (Inr (if removed then rest else lease_session_id (snapshot_lease revoked) # rest))))) s"

definition turn_off_unlocked ::
  "('z) manager_env_scheme \<Rightarrow> session_manager \<Rightarrow> gateway_mode_target \<Rightarrow> force_mode \<Rightarrow> string \<Rightarrow> int \<Rightarrow>
     gateway_mode_outcome session_exec" where
  "turn_off_unlocked E M tgt force actor now =
     bind_exec (list_unlocked E M) (\<lambda>leases.
     (let matching = filter (\<lambda>l. routes_through tgt (snapshot_lease l)) leases in
     bind_exec (pure_exec (ensure (\<not> (force = ForceNo \<and> matching \<noteq> []))
        (ActiveLeases (map (lease_session_id \<circ> snapshot_lease) matching)))) (\<lambda>_.
     bind_exec (update_mode E M tgt actor now (fence_change (matching = []))) (\<lambda>fenced.
     bind_exec (if force = ForceYes then drain_each E M actor now matching else pure_exec (Inr [])) (\<lambda>drained.
     (let draining = sort drained in
     bind_exec (if draining = [] \<and> mode_routing (snapshot_mode fenced) \<noteq> RoutingOff
        then update_mode E M tgt actor now off_change else pure_exec (Inr fenced)) (\<lambda>final.
     pure_exec (Inr \<lparr>outcome_mode = snapshot_mode final, draining_sessions = draining\<rparr>))))))))"

definition turn_off ::
  "('z) manager_env_scheme \<Rightarrow> session_manager \<Rightarrow> gateway_mode_target \<Rightarrow> force_mode \<Rightarrow> string \<Rightarrow> int \<Rightarrow>
     gateway_mode_outcome session_exec" where
  "turn_off E M tgt force actor now =
     bind_exec (pure_exec (validate_mode_target tgt)) (\<lambda>_.
     bind_exec (checked (lease_identifier ''gateway mode actor'' actor)) (\<lambda>_.
     bind_exec (reconcile_stale E M now) (\<lambda>_.
     bind_exec registry_lock (\<lambda>_.
     turn_off_unlocked E M tgt force actor now))))"

definition detach_mode ::
  "('z) manager_env_scheme \<Rightarrow> session_manager \<Rightarrow> gateway_mode_target \<Rightarrow> force_mode \<Rightarrow> string \<Rightarrow> int \<Rightarrow>
     gateway_mode_outcome session_exec" where
  "detach_mode E M tgt force actor now =
     bind_exec (pure_exec (validate_mode_target tgt)) (\<lambda>_.
     bind_exec (checked (lease_identifier ''gateway mode actor'' actor)) (\<lambda>_.
     bind_exec (reconcile_stale E M now) (\<lambda>_.
     bind_exec registry_lock (\<lambda>_.
     bind_exec (turn_off_unlocked E M tgt force actor now) (\<lambda>off.
     bind_exec (pure_exec (ensure (\<not> (draining_sessions off \<noteq> [] \<or> mode_routing (outcome_mode off) \<noteq> RoutingOff))
        GatewayMustBeOff)) (\<lambda>_.
     bind_exec (update_mode E M tgt actor now detach_change) (\<lambda>final.
     pure_exec (Inr \<lparr>outcome_mode = snapshot_mode final, draining_sessions = []\<rparr>))))))))"

end
