(* ===== verification/Session_Safety.thy ===== *)
theory Session_Safety
  imports Session_Registry
begin

text \<open>
  What the session registry guarantees: a bootstrap is claimed once, by the process it was prepared
  for; an older lease put back in place of the newest is not loaded; a lease keeps its identity and its
  workflow and is never reopened; and the conflict check panics on resources it cannot name.
\<close>

section \<open>Stores under the session state\<close>

lemma checked_ok [simp]: "checked r s = (Inr x, t) \<longleftrightarrow> r = Inr x \<and> t = s"
  by (auto simp: checked_def)

lemma on_sessions_ok [simp]:
  "on_sessions m s = (Inr x, t) \<longleftrightarrow> (\<exists>d. m (session_files s) = (Inr x, d) \<and> t = s\<lparr>session_files := d\<rparr>)"
  by (auto simp: on_sessions_def split: prod.splits)

lemma on_waters_ok:
  "on_waters m s = (r, t) \<longleftrightarrow> (\<exists>d. m (water_files s) = (r, d) \<and> t = s\<lparr>water_files := d\<rparr>)"
  by (auto simp: on_waters_def split: prod.splits)

lemma water_result_ok [simp]: "water_result m s = (Inr x, t) \<longleftrightarrow> m s = (Inr x, t)"
  by (auto simp: water_result_def split: prod.splits)

lemma water_state_ok [simp]: "water_state m d = (Inr x, t) \<longleftrightarrow> m d = (Inr x, t)"
  by (auto simp: water_state_def split: prod.splits)

lemma claim_result_ok [simp]: "claim_result m s = (Inr x, t) \<longleftrightarrow> m s = (Inr x, t)"
  by (auto simp: claim_result_def split: prod.splits)

lemma load_compatible_ok:
  "load_compatible E schema compatible p d = (Inr found, t) \<Longrightarrow>
     files t = files d \<and> read_snapshot_compatible E p schema compatible (files d) = Inr found"
  by (auto simp: load_compatible_def bind_exec_ok dest!: access_result)

lemma stored_compatible:
  "stored E schema d p = Inr (Some v) \<Longrightarrow>
     read_snapshot_compatible E p schema compatible (files d) = Inr (Some v)"
  by (auto simp: read_snapshot_def read_snapshot_compatible_def split: option.splits node.splits sum.splits)

abbreviation lease_file where
  "lease_file M i \<equiv> get_session_lease_path (manager_root M) i"

definition stored_record ::
  "('z) manager_env_scheme \<Rightarrow> session_state \<Rightarrow> path \<Rightarrow> state_error + session_record state_snapshot option" where
  "stored_record E s p = read_snapshot_compatible (record_env E) p session_lease_store_schema_v3
     [session_lease_store_schema_v2] (files (session_files s))"

lemma load_verified_ok:
  assumes "load_verified E M k p s = (Inr v, t)"
  shows "stored_record E s p = Inr (Some v)"
    "verify_record E k (snapshot_schema_version v) (snapshot_value v) = Inr ()"
    "files (session_files t) = files (session_files s)" "water_files t = water_files s"
  using assms
  by (auto simp: load_verified_def load_record_def bind_exec_ok stored_record_def dest: load_compatible_ok)

lemma migrating_stores:
  assumes "compare_and_swap_migrating_schema E schema p expected old owner v d = (Inr rv, t)"
  shows "stored E schema t p = Inr (Some (snapshot_of schema rv owner v))"
proof -
  from assms obtain f d' current seq where
    a: "validate_owner_generation owner = Inr ()" "read_snapshot E p old (files d') = Inr (Some current)"
      "next_sequence (Some current) = Inr seq"
    and w: "write_document E p schema seq owner v f d' = (Inr rv, t)"
    unfolding compare_and_swap_migrating_schema_def by (auto simp: bind_exec_ok)
  have "seq \<noteq> 0"
    by (rule next_sequence_ok(1) [OF a(3)]) (use read_snapshot_schema(2) [OF a(2)] in simp)
  from write_document_result [OF w this a(1)] show ?thesis by auto
qed

lemma replace_record_stores:
  assumes "replace_record E p schema expected owner r s = (Inr rv, t)"
  shows "stored_record E t p = Inr (Some (snapshot_of session_lease_store_schema_v3 rv owner r))"
    "water_files t = water_files s"
  using assms
  by (auto simp: replace_record_def stored_record_def split: if_splits
      intro!: stored_compatible dest: migrating_stores compare_and_swap_ok(1))

section \<open>A bootstrap is claimed once\<close>

lemma into_lease_ok:
  assumes "into_lease E k p c owner_digest now = Inr l"
  shows "verify_lease E k session_lease_store_schema_v3 l = Inr ()" "lease_lifecycle l = LeaseActive"
    "lease_session_id l = pend_session_id p" "lease_provider l = pend_provider p"
    "lease_repository_key l = pend_repository_key p" "lease_workspace_key l = pend_workspace_key p"
    "lease_process l = pend_process p" "connection_owner_id l = claim_connection_owner_id c"
    "connection_scope_digest l = pend_connection_scope_digest p"
    "observed_exposure l = pend_exposure p" "protected_resources l = pend_protected_resources p"
    "owner_secret_digest l = owner_digest"
  using assms by (auto simp: into_lease_def seal_lease_def Let_def)

lemma claim_needs_pending:
  assumes "stored_record E s (lease_file M (authority_session_id auth)) = Inr (Some v)"
    "snapshot_value v = Established l"
  shows "claim_bootstrap E M auth claim now s \<noteq> (Inr c, t)"
  using assms
  by (auto simp: claim_bootstrap_def Let_def bind_exec_ok dest!: load_verified_ok(1))

text \<open>The lease that a successful claim stores is the one the bootstrap was prepared for.\<close>

definition lease_of_claim :: "('z) hashing_scheme \<Rightarrow> bootstrap_authority \<Rightarrow> connection_claim \<Rightarrow> pending_bootstrap \<Rightarrow>
    session_lease \<Rightarrow> bool" where
  "lease_of_claim H auth claim p l \<longleftrightarrow>
     pend_secret_digest p = digest_bytes H (authority_secret auth) \<and>
     lease_lifecycle l = LeaseActive \<and> lease_provider l = claim_provider claim \<and>
     lease_repository_key l = claim_binding_repository_key claim \<and>
     lease_workspace_key l = claim_binding_workspace_key claim \<and> lease_process l = claim_process claim \<and>
     connection_owner_id l = claim_connection_owner_id claim \<and>
     connection_scope_digest l = digest_bytes H (claim_connection_scope_id claim) \<and>
     observed_exposure l = pend_exposure p \<and> protected_resources l = pend_protected_resources p"

lemma check_claim_ok:
  assumes "check_claim E M auth claim now p s = (Inr u, t)"
  shows "now < pend_bootstrap_expires_at p" "pend_secret_digest p = digest_bytes E (authority_secret auth)"
    "matches_claim E p claim"
  using assms by (auto simp: check_claim_def bind_exec_ok)

lemma acquire_lock_sessions: "acquire_lock s = (Inr u, t) \<Longrightarrow> session_files t = session_files s"
  by (auto simp: acquire_lock_def split: list.splits option.splits)

lemma acquire_each_sessions: "acquire_each_admission rs s = (Inr u, t) \<Longrightarrow> session_files t = session_files s"
  by (induction rs arbitrary: s)
    (auto simp: bind_exec_ok dest!: acquire_lock_sessions)

text \<open>
  The bootstrap that a claim may take: the pending record stored under the session of the authority,
  authentic, unexpired, and prepared with the secret that the authority presents.
\<close>

definition claimable ::
  "('z) manager_env_scheme \<Rightarrow> session_manager \<Rightarrow> bootstrap_authority \<Rightarrow> int \<Rightarrow> session_state \<Rightarrow> pending_bootstrap \<Rightarrow> bool" where
  "claimable E M auth now s p \<longleftrightarrow>
     (\<exists>k v. manager_key M = Some k \<and>
        stored_record E s (lease_file M (authority_session_id auth)) = Inr (Some v) \<and>
        snapshot_value v = SessionPending p \<and>
        verify_record E k (snapshot_schema_version v) (SessionPending p) = Inr () \<and>
        pend_secret_digest p = digest_bytes E (authority_secret auth) \<and> now < pend_bootstrap_expires_at p)"

lemma claim_bootstrap_ok:
  assumes "claim_bootstrap E M auth claim now s = (Inr c, t)"
  obtains k p v where "manager_key M = Some k" "claimable E M auth now s p"
    "lease_of_claim E auth claim p (snapshot_lease (claimed_lease c))"
    "now < pend_bootstrap_expires_at p"
    "stored_record E t (lease_file M (authority_session_id auth)) = Inr (Some v)"
    "snapshot_value v = Established (snapshot_lease (claimed_lease c))"
    "verify_handle E (snapshot_lease (claimed_lease c)) (claimed_handle c) = Inr ()"
proof -
  let ?file = "lease_file M (authority_session_id auth)"
  from assms obtain k early rs s1 s2 s3 s4 s5 s6 snapshot p owner schema revision l secret where
    k: "authority_key M = Inr k"
    and first: "load_verified E M k ?file s = (Inr early, s1)"
    and locks: "acquire_each_admission rs s1 = (Inr (), s2)" "acquire_lock s2 = (Inr (), s3)"
    and load: "load_verified E M k ?file s3 = (Inr snapshot, s4)"
    and p: "pending_claim (snapshot_value snapshot) = Inr p"
    and check: "check_claim E M auth claim now p s4 = (Inr (), s5)"
    and l: "into_lease E k p claim (digest_bytes E secret) now = Inr l"
    and w: "replace_record E ?file schema revision owner (Established l) s6 = (Inr (lease_revision (claimed_lease c)), t)"
    and c: "snapshot_lease (claimed_lease c) = l" "claimed_handle c = \<lparr>handle_session_id = pend_session_id p,
        handle_owner_id = claim_connection_owner_id claim, handle_secret = secret\<rparr>"
    by (auto simp: claim_bootstrap_def Let_def bind_exec_ok acquire_transition_admission_def registry_lock_def)
  note l = into_lease_ok [OF l] and check = check_claim_ok [OF check]
  have "files (session_files s3) = files (session_files s)"
    using load_verified_ok(3) [OF first] acquire_each_sessions [OF locks(1)] acquire_lock_sessions [OF locks(2)] by simp
  then have "stored_record E s ?file = Inr (Some snapshot)"
    using load_verified_ok(1) [OF load] by (simp add: stored_record_def)
  moreover have "snapshot_value snapshot = SessionPending p"
    using p by (cases "snapshot_value snapshot") simp_all
  ultimately have claimable: "claimable E M auth now s p"
    using k load_verified_ok(2) [OF load] check(1,2) by (auto simp: claimable_def authority_key_def)
  show thesis
  proof (rule that [OF _ claimable _ check(1) replace_record_stores(1) [OF w]])
    show "manager_key M = Some k" using k by (simp add: authority_key_def)
    show "lease_of_claim E auth claim p (snapshot_lease (claimed_lease c))"
      using l check(2,3) c by (simp add: lease_of_claim_def matches_claim_def)
    show "verify_handle E (snapshot_lease (claimed_lease c)) (claimed_handle c) = Inr ()"
      using l c by (simp add: verify_handle_def)
  qed (simp add: c)
qed

text \<open>
  C31: A bootstrap is claimed once. A claim succeeds only on the pending bootstrap stored under its
  session, which is authentic, has not expired and was prepared with the secret that the claim
  presents; the active lease it stores belongs to exactly the claiming provider, repository,
  workspace, process and connection, with the exposure and the protected resources of that bootstrap;
  the new handle is its owner. In the state it leaves, no claim of the same session, with any secret,
  from any connection and at any time, succeeds again.
\<close>

theorem bootstrap_is_claimed_once:
  "case claim_bootstrap E M auth claim now s of
     (Inl _, _) \<Rightarrow> True
   | (Inr c, t) \<Rightarrow>
       (\<exists>p. claimable E M auth now s p \<and>
          lease_of_claim E auth claim p (snapshot_lease (claimed_lease c))) \<and>
       verify_handle E (snapshot_lease (claimed_lease c)) (claimed_handle c) = Inr () \<and>
       \<not> (\<exists>c' u. claim_bootstrap E M (auth\<lparr>authority_secret := secret'\<rparr>) claim' now' t = (Inr c', u))"
proof (cases "claim_bootstrap E M auth claim now s")
  case (Pair r t)
  show ?thesis
  proof (cases r)
    case (Inr c)
    with Pair obtain p v where claimed: "claimable E M auth now s p"
      "lease_of_claim E auth claim p (snapshot_lease (claimed_lease c))"
      "verify_handle E (snapshot_lease (claimed_lease c)) (claimed_handle c) = Inr ()"
      and v: "stored_record E t (lease_file M (authority_session_id auth)) = Inr (Some v)"
      "snapshot_value v = Established (snapshot_lease (claimed_lease c))"
      by (auto elim: claim_bootstrap_ok)
    have "claim_bootstrap E M (auth\<lparr>authority_secret := secret'\<rparr>) claim' now' t \<noteq> (Inr c', u)" for c' u
      using claim_needs_pending [of E t M "auth\<lparr>authority_secret := secret'\<rparr>"] v by simp
    with claimed Pair Inr show ?thesis by auto
  qed (simp add: Pair)
qed

section \<open>An older lease is not loaded\<close>

abbreviation water_file where
  "water_file M i \<equiv> high_water_path (manager_root M) i"

definition stored_water ::
  "('z) manager_env_scheme \<Rightarrow> session_manager \<Rightarrow> session_state \<Rightarrow> string \<Rightarrow> workflow_high_water state_snapshot option" where
  "stored_water E M s i =
     (case stored (water_env E) 1 (water_files s) (water_file M i) of Inl _ \<Rightarrow> None | Inr found \<Rightarrow> found)"

lemma load_water_ok:
  assumes "waters_load E M k i s = (Inr found, t)"
  shows "stored_water E M s i = found" "stored_water E M t i = found" "session_files t = session_files s"
  using assms
  by (auto simp: on_waters_ok load_high_water_def bind_exec_ok stored_water_def read_snapshot_def dest!: load_ok)

lemma publish_water_ok:
  assumes "waters_publish E M k i expected owner v s = (Inr rv, t)"
  obtains sealed where "seal_high_water E k v = Inr sealed" "water_session_id v = i"
    "stored_water E M t i = Some (snapshot_of 1 rv owner sealed)"
  using assms
  by (auto simp: on_waters_ok publish_high_water_def bind_exec_ok stored_water_def dest!: compare_and_swap_ok(1))

lemma seal_high_water_ok:
  "seal_high_water E k v = Inr w \<Longrightarrow> water_pending w = water_pending v \<and>
     water_lease_tag w = water_lease_tag v \<and> water_state_sequence w = water_state_sequence v \<and>
     water_sealed_generation w = water_sealed_generation v \<and>
     water_lease_schema_version w = water_lease_schema_version v"
  by (auto simp: seal_high_water_def Let_def)

lemma finalized_target_ok:
  assumes "finalized_target v = Inr w" "water_pending v = Some p"
  shows "water_pending w = None" "water_lease_tag w = target_lease_tag p"
    "water_state_sequence w = target_state_sequence p" "water_sealed_generation w = target_sealed_generation p"
  using assms by (auto simp: finalized_target_def new_high_water_def Let_def)

text \<open>Once a change is finalized, only the lease whose tag the record holds passes.\<close>

lemma reconcile_settled:
  assumes "stored_water E M s (lease_session_id l) = Some c" "water_pending (snapshot_value c) = None"
    and "reconcile_lease_high_water E M k schema l revision s = (Inr u, t)"
  obtains w where "lease_workflow l = Some w" "water_matches (snapshot_value c) schema w l"
proof (cases "waters_load E M k (lease_session_id l) s")
  case (Pair r s')
  show thesis
  proof (cases r)
    case (Inl e)
    with assms(3) Pair show thesis
      by (auto simp: reconcile_lease_high_water_def reconcile_unpinned.simps reconcile_pinned.simps
          split: option.splits)
  next
    case (Inr found)
    with Pair assms(1) load_water_ok(1) have "found = Some c" by fastforce
    with assms(2,3) Pair Inr that show thesis
      by (auto simp: reconcile_lease_high_water_def reconcile_unpinned.simps reconcile_pinned.simps
          split: option.splits if_splits)
  qed
qed

lemma load_established_ok:
  assumes "load_established_unlocked E M i s = (Inr snapshot, t)"
  obtains k v l s1 where "manager_key M = Some k" "load_verified E M k (lease_file M i) s = (Inr v, s1)"
    "snapshot_value v = Established l" "snapshot_lease snapshot = l" "lease_session_id l = i"
    "lease_revision snapshot = snapshot_revision v"
    "reconcile_lease_high_water E M k (snapshot_schema_version v) l (snapshot_revision v) s1 = (Inr (), t)"
proof -
  from assms obtain k v s1 where k: "authority_key M = Inr k"
    and v: "load_verified E M k (lease_file M i) s = (Inr v, s1)" "record_session_id (snapshot_value v) = i"
    and rest: "(case snapshot_value v of
        Established l \<Rightarrow>
          bind_exec (reconcile_lease_high_water E M k (snapshot_schema_version v) l (snapshot_revision v)) (\<lambda>_.
          pure_exec (Inr \<lparr>lease_revision = snapshot_revision v, snapshot_lease = l\<rparr>))
      | SessionPending _ \<Rightarrow> pure_exec (Inl BootstrapNotConsumed)) s1 = (Inr snapshot, t)"
    unfolding load_established_unlocked_def bind_exec_ok by auto
  show thesis
  proof (cases "snapshot_value v")
    case (Established l)
    with k v rest that show thesis by (auto simp: authority_key_def bind_exec_ok)
  qed (use rest in simp)
qed

lemma load_established_settled:
  assumes "load_established_unlocked E M i s = (Inr snapshot, t)"
    and "stored_water E M s i = Some c" "water_pending (snapshot_value c) = None"
  shows "authentication_tag (snapshot_lease snapshot) = water_lease_tag (snapshot_value c)"
    "\<exists>w. lease_workflow (snapshot_lease snapshot) = Some w \<and>
       pw_state_sequence w = water_state_sequence (snapshot_value c)"
proof -
  obtain k v l s1 where
    v: "load_verified E M k (lease_file M i) s = (Inr v, s1)" "snapshot_lease snapshot = l"
      "lease_session_id l = i"
    and r: "reconcile_lease_high_water E M k (snapshot_schema_version v) l (snapshot_revision v) s1 = (Inr (), t)"
    by (rule load_established_ok [OF assms(1)])
  have "stored_water E M s1 (lease_session_id l) = Some c"
    using assms(2) load_verified_ok(4) [OF v(1)] v(3) by (simp add: stored_water_def)
  then obtain w where "lease_workflow l = Some w" "water_matches (snapshot_value c) (snapshot_schema_version v) w l"
    by (rule reconcile_settled [OF _ assms(3) r])
  with v(2) show "authentication_tag (snapshot_lease snapshot) = water_lease_tag (snapshot_value c)"
    "\<exists>w. lease_workflow (snapshot_lease snapshot) = Some w \<and>
       pw_state_sequence w = water_state_sequence (snapshot_value c)"
    by (simp_all add: water_matches_def)
qed

text \<open>A change of a pinned lease ends with the record of the new lease.\<close>

lemma announce_transition_ok:
  assumes "announce_transition E M k i snapshot source_tag l owner s = (Inr announced, t)"
    and "lease_workflow l = Some w"
  obtains revision v p where "announced = Some (revision, v)" "water_pending v = Some p"
    "target_lease_tag p = authentication_tag l" "target_state_sequence p = pw_state_sequence w"
  using assms by (auto simp: announce_transition_def bind_exec_ok prepare_transition_def Let_def split: prod.splits)

lemma update_lease_settles:
  assumes "update_lease E M i expected actor change s = (Inr new, t)"
    and "lease_workflow (snapshot_lease new) = Some w"
  obtains c where "stored_water E M t i = Some c" "water_pending (snapshot_value c) = None"
    "water_lease_tag (snapshot_value c) = authentication_tag (snapshot_lease new)"
    "water_state_sequence (snapshot_value c) = pw_state_sequence w"
proof -
  from assms(1) obtain k snapshot source_tag owner announced g s1 s2 s3 where
    a: "announce_transition E M k i snapshot source_tag (snapshot_lease new) owner s1 = (Inr announced, s2)"
    and f: "finalize_transition E M k i actor g announced s3 = (Inr (), t)"
    by (auto simp: update_lease_def bind_exec_ok)
  from announce_transition_ok [OF a assms(2)] obtain revision v p where v:
    "announced = Some (revision, v)" "water_pending v = Some p"
    "target_lease_tag p = authentication_tag (snapshot_lease new)"
    "target_state_sequence p = pw_state_sequence w" by blast
  from f v(1) obtain final owner' rv where final: "finalized_target v = Inr final"
    "waters_publish E M k i (Some revision) owner' final s3 = (Inr rv, t)"
    by (auto simp: finalize_transition_def bind_exec_ok)
  from publish_water_ok [OF final(2)] obtain sealed where sealed: "seal_high_water E k final = Inr sealed"
    "stored_water E M t i = Some (snapshot_of 1 rv owner' sealed)" by blast
  show thesis
    using that [OF sealed(2)] seal_high_water_ok [OF sealed(1)] finalized_target_ok [OF final(1) v(2)] v(3,4)
    by simp
qed

text \<open>
  C32: An older lease put back is not loaded. After any change of a lease that pins a workflow,
  whatever the lease files are replaced with: what is loaded for the session carries the
  authentication tag and the state sequence of the lease just written, or nothing is loaded.
\<close>

theorem replayed_lease_is_rejected:
  "case update_owned_lease E M h expected now change s of
     (Inl _, _) \<Rightarrow> True
   | (Inr new, t) \<Rightarrow>
       (case lease_workflow (snapshot_lease new) of
          None \<Rightarrow> True
        | Some w \<Rightarrow>
            (case load_established_unlocked E M (handle_session_id h) (t\<lparr>session_files := replaced\<rparr>) of
               (Inl _, _) \<Rightarrow> True
             | (Inr found, _) \<Rightarrow>
                 authentication_tag (snapshot_lease found) = authentication_tag (snapshot_lease new) \<and>
                 map_option pw_state_sequence (lease_workflow (snapshot_lease found)) =
                   Some (pw_state_sequence w)))"
proof -
  let ?u = "\<lambda>t. t\<lparr>session_files := replaced\<rparr>"
  have "authentication_tag (snapshot_lease found) = authentication_tag (snapshot_lease new) \<and>
      map_option pw_state_sequence (lease_workflow (snapshot_lease found)) = Some (pw_state_sequence w)"
    if new: "update_owned_lease E M h expected now change s = (Inr new, t)"
      "lease_workflow (snapshot_lease new) = Some w"
      and found: "load_established_unlocked E M (handle_session_id h) (?u t) = (Inr found, t')"
    for new t w found t'
  proof -
    from new(1) obtain s1 where "update_lease E M (handle_session_id h) expected (handle_owner_id h)
        (owned_change E h now change) s1 = (Inr new, t)"
      by (auto simp: update_owned_lease_def bind_exec_ok)
    then obtain c where c: "stored_water E M t (handle_session_id h) = Some c"
      "water_pending (snapshot_value c) = None"
      "water_lease_tag (snapshot_value c) = authentication_tag (snapshot_lease new)"
      "water_state_sequence (snapshot_value c) = pw_state_sequence w"
      by (rule update_lease_settles [OF _ new(2)])
    have "stored_water E M (?u t) (handle_session_id h) = Some c" using c(1) by (simp add: stored_water_def)
    from load_established_settled [OF found this c(2)] c(3,4) show ?thesis by auto
  qed
  then show ?thesis by (auto split: prod.splits sum.splits option.splits)
qed

section \<open>What no operation changes\<close>

text \<open>The operations on a lease, with everything their callers may choose.\<close>

datatype owner_op =
    RequestExposure pinned_exposure
  | PinWorkflow pinned_workflow pinned_exposure
  | UpdateMode string pinned_exposure
  | DeferMode string
  | CancelTransition string pinned_exposure
  | RestoreObserved
  | Quarantine
  | Observe live_exposure_status
  | ReportRevision "string option"
  | AdmitCall string
  | FinishCall string
  | RuntimeStopped

datatype lease_op =
    Owned session_handle int owner_op
  | Heartbeat session_handle int
  | RequestRevoke string int
  | BeginRevoke int
  | CloseDrained string int
  | ReapStale int

fun owner_change :: "int \<Rightarrow> owner_op \<Rightarrow> lease_change" where
  "owner_change now (RequestExposure x) = request_exposure_change x now"
| "owner_change now (PinWorkflow w x) = pin_workflow_change w x"
| "owner_change now (UpdateMode mode x) = update_workflow_mode_change mode x"
| "owner_change now (DeferMode mode) = defer_workflow_mode_change mode"
| "owner_change now (CancelTransition mode x) = cancel_workflow_change mode x"
| "owner_change now RestoreObserved = restore_observed_change"
| "owner_change now Quarantine = quarantine_change"
| "owner_change now (Observe status) = observe_exposure_change status"
| "owner_change now (ReportRevision r) = report_revision_change r"
| "owner_change now (AdmitCall call) = admit_call_change call"
| "owner_change now (FinishCall call) = finish_call_change call"
| "owner_change now RuntimeStopped = runtime_stopped_change"

fun change_of :: "('z) hashing_scheme \<Rightarrow> lease_op \<Rightarrow> lease_change" where
  "change_of H (Owned h now op) = owned_change H h now (owner_change now op)"
| "change_of H (Heartbeat h now) = heartbeat_change H h now"
| "change_of H (RequestRevoke reason now) = request_revoke_change reason now"
| "change_of H (BeginRevoke now) = begin_revoke_change now"
| "change_of H (CloseDrained reason now) = close_change reason now LeaseClosed RequireDrained"
| "change_of H (ReapStale now) = close_change ''stale-process-or-heartbeat'' now LeaseExpired Abandon"

text \<open>\<open>update_lease\<close> seals and verifies what the change gives before it writes it.\<close>

definition commit_change ::
  "('z) lease_env_scheme \<Rightarrow> string \<Rightarrow> lease_change \<Rightarrow> session_lease \<Rightarrow> lease_error + session_lease" where
  "commit_change E k change l =
     and_then (change l) (\<lambda>l'.
     and_then (map_err lease_error_of (seal_lease E k l')) (\<lambda>sealed.
     and_then (map_err lease_error_of (verify_lease E k session_lease_store_schema_v3 sealed)) (\<lambda>_.
     Inr sealed)))"

lemma update_lease_commits:
  assumes "update_lease E M i expected actor change s = (Inr new, t)"
  obtains k v l where "manager_key M = Some k" "stored_record E s (lease_file M i) = Inr (Some v)"
    "snapshot_value v = Established l" "snapshot_revision v = expected"
    "commit_change E k change l = Inr (snapshot_lease new)"
proof -
  from assms obtain k v l s1 where "authority_key M = Inr k" "load_verified E M k (lease_file M i) s = (Inr v, s1)"
    "snapshot_revision v = expected" "established_lease (snapshot_value v) = Inr l"
    "commit_change E k change l = Inr (snapshot_lease new)"
    by (auto simp: update_lease_def bind_exec_ok commit_change_def)
  then show thesis
    using that [of k v l] load_verified_ok(1) [of E M k "lease_file M i" s v s1]
    by (cases "snapshot_value v") (auto simp: authority_key_def)
qed

fun run_lease_ops ::
  "('z) lease_env_scheme \<Rightarrow> string \<Rightarrow> lease_op list \<Rightarrow> session_lease \<Rightarrow> lease_error + session_lease" where
  "run_lease_ops E k [] l = Inr l"
| "run_lease_ops E k (op # ops) l = and_then (commit_change E k (change_of E op) l) (run_lease_ops E k ops)"

text \<open>What a lease is bound to, and what a workflow pins, apart from the mode and its counter.\<close>

definition lease_identity where
  "lease_identity l = ((lease_session_id l, lease_provider l, lease_repository_key l, lease_workspace_key l),
     (workspace_start_revision l, lease_process l, isolation l, coverage l, protected_resources l),
     (lease_expires_at l, connection_owner_id l, connection_scope_digest l, owner_secret_digest l))"

definition workflow_envelope where
  "workflow_envelope w = w\<lparr>pw_active_mode := [], pw_active_effective_profile_digest := [], pw_state_sequence := 0\<rparr>"

definition workflow_kept :: "session_lease \<Rightarrow> session_lease \<Rightarrow> bool" where
  "workflow_kept l l' \<longleftrightarrow> (case lease_workflow l of None \<Rightarrow> True | Some w \<Rightarrow>
     (case lease_workflow l' of None \<Rightarrow> False | Some w' \<Rightarrow>
        workflow_envelope w' = workflow_envelope w \<and> pw_state_sequence w \<le> pw_state_sequence w'))"

definition lease_follows :: "session_lease \<Rightarrow> session_lease \<Rightarrow> bool" where
  "lease_follows l l' \<longleftrightarrow> lease_identity l' = lease_identity l \<and>
     (lease_lifecycle l = LeaseActive \<or> lease_lifecycle l' \<noteq> LeaseActive) \<and> workflow_kept l l'"

lemma lease_follows_refl [simp]: "lease_follows l l"
  by (simp add: lease_follows_def workflow_kept_def split: option.split)

lemma lease_follows_trans: "lease_follows a b \<Longrightarrow> lease_follows b c \<Longrightarrow> lease_follows a c"
  by (auto simp: lease_follows_def workflow_kept_def split: option.splits)

lemma bump_sequence_ok:
  assumes "bump_sequence w = Inr w'"
  shows "workflow_envelope w' = workflow_envelope w" "pw_state_sequence w \<le> pw_state_sequence w'"
proof -
  from assms have w: "pw_state_sequence w \<noteq> - 1" "w' = w\<lparr>pw_state_sequence := pw_state_sequence w + 1\<rparr>"
    by (auto simp: bump_sequence_def checked_succ_def split: if_splits)
  then show "workflow_envelope w' = workflow_envelope w" by (simp add: workflow_envelope_def)
  show "pw_state_sequence w \<le> pw_state_sequence w'"
    using w unat_plus_one [OF w(1)] by (simp add: word_le_nat_alt)
qed

lemma mode_envelope [simp]:
  "workflow_envelope (w\<lparr>pw_active_mode := a, pw_active_effective_profile_digest := b\<rparr>) = workflow_envelope w"
  by (simp add: workflow_envelope_def)

lemma follows_update_workflow:
  assumes "lease_workflow l = Some w" "lease_workflow l' = Some w'"
    and "bump_sequence (w\<lparr>pw_active_mode := a, pw_active_effective_profile_digest := b\<rparr>) = Inr w'"
    and "lease_identity l' = lease_identity l" "lease_lifecycle l' = lease_lifecycle l"
  shows "lease_follows l l'"
  using assms bump_sequence_ok [OF assms(3)] by (simp add: lease_follows_def workflow_kept_def)

lemma follows_same_workflow:
  "lease_workflow l' = lease_workflow l \<Longrightarrow> lease_identity l' = lease_identity l \<Longrightarrow>
   lease_lifecycle l' = lease_lifecycle l \<or> lease_lifecycle l' \<noteq> LeaseActive \<Longrightarrow> lease_follows l l'"
  by (auto simp: lease_follows_def workflow_kept_def split: option.split)

lemma owner_change_follows: "owner_change now op l = Inr l' \<Longrightarrow> lease_follows l l'"
proof (cases op)
  case (PinWorkflow w x)
  assume "owner_change now op l = Inr l'"
  with PinWorkflow show ?thesis
    by (auto simp: pin_workflow_change_def lease_follows_def workflow_kept_def lease_identity_def)
next
  case (UpdateMode mode x)
  assume "owner_change now op l = Inr l'"
  with UpdateMode show ?thesis
    by (auto simp: update_workflow_mode_change_def lease_identity_def intro!: follows_update_workflow)
next
  case (DeferMode mode)
  assume "owner_change now op l = Inr l'"
  with DeferMode show ?thesis
    by (auto simp: defer_workflow_mode_change_def lease_identity_def intro!: follows_update_workflow)
next
  case (CancelTransition mode x)
  assume "owner_change now op l = Inr l'"
  with CancelTransition show ?thesis
    by (auto simp: cancel_workflow_change_def lease_identity_def intro!: follows_update_workflow)
qed (auto simp: request_exposure_change_def restore_observed_change_def quarantine_change_def
      observe_exposure_change_def report_revision_change_def admit_call_change_def finish_call_change_def
      runtime_stopped_change_def count_in_flight_def Let_def lease_identity_def
      intro!: follows_same_workflow split: if_splits)

lemma change_follows: "change_of H op l = Inr l' \<Longrightarrow> lease_follows l l'"
proof (cases op)
  case (Owned h now op')
  assume "change_of H op l = Inr l'"
  with Owned obtain m where "owner_change now op' l = Inr m" "l' = m\<lparr>heartbeat_at := now\<rparr>"
    by (auto simp: owned_change_def)
  moreover have "lease_follows m (m\<lparr>heartbeat_at := now\<rparr>)"
    by (rule follows_same_workflow) (simp_all add: lease_identity_def)
  ultimately show ?thesis using owner_change_follows lease_follows_trans by blast
qed (auto simp: heartbeat_change_def request_revoke_change_def begin_revoke_change_def close_change_def
      lease_identity_def intro!: follows_same_workflow split: if_splits)

lemma commit_change_follows:
  assumes "commit_change E k (change_of E op) l = Inr l'"
  shows "lease_follows l l'" "verify_lease E k session_lease_store_schema_v3 l' = Inr ()"
proof -
  from assms obtain m where m: "change_of E op l = Inr m" "seal_lease E k m = Inr l'"
    and v: "verify_lease E k session_lease_store_schema_v3 l' = Inr ()"
    by (auto simp: commit_change_def)
  have "lease_follows m l'"
    by (rule follows_same_workflow) (use m(2) in \<open>auto simp: seal_lease_def Let_def lease_identity_def\<close>)
  with change_follows [OF m(1)] show "lease_follows l l'" by (rule lease_follows_trans)
  show "verify_lease E k session_lease_store_schema_v3 l' = Inr ()" by (rule v)
qed

text \<open>
  C33: Whatever sequence of operations its owner, the gateway and the reaper run on a lease, it keeps
  the session, process, connection, resources and expiry it is bound to; the workflow it pins is
  neither dropped nor replaced and its counter does not fall; and once it is revoked, closed or
  expired it is never active again, so that it admits no further call.
\<close>

theorem leases_are_never_reopened:
  "case run_lease_ops E k ops l of
     Inl _ \<Rightarrow> True
   | Inr l' \<Rightarrow> lease_identity l' = lease_identity l \<and> workflow_kept l l' \<and>
       (lease_lifecycle l = LeaseActive \<or>
          lease_lifecycle l' \<noteq> LeaseActive \<and> admit_call_change call l' = Inl AdmissionClosed)"
proof -
  have "lease_follows l l'" if "run_lease_ops E k ops l = Inr l'" for l'
    using that
  proof (induction ops arbitrary: l)
    case (Cons op ops)
    then obtain m where "commit_change E k (change_of E op) l = Inr m" "run_lease_ops E k ops m = Inr l'"
      by auto
    with Cons.IH commit_change_follows(1) lease_follows_trans show ?case by blast
  qed simp
  then show ?thesis
    by (cases "run_lease_ops E k ops l") (auto simp: lease_follows_def admit_call_change_def ensure_def)
qed

section \<open>Conflicts the registry cannot name\<close>

text \<open>The leases the check looks at, under the admission locks and the registry lock.\<close>

definition leases_for_plan ::
  "('z) manager_env_scheme \<Rightarrow> session_manager \<Rightarrow> transition_plan \<Rightarrow> lease_snapshot list session_exec" where
  "leases_for_plan E M plan =
     bind_exec (acquire_transition_admission (map resource_id (effects plan))) (\<lambda>_.
     bind_exec registry_lock (\<lambda>_. list_unlocked E M))"

text \<open>Every resource of the plan that an active lease protects, in the order of the leases.\<close>

definition contested_resources :: "transition_plan \<Rightarrow> lease_snapshot list \<Rightarrow> string list" where
  "contested_resources plan leases =
     [r. s \<leftarrow> leases, contributes_active_intent (lease_lifecycle (snapshot_lease s)),
         r \<leftarrow> protected_resources (snapshot_lease s), r \<in> resource_id ` set (effects plan)]"

lemma find_filter:
  "find P xs = (case filter P xs of [] \<Rightarrow> None | x # _ \<Rightarrow> Some x)"
  by (induction xs) auto

lemma concat_guard: "concat (map (\<lambda>r. if P r then [r] else []) xs) = filter P xs"
  by (induction xs) auto

lemma contested_resources_simps [simp]:
  "contested_resources plan [] = []"
  "contested_resources plan (s # ss) =
     (if contributes_active_intent (lease_lifecycle (snapshot_lease s))
      then filter (\<lambda>r. r \<in> resource_id ` set (effects plan)) (protected_resources (snapshot_lease s)) else [])
     @ contested_resources plan ss"
  by (simp_all add: contested_resources_def concat_guard)

lemma first_lease_conflict_contested:
  "first_lease_conflict (\<lambda>_. False) (map resource_id (effects plan)) leases =
     (case contested_resources plan leases of [] \<Rightarrow> None | r # _ \<Rightarrow> Some r)"
proof (induction leases)
  case (Cons s ss)
  show ?case
    by (cases "filter (\<lambda>r. r \<in> resource_id ` set (effects plan)) (protected_resources (snapshot_lease s))")
      (simp_all add: Let_def find_filter Cons)
qed simp

lemma lease_code:
  "valid_code (''active-lease-'' @ r) \<longleftrightarrow>
     length r \<le> 115 \<and> list_all (\<lambda>c. is_lower c \<or> is_digit c \<or> c = CHR ''-'') r"
  by (auto simp: valid_code_def is_lower_def is_digit_def)

lemma unavailable_code: "valid_code ''session-state-unavailable''"
  by code_simp

lemma conflict_check_cases:
  "case leases_for_plan E M plan s of
      (Inl _, t) \<Rightarrow> acquire_session_conflict E M plan s = (ConflictWith ''session-state-unavailable'', t)
    | (Inr leases, t) \<Rightarrow> acquire_session_conflict E M plan s =
        ((case contested_resources plan leases of
            [] \<Rightarrow> NoConflict
          | r # _ \<Rightarrow>
              if length r \<le> 115 \<and> list_all (\<lambda>c. is_lower c \<or> is_digit c \<or> c = CHR ''-'') r
              then ConflictWith (''active-lease-'' @ r) else ConflictPanic), t)"
  unfolding lease_code [symmetric]
  by (simp add: leases_for_plan_def acquire_session_conflict_def acquire_with_allowed_lease_def
      session_conflict_def unavailable_code first_lease_conflict_contested
      split: prod.split sum.split list.split)

text \<open>A machine with one active lease that protects \<open>provider_config\<close>, and a plan that edits it.\<close>

definition sample_env :: manager_env where
  "sample_env = \<lparr>sha256 = (\<lambda>_. replicate 32 (CHR 0x00)), definition_json = (\<lambda>_. Inr []),
     compiled_json = (\<lambda>_. Inr []), parse_json = (\<lambda>_. Inl []), parse_definition = (\<lambda>_. Inl []),
     definition_value = (\<lambda>_. Inl []), print_pretty = (\<lambda>_. Inr []), lock_json = (\<lambda>_ _ _. Inr []),
     session_hmac = (\<lambda>_ _. replicate 32 (CHR 0x00)), lease_json_v2 = (\<lambda>_. Inr []),
     lease_json_v3 = (\<lambda>_. Inr []), bootstrap_json = (\<lambda>_. Inr []), water_json = (\<lambda>_. Inr []),
     record_render = (\<lambda>_. Inr []), water_render = (\<lambda>_. Inr []), mode_target_json = (\<lambda>_. Inr []),
     mode_body_json = (\<lambda>_. Inr []), mode_render = (\<lambda>_. Inr [])\<rparr>"

definition zero_digest :: string where
  "zero_digest = replicate 64 (CHR ''0'')"

definition sample_exposure :: pinned_exposure where
  "sample_exposure = \<lparr>exposure_revision = zero_digest, exposure_profile = PinnedNative, exposure_locks = None\<rparr>"

definition sample_lease :: session_lease where
  "sample_lease = \<lparr>lease_session_id = ''session-one'', lease_provider = Codex,
     lease_repository_key = ''repository'', lease_workspace_key = ''workspace'',
     workspace_start_revision = None, last_workspace_revision = None, workspace_drifted = False,
     lease_workflow = None, desired_exposure = sample_exposure, observed_exposure = sample_exposure,
     live_status = ObservedRefresh, lease_process = \<lparr>pid = 42, start_marker = ''proc:7''\<rparr>,
     isolation = Strict, coverage = VerifiedMasked, protected_resources = [''provider_config''],
     lease_lifecycle = LeaseActive, admission_open = True, in_flight_calls = 0, in_flight_call_ids = [],
     heartbeat_at = 1000, lease_expires_at = 1060, connection_owner_id = ''owner'', closed_reason = None,
     connection_scope_digest = zero_digest, owner_secret_digest = zero_digest,
     authentication_algorithm = ''hmac-sha256'', authority_key_id = ''sha256:0000000000000000'',
     authentication_tag = zero_digest\<rparr>"

definition sample_manager :: session_manager where
  "sample_manager = \<lparr>manager_root = [], manager_key = Some (replicate 32 (CHR ''k'')), manager_pid = 7\<rparr>"

definition sample_state :: session_state where
  "sample_state = \<lparr>session_files = \<lparr>files = [([''runtime'', ''sessions'', ''session-one.json''],
       Regular ''lease'' (Inr \<lparr>doc_schema_version = 3, doc_revision = 1,
         doc_owner = \<lparr>owner_id = ''owner'', generation = 2\<rparr>, doc_value = Established sample_lease\<rparr>))],
       faults = []\<rparr>,
     water_files = \<lparr>files = [], faults = []\<rparr>, mode_files = \<lparr>files = [], faults = []\<rparr>, overlays = [],
     processes = (\<lambda>_. True), fresh_secrets = [], lock_script = []\<rparr>"

definition sample_plan :: transition_plan where
  "sample_plan = \<lparr>schema_version = 1, operation_id = ''operation'', plan_kind = ApplyProfile,
     plan_context = \<lparr>repository_key = ''repository'', workspace_key = ''workspace'',
       session_id = None, profile_digest = None\<rparr>,
     effects = [\<lparr>effect_id = ''effect'', effect_kind = ReplaceProviderConfig,
       resource_id = ''provider_config'', target_type = ''file'', summary = ''edit the configuration'',
       authority = UserManaged, activation = Live, expected_pre_fingerprint = None,
       expected_post_fingerprint = Some zero_digest, provider_views = [Codex]\<rparr>],
     effect_graph_digest = zero_digest\<rparr>"

lemma sample_valid:
  "validate_shape sample_plan = Inr ()"
  by code_simp



lemma zero_hex: "lease_digest lbl zero_digest = Inr ()"
  by (simp add: lease_digest_def zero_digest_def is_lower_hex_def is_digit_def list_all_iff)

abbreviation sample_key where "sample_key \<equiv> replicate 32 (CHR ''k'')"

lemma sample_verifies: "verify_lease sample_env sample_key session_lease_store_schema_v3 sample_lease = Inr ()"
proof -
  have id: "lease_identifier lbl v = Inr ()" if "valid_identifier v" for lbl v
    using that by (simp add: lease_identifier_def)
  have ids: "valid_identifier ''session-one''" "valid_identifier ''repository''" "valid_identifier ''workspace''"
    "valid_identifier ''provider_config''" "valid_identifier ''owner''"
    by code_simp+
  have exposure: "validate_exposure sample_env sample_exposure = Inr ()"
    by (simp add: sample_exposure_def validate_exposure_def zero_hex)
  have process: "validate_process (lease_process sample_lease) = Inr ()"
    unfolding sample_lease_def by code_simp
  have meta: "validate_authentication_metadata (authentication_algorithm sample_lease) (authority_key_id sample_lease)
        (authentication_tag sample_lease) = Inr ()"
    by (simp add: validate_authentication_metadata_def zero_hex sample_lease_def session_authentication_algorithm_def
        strip_prefix_def is_lower_hex_def is_digit_def)
  have cycle: "validate_lifecycle sample_lease = Inr ()"
    unfolding sample_lease_def by code_simp
  have "validate_lease sample_env sample_lease = Inr ()"
    using process meta cycle
    by (simp add: validate_lease_def sample_lease_def id ids exposure zero_hex supports_strict_isolation_def)
  moreover have "authentication_algorithm sample_lease = session_authentication_algorithm"
    "authority_key_id sample_lease = session_key_id sample_env sample_key"
    "lease_message_v3 sample_env sample_lease = Inr []"
    "session_verify sample_env sample_key lease_authentication_purpose_v3 [] (authentication_tag sample_lease) = Inr ()"
    unfolding sample_lease_def by code_simp+
  ultimately show ?thesis by (simp add: verify_lease_def session_lease_store_schema_v2_def session_lease_store_schema_v3_def)
qed

lemma sample_lease_fields [simp]:
  "lease_session_id sample_lease = ''session-one''" "lease_workflow sample_lease = None"
  "lease_lifecycle sample_lease = LeaseActive" "protected_resources sample_lease = [''provider_config'']"
  by (simp_all add: sample_lease_def)

lemma sample_session_id: "lease_identifier lbl ''session-one'' = Inr ()"
proof -
  have "valid_identifier ''session-one''" by code_simp
  then show ?thesis by (simp add: lease_identifier_def)
qed

lemma sample_segment: "encode_path_segment ''session-one'' = ''session-one''"
  by code_simp

lemma sample_owner: "validate_owner_generation \<lparr>owner_id = ''owner'', generation = 2\<rparr> = Inr ()"
  by code_simp

lemma sample_read:
  "stored_record sample_env sample_state [''runtime'', ''sessions'', ''session-one.json''] = Inr (Some
    \<lparr>snapshot_schema_version = 3, snapshot_revision = \<lparr>sequence = 1, fingerprint = raw_fingerprint (record_env sample_env) ''lease''\<rparr>,
      snapshot_owner = \<lparr>owner_id = ''owner'', generation = 2\<rparr>, snapshot_value = Established sample_lease\<rparr>)"
  by (simp add: read_snapshot_compatible_def sample_state_def sample_owner session_lease_store_schema_v3_def stored_record_def)

lemma sample_calm [simp]: "faults (session_files sample_state) = []" "faults (water_files sample_state) = []"
  "files (water_files sample_state) = []" "lock_script sample_state = []" "manager_key sample_manager = Some sample_key"
  "manager_root sample_manager = []"
  by (simp_all add: sample_state_def sample_manager_def)

lemma sample_scan:
  "load_verified sample_env sample_manager sample_key [''runtime'', ''sessions'', ''session-one.json''] sample_state = (Inr 
    \<lparr>snapshot_schema_version = 3, snapshot_revision = \<lparr>sequence = 1, fingerprint = raw_fingerprint (record_env sample_env) ''lease''\<rparr>,
      snapshot_owner = \<lparr>owner_id = ''owner'', generation = 2\<rparr>, snapshot_value = Established sample_lease\<rparr>, sample_state)"
  using sample_read sample_verifies 
  by (simp add: load_verified_def load_record_def bind_exec_def on_sessions_def load_compatible_def pure_exec_def
     validate_schema_version_def validate_compatible_schemas_def session_lease_store_schema_v3_def
     session_lease_store_schema_v2_def stored_record_def checked_def)

lemma sample_listed:
  "list_unlocked sample_env sample_manager sample_state =
    (Inr [\<lparr>lease_revision = \<lparr>sequence = 1, fingerprint = raw_fingerprint (record_env sample_env) ''lease''\<rparr>,
       snapshot_lease = sample_lease\<rparr>], sample_state)"
proof -
  let ?p = "[''runtime'', ''sessions'', ''session-one.json'']"
  have dir: "on_sessions (read_dir (get_session_leases_dir [])) sample_state = (Inr [?p], sample_state)"
    by (simp add: read_dir_def on_sessions_def bind_exec_def get_session_leases_dir_def sample_state_def)
  have name: "\<not> hidden ''session-one.json''" "strip_suffix ''.json'' ''session-one.json'' = Some ''session-one''"
    by code_simp+
  have water: "reconcile_lease_high_water sample_env sample_manager sample_key 3 sample_lease rv sample_state =
      (Inr (), sample_state)" for rv
    by (simp add: sample_session_id reconcile_lease_high_water_def reconcile_unpinned.simps on_waters_def load_high_water_def bind_exec_def load_no_fault water_state_def
     pure_exec_def read_snapshot_def read_snapshot_compatible_def)
  show ?thesis
    using sample_verifies
    by (simp add: list_unlocked_def scan_records_def authority_key_def bind_exec_def pure_exec_def dir scan_record_def name sample_scan water
      sample_segment checked_def session_lease_store_schema_v3_def)
qed

lemma sample_panics:
  "fst (acquire_session_conflict sample_env sample_manager sample_plan sample_state) = ConflictPanic"
proof -
  have resources: "map resource_id (effects sample_plan) = [''provider_config'']"
    by (simp add: sample_plan_def)
  have "lease_identifier ''protected resource'' ''provider_config'' = Inr ()" 
    "\<not> valid_code (''active-lease-provider_config'')"
    by code_simp+
  then show ?thesis
    by (simp add: acquire_session_conflict_def acquire_with_allowed_lease_def resources Let_def
        acquire_transition_admission_def bind_exec_def checked_def pure_exec_def acquire_lock_def registry_lock_def sample_listed
        contributes_active_intent_def session_conflict_def)
qed

text \<open>
  C34: The check that keeps a transition plan off the resources of running sessions lets it through
  exactly when no active lease protects a resource it touches, and otherwise names the first such
  resource. But a resource whose identifier is longer than 115 bytes or has a byte other than a
  lowercase letter, a digit or a hyphen has no valid conflict code, and the check panics instead of
  refusing: the valid plan that edits \<open>provider_config\<close> while one lease protects it does this.
\<close>

theorem conflict_check_panics:
  "(case leases_for_plan E M plan s of
      (Inl _, t) \<Rightarrow> acquire_session_conflict E M plan s = (ConflictWith ''session-state-unavailable'', t)
    | (Inr leases, t) \<Rightarrow> acquire_session_conflict E M plan s =
        ((case contested_resources plan leases of
            [] \<Rightarrow> NoConflict
          | r # _ \<Rightarrow>
              if length r \<le> 115 \<and> list_all (\<lambda>c. is_lower c \<or> is_digit c \<or> c = CHR ''-'') r
              then ConflictWith (''active-lease-'' @ r) else ConflictPanic), t)) \<and>
   validate_shape sample_plan = Inr () \<and>
   fst (acquire_session_conflict sample_env sample_manager sample_plan sample_state) = ConflictPanic"
  by (intro conjI conflict_check_cases sample_valid sample_panics)

end
