(* ===== verification/Gateway_Safety.thy ===== *)
theory Gateway_Safety
  imports Gateway_Mode Session_Safety
begin

text \<open>
  What the gateway modes guarantee together with the session manager: which record decides about a new
  session, and that a gateway turned off has no session left and takes no new one.
\<close>

section \<open>Which record decides\<close>

lemma on_modes_ok [simp]:
  "on_modes m s = (Inr x, t) \<longleftrightarrow> (\<exists>d. m (mode_files s) = (Inr x, d) \<and> t = s\<lparr>mode_files := d\<rparr>)"
  by (auto simp: on_modes_def split: prod.splits)

abbreviation stored_mode ::
  "('z) manager_env_scheme \<Rightarrow> session_state \<Rightarrow> path \<Rightarrow> state_error + gateway_mode_state state_snapshot option" where
  "stored_mode E s p \<equiv> stored (mode_env E) 1 (mode_files s) p"

text \<open>The mode records on disk that cover a binding.\<close>

definition covering_modes ::
  "('z) manager_env_scheme \<Rightarrow> session_manager \<Rightarrow> provider_id \<Rightarrow> string \<Rightarrow> string \<Rightarrow> session_state \<Rightarrow> gateway_mode_state set" where
  "covering_modes E M p repository workspace s =
     {m. \<exists>file v. stored_mode E s file = Inr (Some v) \<and> snapshot_value v = m \<and>
        butlast file = get_gateway_modes_dir (manager_root M) \<and> file \<noteq> [] \<and> \<not> hidden (last file) \<and>
        matches_binding (mode_target m) p repository workspace}"

lemma same_specificity:
  "matches_binding a p r w \<Longrightarrow> matches_binding b p r w \<Longrightarrow> specificity a = specificity b \<Longrightarrow> a = b"
  by (cases a; cases b) (auto simp: matches_binding_def specificity_def split: option.splits if_splits)


definition modes_in ::
  "('z) manager_env_scheme \<Rightarrow> provider_id \<Rightarrow> string \<Rightarrow> string \<Rightarrow> session_state \<Rightarrow> path list \<Rightarrow> gateway_mode_state set" where
  "modes_in E p repository workspace s ps =
     {m. \<exists>file v. file \<in> set ps \<and> \<not> hidden (last file) \<and> stored_mode E s file = Inr (Some v) \<and>
        snapshot_value v = m \<and> matches_binding (mode_target m) p repository workspace}"

lemma modes_in_simps [simp]:
  "modes_in E p r w s [] = {}"
  "hidden (last file) \<Longrightarrow> modes_in E p r w s (file # ps) = modes_in E p r w s ps"
  by (auto simp: modes_in_def)

lemma modes_in_Cons:
  "\<not> hidden (last file) \<Longrightarrow> stored_mode E s file = Inr (Some v) \<Longrightarrow>
   modes_in E p r w s (file # ps) =
     (if matches_binding (mode_target (snapshot_value v)) p r w then {snapshot_value v} else {}) \<union> modes_in E p r w s ps"
  by (auto simp: modes_in_def)

lemma modes_in_files: "files (mode_files t) = files (mode_files s) \<Longrightarrow> modes_in E p r w t ps = modes_in E p r w s ps"
  by (simp add: modes_in_def)

definition best_mode :: "gateway_mode_state set \<Rightarrow> (nat \<times> bool) option \<Rightarrow> (nat \<times> bool) option \<Rightarrow> bool" where
  "best_mode ms selected best \<longleftrightarrow>
     (case best of
        None \<Rightarrow> selected = None \<and> ms = {}
      | Some b \<Rightarrow> (selected = Some b \<or> (\<exists>m\<in>ms. b = (specificity (mode_target m), mode_admission_open m))) \<and>
          (\<forall>m\<in>ms. specificity (mode_target m) \<le> fst b) \<and> (\<forall>c. selected = Some c \<longrightarrow> fst c \<le> fst b))"

text \<open>The name under which a mode record must lie, and the check the scan makes of it.\<close>

definition mode_filed ::
  "('z) manager_env_scheme \<Rightarrow> path \<Rightarrow> gateway_mode_state \<Rightarrow> bool" where
  "mode_filed E file m \<longleftrightarrow> verify_mode_state E m = Inr () \<and>
     (\<exists>key. target_key E (mode_target m) = Inr key \<and> strip_suffix ''.json'' (last file) = Some (encode_path_segment key))"

lemma select_mode_ok:
  "select_mode E p r w ps selected s = (Inr best, t) \<Longrightarrow>
     best_mode (modes_in E p r w s ps) selected best \<and> files (mode_files t) = files (mode_files s) \<and>
     (\<forall>file\<in>set ps. \<not> hidden (last file) \<longrightarrow>
        (\<exists>v. stored_mode E s file = Inr (Some v) \<and> mode_filed E file (snapshot_value v)))"
proof (induction ps arbitrary: selected s)
  case Nil
  then show ?case by (auto simp: best_mode_def split: option.split)
next
  case (Cons fl ps)
  show ?case
  proof (cases "hidden (last fl)")
    case True
    with Cons show ?thesis by auto
  next
    case False
    with Cons.prems obtain encoded v key s1 where
      v: "strip_suffix ''.json'' (last fl) = Some encoded"
        "load (mode_env E) 1 fl (mode_files s) = (Inr (Some v), s1)"
        "verify_mode_state E (snapshot_value v) = Inr ()" "target_key E (mode_target (snapshot_value v)) = Inr key"
        "encode_path_segment key = encoded"
      and rest: "select_mode E p r w ps
          (if matches_binding (mode_target (snapshot_value v)) p r w \<and>
              (case selected of None \<Rightarrow> True | Some current \<Rightarrow> specificity (mode_target (snapshot_value v)) > fst current)
           then Some (specificity (mode_target (snapshot_value v)), mode_admission_open (snapshot_value v))
           else selected) (s\<lparr>mode_files := s1\<rparr>) = (Inr best, t)"
      by (auto simp: Let_def bind_exec_ok)
    have files: "files s1 = files (mode_files s)" and stored: "stored_mode E s fl = Inr (Some v)"
      using load_ok [OF v(2)] by auto
    note IH = Cons.IH [OF rest]
    have same: "modes_in E p r w (s\<lparr>mode_files := s1\<rparr>) ps = modes_in E p r w s ps"
      by (rule modes_in_files) (simp add: files)
    have "best_mode (modes_in E p r w s (fl # ps)) selected best"
      using IH False stored unfolding same
      by (auto simp: modes_in_Cons best_mode_def split: option.splits if_splits)
    then show ?thesis using IH files stored v by (auto simp: mode_filed_def)
  qed
qed


lemma read_dir_ok:
  assumes "read_dir dir d = (Inr ps, t)"
  shows "files t = files d" "p \<in> set ps \<longleftrightarrow> map_of (files d) p \<noteq> None \<and> p \<noteq> [] \<and> butlast p = dir"
proof -
  from assms obtain x where "access d = (Inr x, t)"
    and ps: "ps = filter (\<lambda>p. p \<noteq> [] \<and> butlast p = dir) (remdups (map fst (files t)))"
    by (auto simp: read_dir_def bind_exec_ok)
  then show files: "files t = files d" using access_result by blast
  show "p \<in> set ps \<longleftrightarrow> map_of (files d) p \<noteq> None \<and> p \<noteq> [] \<and> butlast p = dir"
    unfolding ps files map_of_eq_None_iff by auto
qed

lemma stored_listed: "stored E schema d p = Inr (Some v) \<Longrightarrow> map_of (files d) p \<noteq> None"
  by (cases "map_of (files d) p") (simp_all add: read_snapshot_def read_snapshot_compatible_def)

lemma strip_prefix_iff: "strip_prefix p v = Some x \<longleftrightarrow> v = p @ x"
  by (auto simp: strip_prefix_def) (metis append_take_drop_id)


lemma strip_suffix_ok: "strip_suffix sfx v = Some x \<longleftrightarrow> v = x @ sfx"
proof -
  have "strip_suffix sfx v = Some x \<longleftrightarrow> rev v = rev sfx @ rev x"
    by (auto simp: strip_suffix_def strip_prefix_iff)
  also have "\<dots> \<longleftrightarrow> v = x @ sfx" by (metis rev_append rev_rev_ident)
  finally show ?thesis .
qed

text \<open>Two records filed under the same target are the same file.\<close>

lemma filed_same:
  assumes "mode_filed E f m" "mode_filed E g n" "mode_target m = mode_target n" "butlast f = butlast g"
    "f \<noteq> []" "g \<noteq> []"
  shows "f = g"
proof -
  have "last f = last g" using assms(1,2,3) by (auto simp: mode_filed_def strip_suffix_ok)
  with assms(4-6) show ?thesis by (metis append_butlast_last_id)
qed

lemma gateway_admission_ok:
  assumes "gateway_admission_blocked E M p r w s = (Inr b, t)"
  shows "if covering_modes E M p r w s = {} then \<not> b
     else \<exists>m. {m. is_arg_max (\<lambda>m. specificity (mode_target m)) (\<lambda>m. m \<in> covering_modes E M p r w s) m} = {m} \<and>
       b = (\<not> mode_admission_open m)"
proof -
  let ?C = "covering_modes E M p r w s"
  from assms obtain ps d best where ps: "read_dir (get_gateway_modes_dir (manager_root M)) (mode_files s) = (Inr ps, d)"
    and sel: "select_mode E p r w ps None (s\<lparr>mode_files := d\<rparr>) = (Inr best, t)"
    and b: "b = (case best of None \<Rightarrow> False | Some (_, opened) \<Rightarrow> \<not> opened)"
    by (auto simp: gateway_admission_blocked_def bind_exec_ok)
  note ps = read_dir_ok [OF ps]
  have same: "modes_in E p r w (s\<lparr>mode_files := d\<rparr>) ps = modes_in E p r w s ps"
    by (rule modes_in_files) (simp add: ps)
  have C: "modes_in E p r w s ps = ?C"
    unfolding modes_in_def covering_modes_def ps(2) using stored_listed [where d = "mode_files s"] by blast
  note sel = select_mode_ok [OF sel, unfolded same C]
  have unique: "m = n" if m: "m \<in> ?C" and n: "n \<in> ?C" and eq: "specificity (mode_target m) = specificity (mode_target n)" for m n
  proof -
    from m n same_specificity eq have tgt: "mode_target m = mode_target n" by (auto simp: covering_modes_def)
    from m n obtain f v g u where f: "stored_mode E s f = Inr (Some v)" "snapshot_value v = m" "\<not> hidden (last f)"
        "butlast f = get_gateway_modes_dir (manager_root M)" "f \<noteq> []"
      and g: "stored_mode E s g = Inr (Some u)" "snapshot_value u = n" "\<not> hidden (last g)"
        "butlast g = get_gateway_modes_dir (manager_root M)" "g \<noteq> []"
      by (auto simp: covering_modes_def)
    have "f \<in> set ps" "g \<in> set ps" using f g ps stored_listed by auto
    with sel f g ps have "mode_filed E f m" "mode_filed E g n" by (auto simp: read_snapshot_def)
    from filed_same [OF this tgt] f g have "f = g" by simp
    with f g show ?thesis by simp
  qed
  show ?thesis
  proof (cases best)
    case None
    with sel b show ?thesis by (simp add: best_mode_def)
  next
    case (Some x)
    with sel obtain m where m: "m \<in> ?C" "x = (specificity (mode_target m), mode_admission_open m)"
      "\<forall>n\<in>?C. specificity (mode_target n) \<le> specificity (mode_target m)"
      by (auto simp: best_mode_def)
    have "{m. is_arg_max (\<lambda>m. specificity (mode_target m)) (\<lambda>m. m \<in> ?C) m} = {m}"
      using m unique by (auto simp: is_arg_max_linorder intro!: unique order_antisym)
    with m(1) Some b m(2) show ?thesis by auto
  qed
qed

section \<open>A gateway turned off\<close>

lemma mode_base_target: "mode_base E tgt actor now current = Inr (x, g, m) \<Longrightarrow> mode_target m = tgt"
  by (auto simp: mode_base_def check_mode_target_def new_mode_state_def seal_mode_def split: option.splits)

lemma seal_mode_ok:
  "seal_mode E m = Inr x \<Longrightarrow> mode_target x = mode_target m \<and> mode_routing x = mode_routing m \<and>
     mode_admission_open x = mode_admission_open m"
  by (auto simp: seal_mode_def)

lemma update_mode_ok:
  assumes "update_mode E M tgt actor now change s = (Inr x, t)"
  obtains path c m v d where "mode_path E M tgt = Inr path" "change c = Inr m" "mode_target c = tgt"
    "seal_mode E (m\<lparr>mode_changed_at := now, mode_changed_by := actor\<rparr>) = Inr (snapshot_mode x)"
    "stored_mode E t path = Inr (Some v)" "snapshot_value v = snapshot_mode x" "t = s\<lparr>mode_files := d\<rparr>"
proof -
  from assms obtain path s1 current expected g c m owner d where path: "mode_path E M tgt = Inr path"
    and base: "mode_base E tgt actor now current = Inr (expected, g, c)" and m: "change c = Inr m"
    and sealed: "seal_mode E (m\<lparr>mode_changed_at := now, mode_changed_by := actor\<rparr>) = Inr (snapshot_mode x)"
    and swap: "compare_and_swap (mode_env E) 1 path expected owner (snapshot_mode x) s1 = (Inr (mode_revision x), d)"
    and t: "t = s\<lparr>mode_files := d\<rparr>"
    by (auto simp: update_mode_def bind_exec_ok)
  show thesis
    using that [OF path m mode_base_target [OF base] sealed _ _ t] compare_and_swap_ok(1) [OF swap] t by simp
qed

lemma encode_path_segment_empty [simp]: "encode_path_segment str = [] \<longleftrightarrow> str = []"
proof -
  have nil: "encode_path_segment [] = []" by (simp add: encode_path_segment_def)
  show ?thesis using encode_path_segment_inject [of str "[]"] unfolding nil .
qed

lemma json_file_hidden [simp]: "hidden (json_file str) \<longleftrightarrow> str = []"
proof (cases "encode_path_segment str")
  case Nil
  then have "str = []" by simp
  then show ?thesis by (simp add: json_file_def hidden_def encode_path_segment_def)
next
  case (Cons c rest)
  then have "encode_path_segment str \<noteq> []" by simp
  then have "str \<noteq> []" unfolding encode_path_segment_empty .
  with Cons encode_path_segment_hd show ?thesis by (auto simp: json_file_def hidden_def)
qed

lemma mode_path_ok:
  assumes "mode_path E M tgt = Inr path"
  shows "path \<noteq> []" "butlast path = get_gateway_modes_dir (manager_root M)" "sha256_length E \<Longrightarrow> \<not> hidden (last path)"
proof -
  from assms obtain bytes where path: "path = get_gateway_mode_path (manager_root M) (digest_bytes E bytes)"
    by (auto simp: mode_path_def target_key_def)
  then show "path \<noteq> []" "butlast path = get_gateway_modes_dir (manager_root M)"
    by (simp_all add: get_gateway_mode_path_def)
  assume "sha256_length E"
  then have "length (digest_bytes E bytes) = 64" by (simp add: digest_bytes_def sha256_length_def)
  then show "\<not> hidden (last path)" using path by (auto simp: get_gateway_mode_path_def)
qed

text \<open>What the calls on leases leave alone.\<close>

lemma write_document_frame:
  "write_document E p schema seq owner v f d = (Inr rv, t) \<Longrightarrow> q \<noteq> p \<Longrightarrow> map_of (files t) q = map_of (files d) q"
  by (cases f) (auto simp: write_document_def bind_exec_ok write_atomically_def Let_def)

lemma replace_record_frame:
  assumes "replace_record E p schema expected owner x s = (Inr rv, t)"
  shows "q \<noteq> p \<Longrightarrow> map_of (files (session_files t)) q = map_of (files (session_files s)) q"
    "mode_files t = mode_files s"
  using assms
  by (auto simp: replace_record_def compare_and_swap_files compare_and_swap_migrating_schema_def bind_exec_ok
      write_document_frame dest!: access_result split: if_splits)

lemma announce_frame:
  "announce_transition E M k i snapshot tg l owner s = (Inr x, t) \<Longrightarrow>
     session_files t = session_files s \<and> mode_files t = mode_files s"
  by (auto simp: announce_transition_def bind_exec_ok on_waters_ok split: option.splits prod.splits)

lemma finalize_frame:
  "finalize_transition E M k i actor g announced s = (Inr x, t) \<Longrightarrow>
     session_files t = session_files s \<and> mode_files t = mode_files s"
  by (auto simp: finalize_transition_def bind_exec_ok on_waters_ok split: option.splits)

lemma load_verified_frame:
  "load_verified E M k p s = (Inr v, t) \<Longrightarrow> mode_files t = mode_files s"
  by (auto simp: load_verified_def load_record_def bind_exec_ok)

lemma update_lease_frame:
  assumes "update_lease E M i expected actor change s = (Inr new, t)"
  shows "mode_files t = mode_files s"
    "q \<noteq> lease_file M i \<Longrightarrow> map_of (files (session_files t)) q = map_of (files (session_files s)) q"
    "\<exists>v. stored_record E t (lease_file M i) = Inr (Some v) \<and> snapshot_value v = Established (snapshot_lease new)"
proof -
  from assms obtain k snapshot s1 source_tag sealed owner announced s2 schema rv g s3 where
    v: "load_verified E M k (lease_file M i) s = (Inr snapshot, s1)"
    and a: "announce_transition E M k i snapshot source_tag sealed owner s1 = (Inr announced, s2)"
    and w: "replace_record E (lease_file M i) schema expected owner (Established sealed) s2 = (Inr rv, s3)"
    and f: "finalize_transition E M k i actor g announced s3 = (Inr (), t)" and new: "snapshot_lease new = sealed"
    by (auto simp: update_lease_def bind_exec_ok)
  note frames = load_verified_ok(3) [OF v] load_verified_frame [OF v] announce_frame [OF a] finalize_frame [OF f]
  show "mode_files t = mode_files s" using frames replace_record_frame(2) [OF w] by simp
  show "q \<noteq> lease_file M i \<Longrightarrow> map_of (files (session_files t)) q = map_of (files (session_files s)) q"
    using frames replace_record_frame(1) [OF w] by simp
  show "\<exists>v. stored_record E t (lease_file M i) = Inr (Some v) \<and> snapshot_value v = Established (snapshot_lease new)"
    using replace_record_stores(1) [OF w] new frames by (auto simp: stored_record_def)
qed

text \<open>Turning off leaves a record that is closed, and off unless sessions are still draining.\<close>

lemma remove_drained_frame:
  assumes "remove_drained_unlocked E M l actor now s = (Inr b, t)"
  shows "mode_files t = mode_files s"
  using assms
  by (auto simp: remove_drained_unlocked_def close_and_remove_unlocked_def close_unlocked_def remove_record_def
      bind_exec_ok dest!: update_lease_frame(1) split: if_splits)

lemma drain_each_modes: "drain_each E M actor now ls s = (Inr x, t) \<Longrightarrow> mode_files t = mode_files s"
  by (induction E M actor now ls s arbitrary: x t rule: drain_each.induct)
    (auto simp: bind_exec_ok begin_revoke_unlocked_def
      dest!: update_lease_frame(1) remove_drained_frame split: if_splits)

lemma turn_off_unlocked_ok:
  assumes "turn_off_unlocked E M tgt force actor now s = (Inr out, t)"
  obtains leases s1 fenced s2 drained s3 final where "list_unlocked E M s = (Inr leases, s1)"
    "force = ForceYes \<or> filter (\<lambda>l. routes_through tgt (snapshot_lease l)) leases = []"
    "update_mode E M tgt actor now
       (fence_change (filter (\<lambda>l. routes_through tgt (snapshot_lease l)) leases = [])) s1 = (Inr fenced, s2)"
    "(if force = ForceYes then drain_each E M actor now (filter (\<lambda>l. routes_through tgt (snapshot_lease l)) leases)
      else pure_exec (Inr [])) s2 = (Inr drained, s3)"
    "(if sort drained = [] \<and> mode_routing (snapshot_mode fenced) \<noteq> RoutingOff
      then update_mode E M tgt actor now off_change else pure_exec (Inr fenced)) s3 = (Inr final, t)"
    "outcome_mode out = snapshot_mode final" "draining_sessions out = sort drained"
proof -
  have force: "\<not> (force = ForceNo \<and> b) \<longleftrightarrow> force = ForceYes \<or> \<not> b" for b by (cases force) auto
  show thesis
    using assms that unfolding turn_off_unlocked_def Let_def bind_exec_ok pure_exec_result ensure_ok force
    by (metis (no_types, lifting) gateway_mode_outcome.select_convs(1,2) sum.inject(2))
qed

lemma turn_off_ok:
  assumes "turn_off_unlocked E M tgt force actor now s = (Inr out, t)"
  obtains path v where "mode_path E M tgt = Inr path" "stored_mode E t path = Inr (Some v)"
    "snapshot_value v = outcome_mode out" "mode_target (outcome_mode out) = tgt"
    "\<not> mode_admission_open (outcome_mode out)"
    "draining_sessions out = [] \<Longrightarrow> mode_routing (outcome_mode out) = RoutingOff"
proof -
  from assms obtain leases s1 fenced s2 drained s3 final where
    fence: "update_mode E M tgt actor now
       (fence_change (filter (\<lambda>l. routes_through tgt (snapshot_lease l)) leases = [])) s1 = (Inr fenced, s2)"
    and drain: "(if force = ForceYes then drain_each E M actor now (filter (\<lambda>l. routes_through tgt (snapshot_lease l)) leases)
      else pure_exec (Inr [])) s2 = (Inr drained, s3)"
    and final: "(if sort drained = [] \<and> mode_routing (snapshot_mode fenced) \<noteq> RoutingOff
      then update_mode E M tgt actor now off_change else pure_exec (Inr fenced)) s3 = (Inr final, t)"
    and out: "outcome_mode out = snapshot_mode final" "draining_sessions out = sort drained"
    by (rule turn_off_unlocked_ok)
  have modes: "mode_files s3 = mode_files s2"
    using drain drain_each_modes by (auto split: if_splits)
  show thesis
  proof (cases "sort drained = [] \<and> mode_routing (snapshot_mode fenced) \<noteq> RoutingOff")
    case True
    with final have "update_mode E M tgt actor now off_change s3 = (Inr final, t)" by simp
    then obtain path c m v where "mode_path E M tgt = Inr path" "off_change c = Inr m" "mode_target c = tgt"
      "seal_mode E (m\<lparr>mode_changed_at := now, mode_changed_by := actor\<rparr>) = Inr (snapshot_mode final)"
      "stored_mode E t path = Inr (Some v)" "snapshot_value v = snapshot_mode final"
      by (rule update_mode_ok)
    with out show thesis using that [of path v] by (auto simp: off_change_def dest!: seal_mode_ok)
  next
    case False
    with final have t: "t = s3" "final = fenced" by auto
    from fence obtain path c m v where "mode_path E M tgt = Inr path" "mode_target c = tgt"
      "fence_change (filter (\<lambda>l. routes_through tgt (snapshot_lease l)) leases = []) c = Inr m"
      "seal_mode E (m\<lparr>mode_changed_at := now, mode_changed_by := actor\<rparr>) = Inr (snapshot_mode fenced)"
      "stored_mode E s2 path = Inr (Some v)" "snapshot_value v = snapshot_mode fenced"
      by (rule update_mode_ok)
    with out t modes False show thesis
      using that [of path v] by (auto simp: fence_change_def Let_def dest!: seal_mode_ok split: if_splits)
  qed
qed


section \<open>The leases a forced stop leaves\<close>

definition inactive :: "('z) manager_env_scheme \<Rightarrow> session_manager \<Rightarrow> session_state \<Rightarrow> string \<Rightarrow> bool" where
  "inactive E M s i \<longleftrightarrow> (\<forall>v l. stored_record E s (lease_file M i) = Inr (Some v) \<longrightarrow>
     snapshot_value v = Established l \<longrightarrow> lease_lifecycle l \<noteq> LeaseActive)"

definition filed_leases :: "('z) manager_env_scheme \<Rightarrow> session_manager \<Rightarrow> session_state \<Rightarrow> bool" where
  "filed_leases E M s \<longleftrightarrow> (\<forall>i v l. i \<noteq> [] \<longrightarrow> stored_record E s (lease_file M i) = Inr (Some v) \<longrightarrow>
     snapshot_value v = Established l \<longrightarrow> lease_session_id l = i)"

lemma lease_file_inject [simp]: "lease_file M i = lease_file M j \<longleftrightarrow> i = j"
  by (simp add: get_session_lease_path_def)

lemma stored_record_cong:
  "map_of (files (session_files s)) p = map_of (files (session_files t)) p \<Longrightarrow>
     stored_record E s p = stored_record E t p"
  by (simp add: stored_record_def read_snapshot_compatible_def)

definition stops_lease :: "lease_op \<Rightarrow> bool" where
  "stops_lease op \<longleftrightarrow> (\<exists>now. op = BeginRevoke now) \<or> (\<exists>reason now. op = CloseDrained reason now)"

lemma commit_stops:
  assumes "commit_change E k (change_of E op) l = Inr l'" "stops_lease op"
  shows "lease_lifecycle l' \<noteq> LeaseActive"
  using assms
  by (auto simp: commit_change_def stops_lease_def begin_revoke_change_def close_change_def seal_lease_def Let_def
      split: if_splits)

lemma stop_step:
  assumes "update_lease E M i expected actor (change_of E op) s = (Inr new, t)" "stops_lease op"
    and "filed_leases E M s" "i \<noteq> []"
  shows "filed_leases E M t" "inactive E M t i" "lease_session_id (snapshot_lease new) = i"
    "j \<noteq> i \<Longrightarrow> stored_record E t (lease_file M j) = stored_record E s (lease_file M j)"
proof -
  obtain k v l where v: "stored_record E s (lease_file M i) = Inr (Some v)" "snapshot_value v = Established l"
    "commit_change E k (change_of E op) l = Inr (snapshot_lease new)"
    by (rule update_lease_commits [OF assms(1)])
  obtain u where u: "stored_record E t (lease_file M i) = Inr (Some u)"
    "snapshot_value u = Established (snapshot_lease new)"
    using update_lease_frame(3) [OF assms(1)] by blast
  have "lease_session_id l = i" using v(1,2) assms(3,4) by (simp add: filed_leases_def)
  with commit_change_follows(1) [OF v(3)] show id: "lease_session_id (snapshot_lease new) = i"
    by (simp add: lease_follows_def lease_identity_def)
  show other: "stored_record E t (lease_file M j) = stored_record E s (lease_file M j)" if "j \<noteq> i" for j
    by (rule stored_record_cong) (use update_lease_frame(2) [OF assms(1)] that in simp)
  show "filed_leases E M t"
    unfolding filed_leases_def
  proof (intro allI impI)
    fix j w m
    assume "j \<noteq> []" "stored_record E t (lease_file M j) = Inr (Some w)" "snapshot_value w = Established m"
    then show "lease_session_id m = j"
      using u id assms(3) other by (cases "j = i") (auto simp: filed_leases_def)
  qed
  show "inactive E M t i"
    using u commit_stops [OF v(3) assms(2)] by (simp add: inactive_def)
qed

lemma remove_file_ok: "remove_file p f d = (Inr u, t) \<Longrightarrow> files t = AList.delete p (files d)"
  by (cases f) (auto simp: remove_file_def)

lemma remove_step:
  assumes "remove_record E M i rv s = (Inr u, t)"
  shows "filed_leases E M s \<Longrightarrow> filed_leases E M t" "inactive E M t i"
    "j \<noteq> i \<Longrightarrow> stored_record E t (lease_file M j) = stored_record E s (lease_file M j)"
proof -
  from assms obtain d where d: "remove_if_revision (record_env E) session_lease_store_schema_v3 (lease_file M i) rv
      (session_files s) = (Inr u, d)" "t = s\<lparr>session_files := d\<rparr>"
    by (auto simp: remove_record_def)
  have files: "map_of (files d) q = (if q = lease_file M i then None else map_of (files (session_files s)) q)" for q
    using d(1) by (auto simp: remove_if_revision_def bind_exec_ok dest!: access_result remove_file_ok)
  show other: "stored_record E t (lease_file M j) = stored_record E s (lease_file M j)" if "j \<noteq> i" for j
    by (rule stored_record_cong) (use files that d(2) in simp)
  have gone: "stored_record E t (lease_file M i) = Inr None"
    using files d(2) by (simp add: stored_record_def read_snapshot_compatible_def)
  then show "inactive E M t i" by (simp add: inactive_def)
  show "filed_leases E M t" if "filed_leases E M s"
    unfolding filed_leases_def
  proof (intro allI impI)
    fix j w m
    assume "j \<noteq> []" "stored_record E t (lease_file M j) = Inr (Some w)" "snapshot_value w = Established m"
    then show "lease_session_id m = j"
      using gone that other by (cases "j = i") (auto simp: filed_leases_def)
  qed
qed


text \<open>What a step of the drain keeps: leases stay filed under their ids and stopped leases stopped.\<close>

definition drained_further :: "('z) manager_env_scheme \<Rightarrow> session_manager \<Rightarrow> string set \<Rightarrow> session_state \<Rightarrow> session_state \<Rightarrow> bool" where
  "drained_further E M ids s t \<longleftrightarrow> filed_leases E M t \<and>
     (\<forall>j. j \<notin> ids \<longrightarrow> stored_record E t (lease_file M j) = stored_record E s (lease_file M j)) \<and>
     (\<forall>j. inactive E M s j \<longrightarrow> inactive E M t j)"

lemma drained_further_refl: "filed_leases E M s \<Longrightarrow> drained_further E M ids s s"
  by (simp add: drained_further_def)

lemma drained_further_trans:
  "drained_further E M ids s t \<Longrightarrow> drained_further E M ids t u \<Longrightarrow> drained_further E M ids s u"
  by (simp add: drained_further_def)

lemma drained_further_mono: "drained_further E M ids s t \<Longrightarrow> ids \<subseteq> ids' \<Longrightarrow> drained_further E M ids' s t"
  by (auto simp: drained_further_def)

lemma drained_furtherI:
  assumes "filed_leases E M t" "inactive E M t i"
    "\<And>j. j \<noteq> i \<Longrightarrow> stored_record E t (lease_file M j) = stored_record E s (lease_file M j)"
  shows "drained_further E M {i} s t"
proof -
  have "inactive E M t j" if "inactive E M s j" for j
    using that assms(2,3) by (cases "j = i") (simp_all add: inactive_def)
  with assms show ?thesis by (simp add: drained_further_def)
qed

lemma remove_drained_step:
  assumes "remove_drained_unlocked E M l actor now s = (Inr b, t)" "filed_leases E M s"
    and i: "lease_session_id (snapshot_lease l) = i" "i \<noteq> []"
  shows "drained_further E M {i} s t"
proof (cases "in_flight_calls (snapshot_lease l) \<noteq> 0 \<or> in_flight_call_ids (snapshot_lease l) \<noteq> []")
  case True
  with assms show ?thesis by (auto simp: remove_drained_unlocked_def intro: drained_further_refl)
next
  case False
  with assms(1) obtain closed s1 where
    c: "update_lease E M i (lease_revision l) actor (change_of E (CloseDrained ''gateway-off'' now)) s = (Inr closed, s1)"
    and r: "remove_record E M (lease_session_id (snapshot_lease closed)) (lease_revision closed) s1 = (Inr (), t)"
    by (auto simp: remove_drained_unlocked_def close_and_remove_unlocked_def close_unlocked_def bind_exec_ok i)
  have stops: "stops_lease (CloseDrained ''gateway-off'' now)" by (simp add: stops_lease_def)
  note step = stop_step [OF c stops assms(2) i(2)]
  note rem = remove_step [OF r, unfolded step(3)]
  show ?thesis
    by (rule drained_furtherI) (use step rem in auto)
qed

lemma drain_each_step:
  assumes "drain_each E M actor now ls s = (Inr x, t)" "filed_leases E M s"
    and "\<forall>l\<in>set ls. lease_session_id (snapshot_lease l) \<noteq> [] \<and>
      (lease_lifecycle (snapshot_lease l) = LeaseActive \<or> inactive E M s (lease_session_id (snapshot_lease l)))"
  shows "drained_further E M ((lease_session_id \<circ> snapshot_lease) ` set ls) s t \<and>
    (\<forall>l\<in>set ls. inactive E M t (lease_session_id (snapshot_lease l)))"
  using assms
proof (induction ls arbitrary: s x)
  case Nil
  then show ?case by (simp add: drained_further_refl)
next
  case (Cons l ls)
  let ?i = "lease_session_id (snapshot_lease l)"
  from Cons.prems(1) obtain revoked s1 b s2 rest where
    r: "(if lease_lifecycle (snapshot_lease l) = LeaseActive then begin_revoke_unlocked E M l actor now
      else pure_exec (Inr l)) s = (Inr revoked, s1)"
    and d: "remove_drained_unlocked E M revoked actor now s1 = (Inr b, s2)"
    and rest: "drain_each E M actor now ls s2 = (Inr rest, t)"
    by (auto simp: bind_exec_ok)
  have one: "drained_further E M {?i} s s1 \<and> inactive E M s1 ?i \<and> lease_session_id (snapshot_lease revoked) = ?i"
  proof (cases "lease_lifecycle (snapshot_lease l) = LeaseActive")
    case True
    with r have u: "update_lease E M ?i (lease_revision l) actor (change_of E (BeginRevoke now)) s = (Inr revoked, s1)"
      by (simp add: begin_revoke_unlocked_def)
    have stops: "stops_lease (BeginRevoke now)" by (simp add: stops_lease_def)
    have "?i \<noteq> []" using Cons.prems(3) by simp
    note step = stop_step [OF u stops Cons.prems(2) this]
    show ?thesis using drained_furtherI [OF step(1,2,4)] step(2,3) by blast
  next
    case False
    with r Cons.prems(2,3) show ?thesis by (auto intro: drained_further_refl)
  qed
  then have "filed_leases E M s1" by (simp add: drained_further_def)
  from remove_drained_step [OF d this] one Cons.prems(3) have two: "drained_further E M {?i} s1 s2" by simp
  with one have both: "drained_further E M {?i} s s2" "inactive E M s2 ?i" "filed_leases E M s2"
    by (auto intro: drained_further_trans simp: drained_further_def)
  have "\<forall>l\<in>set ls. lease_session_id (snapshot_lease l) \<noteq> [] \<and>
      (lease_lifecycle (snapshot_lease l) = LeaseActive \<or> inactive E M s2 (lease_session_id (snapshot_lease l)))"
    using Cons.prems(3) both(1) by (auto simp: drained_further_def)
  from Cons.IH [OF rest both(3) this] both show ?case
    by (auto simp: drained_further_def)
qed


text \<open>Listing the leases reads every file, changes none, and finds each lease under its own id.\<close>

lemma on_waters_frame:
  "on_waters m s = (r, t) \<Longrightarrow> session_files t = session_files s \<and> mode_files t = mode_files s"
  by (auto simp: on_waters_ok)

text \<open>The match on the outcome of a change of the high-water record, with a retry when it was stale.\<close>

lemma retry_frame:
  assumes "(case on_waters m s of
       (Inr _, u) \<Rightarrow> (Inr (), u)
     | (Inl (WaterState (StaleRevision x y)), u) \<Rightarrow> again u
     | (Inl e, u) \<Rightarrow> (Inl (InvalidState (InvalidWater e)), u)) = (r, t)"
    and "\<And>x y u r t. on_waters m s = (Inl (WaterState (StaleRevision x y)), u) \<Longrightarrow> again u = (r, t) \<Longrightarrow>
      session_files t = session_files u \<and> mode_files t = mode_files u"
  shows "session_files t = session_files s \<and> mode_files t = mode_files s"
proof (cases "on_waters m s")
  case (Pair b u)
  note u = on_waters_frame [OF Pair]
  show ?thesis
  proof (cases "\<exists>x y. b = Inl (WaterState (StaleRevision x y))")
    case True
    then obtain x y where b: "b = Inl (WaterState (StaleRevision x y))" by blast
    with assms(1) Pair have "again u = (r, t)" by simp
    from assms(2) [OF _ this] Pair b u show ?thesis by simp
  next
    case False
    with assms(1) Pair have "t = u"
      by (auto split: sum.splits high_water_error.splits state_error.splits)
    with u show ?thesis by simp
  qed
qed

lemma reconcile_unpinned_frame:
  "reconcile_unpinned E M k l rv s = (r, t) \<Longrightarrow> session_files t = session_files s \<and> mode_files t = mode_files s"
proof (induction E M k l rv s arbitrary: r t rule: reconcile_unpinned.induct)
  case (1 E M k l rv s)
  obtain a s1 where load: "waters_load E M k (lease_session_id l) s = (a, s1)" by fastforce
  note frame = on_waters_frame [OF load]
  show ?case
  proof (cases "\<exists>c p. a = Inr (Some c) \<and> water_pending (snapshot_value c) = Some p \<and> pending_source_matches p l rv")
    case True
    then obtain c p where c: "a = Inr (Some c)" "water_pending (snapshot_value c) = Some p"
      "pending_source_matches p l rv" by blast
    have round: "(case on_waters (remove_high_water E (manager_root M) (lease_session_id l) (snapshot_revision c)) s1 of
         (Inr _, u) \<Rightarrow> (Inr (), u)
       | (Inl (WaterState (StaleRevision x y)), u) \<Rightarrow> reconcile_unpinned E M k l rv u
       | (Inl e, u) \<Rightarrow> (Inl (InvalidState (InvalidWater e)), u)) = (r, t)"
      using "1.prems" load c by (simp add: reconcile_unpinned.simps [of E M k l rv s])
    have "session_files t = session_files s1 \<and> mode_files t = mode_files s1"
      by (rule retry_frame [OF round])
        (rule "1.IH" [OF load [symmetric] c(1) refl c(2) _ sym refl refl refl], use c(3) in simp_all)
    with frame show ?thesis by simp
  next
    case False
    with "1.prems" load have "t = s1"
      by (subst (asm) reconcile_unpinned.simps) (auto split: option.splits sum.splits)
    with frame show ?thesis by simp
  qed
qed

lemma reconcile_pinned_frame:
  "reconcile_pinned E M k schema w l rv s = (r, t) \<Longrightarrow>
     session_files t = session_files s \<and> mode_files t = mode_files s"
proof (induction E M k schema w l rv s arbitrary: r t rule: reconcile_pinned.induct)
  case (1 E M k schema w l rv s)
  obtain a s1 where load: "waters_load E M k (lease_session_id l) s = (a, s1)" by fastforce
  note frame = on_waters_frame [OF load]
  consider (target) c p v where "a = Inr (Some c)" "water_pending (snapshot_value c) = Some p"
      "pending_target_matches p schema w l" "finalized_target (snapshot_value c) = Inr v"
    | (source) c p where "a = Inr (Some c)" "water_pending (snapshot_value c) = Some p"
      "\<not> pending_target_matches p schema w l"
      "pending_source_matches p l rv" "water_matches (snapshot_value c) schema w l"
    | (stay) "t = s1"
    using "1.prems" load
    by (subst (asm) reconcile_pinned.simps) (auto split: option.splits sum.splits if_splits)
  then show ?case
  proof cases
    case target
    have round: "(case waters_publish E M k (lease_session_id l) (Some (snapshot_revision c)) (snapshot_owner c)
           v s1 of
         (Inr _, u) \<Rightarrow> (Inr (), u)
       | (Inl (WaterState (StaleRevision x y)), u) \<Rightarrow> reconcile_pinned E M k schema w l rv u
       | (Inl e, u) \<Rightarrow> (Inl (InvalidState (InvalidWater e)), u)) = (r, t)"
      using "1.prems" load target by (simp add: reconcile_pinned.simps [of E M k schema w l rv s])
    have "session_files t = session_files s1 \<and> mode_files t = mode_files s1"
      by (rule retry_frame [OF round])
        (rule "1.IH"(1) [OF load [symmetric] target(1) refl target(2) target(3) target(4) sym refl refl refl], simp_all)
    with frame show ?thesis by simp
  next
    case source
    have round: "(case waters_publish E M k (lease_session_id l) (Some (snapshot_revision c)) (snapshot_owner c)
           ((snapshot_value c)\<lparr>water_pending := None\<rparr>) s1 of
         (Inr _, u) \<Rightarrow> (Inr (), u)
       | (Inl (WaterState (StaleRevision x y)), u) \<Rightarrow> reconcile_pinned E M k schema w l rv u
       | (Inl e, u) \<Rightarrow> (Inl (InvalidState (InvalidWater e)), u)) = (r, t)"
      using "1.prems" load source by (simp add: reconcile_pinned.simps [of E M k schema w l rv s])
    have "session_files t = session_files s1 \<and> mode_files t = mode_files s1"
      by (rule retry_frame [OF round])
        (rule "1.IH"(2) [OF load [symmetric] source(1) refl source(2) source(3) conjI [OF source(4,5)] sym refl refl refl], simp_all)
    with frame show ?thesis by simp
  qed (use frame in simp)
qed

lemma reconcile_frame:
  "reconcile_lease_high_water E M k schema l rv s = (r, t) \<Longrightarrow>
     session_files t = session_files s \<and> mode_files t = mode_files s"
  by (auto simp: reconcile_lease_high_water_def dest!: reconcile_unpinned_frame reconcile_pinned_frame
      split: option.splits)


lemma scan_record_ok:
  assumes "scan_record E M k p s = (Inr found, t)"
  shows "files (session_files t) = files (session_files s)" "mode_files t = mode_files s"
    "hidden (last p) \<Longrightarrow> found = None"
    "\<not> hidden (last p) \<Longrightarrow> \<exists>v. found = Some v \<and> stored_record E s p = Inr (Some v) \<and>
       verify_record E k (snapshot_schema_version v) (snapshot_value v) = Inr () \<and>
       last p = json_file (record_session_id (snapshot_value v))"
proof -
  have "files (session_files t) = files (session_files s) \<and> mode_files t = mode_files s \<and>
    (hidden (last p) \<or> (\<exists>v. found = Some v \<and> stored_record E s p = Inr (Some v) \<and>
       verify_record E k (snapshot_schema_version v) (snapshot_value v) = Inr () \<and>
       last p = json_file (record_session_id (snapshot_value v))))"
  proof (cases "hidden (last p)")
    case True
    with assms show ?thesis by (simp add: scan_record_def)
  next
    case False
    with assms obtain v s1 where v: "load_verified E M k p s = (Inr v, s1)"
      and r: "(case snapshot_value v of
            Established l \<Rightarrow> reconcile_lease_high_water E M k (snapshot_schema_version v) l (snapshot_revision v)
          | SessionPending _ \<Rightarrow> pure_exec (Inr ())) s1 = (Inr (), t)"
      and "found = Some v" "last p = json_file (record_session_id (snapshot_value v))"
      by (auto simp: scan_record_def bind_exec_ok strip_suffix_ok json_file_def)
    moreover have "session_files t = session_files s1 \<and> mode_files t = mode_files s1"
      using r by (cases "snapshot_value v") (auto dest: reconcile_frame)
    ultimately show ?thesis
      using load_verified_ok(1,2,3) [OF v] load_verified_frame [OF v] by simp
  qed
  moreover have "found = None" if "hidden (last p)" using assms that by (simp add: scan_record_def)
  ultimately show "files (session_files t) = files (session_files s)" "mode_files t = mode_files s"
    "hidden (last p) \<Longrightarrow> found = None"
    "\<not> hidden (last p) \<Longrightarrow> \<exists>v. found = Some v \<and> stored_record E s p = Inr (Some v) \<and>
       verify_record E k (snapshot_schema_version v) (snapshot_value v) = Inr () \<and>
       last p = json_file (record_session_id (snapshot_value v))"
    by auto
qed

lemma scan_each_ok:
  assumes "scan_each E M k ps s = (Inr rs, t)"
  shows "files (session_files t) = files (session_files s) \<and> mode_files t = mode_files s \<and>
    (\<forall>p\<in>set ps. \<not> hidden (last p) \<longrightarrow> (\<exists>v\<in>set rs. stored_record E s p = Inr (Some v) \<and>
       verify_record E k (snapshot_schema_version v) (snapshot_value v) = Inr () \<and>
       last p = json_file (record_session_id (snapshot_value v)))) \<and>
    (\<forall>v\<in>set rs. \<exists>p\<in>set ps. stored_record E s p = Inr (Some v) \<and>
       last p = json_file (record_session_id (snapshot_value v)))"
  using assms
proof (induction ps arbitrary: s rs)
  case (Cons p ps)
  from Cons.prems obtain found s1 rest where p: "scan_record E M k p s = (Inr found, s1)"
    and rest: "scan_each E M k ps s1 = (Inr rest, t)"
    and rs: "rs = (case found of None \<Rightarrow> rest | Some r \<Rightarrow> r # rest)"
    by (auto simp: bind_exec_ok)
  note p = scan_record_ok [OF p]
  have same: "stored_record E s1 q = stored_record E s q" for q
    by (rule stored_record_cong) (simp add: p(1))
  from Cons.IH [OF rest, unfolded same] p rs show ?case
    by (cases "hidden (last p)") (auto split: option.splits)
qed simp

lemma keep_established_ok:
  "keep_established E k rs = Inr ls \<Longrightarrow> v \<in> set rs \<Longrightarrow> snapshot_value v = Established l \<Longrightarrow>
     \<exists>x\<in>set ls. snapshot_lease x = l"
  by (induction rs arbitrary: ls) (auto split: session_record.splits)

lemma keep_established_valid:
  "keep_established E k rs = Inr ls \<Longrightarrow> x \<in> set ls \<Longrightarrow>
     \<exists>v\<in>set rs. snapshot_value v = Established (snapshot_lease x) \<and>
       verify_lease E k (snapshot_schema_version v) (snapshot_lease x) = Inr ()"
  by (induction rs arbitrary: ls) (fastforce split: session_record.splits)+

lemma list_unlocked_ok:
  assumes "list_unlocked E M s = (Inr leases, t)"
  shows "filed_leases E M t" "mode_files t = mode_files s"
    "i \<noteq> [] \<Longrightarrow> stored_record E t (lease_file M i) = Inr (Some v) \<Longrightarrow> snapshot_value v = Established l \<Longrightarrow>
       \<exists>x\<in>set leases. snapshot_lease x = l"
    "x \<in> set leases \<Longrightarrow> lease_session_id (snapshot_lease x) \<noteq> [] \<and>
       (\<exists>v. stored_record E t (lease_file M (lease_session_id (snapshot_lease x))) = Inr (Some v) \<and>
          snapshot_value v = Established (snapshot_lease x))"
proof -
  from assms obtain k ps d rs ls where dir: "read_dir (get_session_leases_dir (manager_root M)) (session_files s) = (Inr ps, d)"
    and scan: "scan_each E M k ps (s\<lparr>session_files := d\<rparr>) = (Inr rs, t)"
    and keep: "keep_established E k (sort_key (\<lambda>r. record_session_id (snapshot_value r)) rs) = Inr ls"
    and leases: "leases = sort_key (\<lambda>l. lease_session_id (snapshot_lease l)) ls"
    by (auto simp: list_unlocked_def scan_records_def bind_exec_ok)
  note dir = read_dir_ok [OF dir]
  have same: "stored_record E (s\<lparr>session_files := d\<rparr>) q = stored_record E t q" for q
    by (rule stored_record_cong) (use scan_each_ok [OF scan] in simp)
  note scan = scan_each_ok [OF scan, unfolded same]
  have found: "\<exists>v\<in>set rs. stored_record E t (lease_file M i) = Inr (Some v) \<and> record_session_id (snapshot_value v) = i"
    if "i \<noteq> []" "stored_record E t (lease_file M i) = Inr (Some u)" for i u
  proof -
    have "map_of (files (session_files t)) (lease_file M i) \<noteq> None"
      using that(2) by (cases "map_of (files (session_files t)) (lease_file M i)")
        (simp_all add: stored_record_def read_snapshot_compatible_def)
    then have "lease_file M i \<in> set ps"
      using dir scan by (simp add: get_session_lease_path_def)
    with scan that(1) show ?thesis by (force simp: get_session_lease_path_def)
  qed
  show "mode_files t = mode_files s" using scan by simp
  show "filed_leases E M t" using found by (fastforce simp: filed_leases_def)
  show "\<exists>x\<in>set leases. snapshot_lease x = l"
    if "i \<noteq> []" "stored_record E t (lease_file M i) = Inr (Some v)" "snapshot_value v = Established l"
    using found [OF that(1,2)] that keep_established_ok [OF keep, of v l] leases by auto
  show "lease_session_id (snapshot_lease x) \<noteq> [] \<and>
      (\<exists>v. stored_record E t (lease_file M (lease_session_id (snapshot_lease x))) = Inr (Some v) \<and>
         snapshot_value v = Established (snapshot_lease x))" if x: "x \<in> set leases"
  proof -
    obtain v where v: "v \<in> set rs" "snapshot_value v = Established (snapshot_lease x)"
      "verify_lease E k (snapshot_schema_version v) (snapshot_lease x) = Inr ()"
      using keep_established_valid [OF keep, of x] x leases by auto
    with scan obtain p where p: "p \<in> set ps" "stored_record E t p = Inr (Some v)"
      "last p = json_file (lease_session_id (snapshot_lease x))" by force
    then have "p = lease_file M (lease_session_id (snapshot_lease x))"
      using dir by (auto simp: get_session_lease_path_def) (metis append_butlast_last_id)
    moreover have "valid_identifier (lease_session_id (snapshot_lease x))"
      using v(3) by (auto simp: verify_lease_def validate_lease_def lease_identifier_def)
    moreover have "\<not> valid_identifier []" by code_simp
    ultimately show ?thesis using p v(2) by auto
  qed
qed

section \<open>Properties\<close>

text \<open>
  C37: Which gateway mode decides about a new session does not depend on the order in which the
  directory lists the records. Among the records that cover the provider, repository and workspace
  there is exactly one of the highest specificity, and the session is refused exactly when that record
  is closed; with no record it is let in.
\<close>

theorem most_specific_mode_decides:
  "case gateway_admission_blocked E M p repository workspace s of
     (Inl _, _) \<Rightarrow> True
   | (Inr blocked, _) \<Rightarrow>
       let C = covering_modes E M p repository workspace s in
       if C = {} then \<not> blocked
       else \<exists>m. {m. is_arg_max (\<lambda>m. specificity (mode_target m)) (\<lambda>m. m \<in> C) m} = {m} \<and>
         blocked = (\<not> mode_admission_open m)"
proof (cases "gateway_admission_blocked E M p repository workspace s")
  case (Pair r t)
  show ?thesis
  proof (cases r)
    case (Inr blocked)
    show ?thesis
      using gateway_admission_ok [OF Pair [unfolded Inr]] unfolding Pair Inr by (simp add: Let_def)
  qed (simp add: Pair)
qed

lemma check_claim_gateway:
  assumes "check_claim E M auth claim now p s = (Inr u, t)" "requires_gateway_routing (exposure_profile (pend_exposure p))"
  obtains s1 where "gateway_admission_blocked E M (pend_provider p) (pend_repository_key p) (pend_workspace_key p) s =
    (Inr False, s1)"
  using assms by (auto simp: check_claim_def bind_exec_ok)

lemma acquire_lock_modes: "acquire_lock s = (Inr u, t) \<Longrightarrow> mode_files t = mode_files s"
  by (auto simp: acquire_lock_def split: list.splits option.splits)

lemma acquire_each_modes: "acquire_each_admission rs s = (Inr u, t) \<Longrightarrow> mode_files t = mode_files s"
  by (induction rs s arbitrary: t rule: acquire_each_admission.induct)
    (auto simp: bind_exec_ok dest!: acquire_lock_modes)

lemma into_lease_desired: "into_lease E k p c d now = Inr l \<Longrightarrow> desired_exposure l = pend_exposure p"
  by (auto simp: into_lease_def seal_lease_def Let_def)

lemma claim_gateway:
  assumes "claim_bootstrap E M auth claim now s = (Inr c, t)"
    and "requires_gateway_routing (exposure_profile (desired_exposure (snapshot_lease (claimed_lease c))))"
  obtains s1 s2 where "mode_files s1 = mode_files s"
    "gateway_admission_blocked E M (lease_provider (snapshot_lease (claimed_lease c)))
       (lease_repository_key (snapshot_lease (claimed_lease c)))
       (lease_workspace_key (snapshot_lease (claimed_lease c))) s1 = (Inr False, s2)"
proof -
  let ?file = "lease_file M (authority_session_id auth)"
  from assms(1) obtain k p l secret s1 s2 s3 s4 s5 v v' and early :: pending_bootstrap where
    a: "load_verified E M k ?file s = (Inr v, s1)"
      "acquire_transition_admission (pend_protected_resources early) s1 = (Inr (), s2)"
      "registry_lock s2 = (Inr (), s3)" "load_verified E M k ?file s3 = (Inr v', s4)"
    and check: "check_claim E M auth claim now p s4 = (Inr (), s5)"
    and "into_lease E k p claim (digest_bytes E secret) now = Inr l" "snapshot_lease (claimed_lease c) = l"
    unfolding claim_bootstrap_def Let_def by (auto simp: bind_exec_ok)
  then have l: "into_lease E k p claim (digest_bytes E secret) now = Inr (snapshot_lease (claimed_lease c))" by simp
  have modes: "mode_files s4 = mode_files s"
    using load_verified_frame [OF a(1)] load_verified_frame [OF a(4)]
      acquire_each_modes [OF a(2) [unfolded acquire_transition_admission_def]]
      acquire_lock_modes [OF a(3) [unfolded registry_lock_def]] by simp
  have "desired_exposure (snapshot_lease (claimed_lease c)) = pend_exposure p"
    using l by (rule into_lease_desired)
  with assms(2) have "requires_gateway_routing (exposure_profile (pend_exposure p))" by simp
  from check_claim_gateway [OF check this] obtain s6 where
    "gateway_admission_blocked E M (pend_provider p) (pend_repository_key p) (pend_workspace_key p) s4 = (Inr False, s6)" .
  with into_lease_ok(4-6) [OF l] modes that show thesis by simp
qed

text \<open>
  C35: A gateway turned off takes no new session. After turning off the gateway of a target, whatever
  happens meanwhile to leases, high-water records, secrets and locks: a bootstrap whose profile needs the
  gateway and whose session the target covers is claimed only if a record that is more specific than
  the target, and open, covers the session too.
\<close>

theorem turned_off_gateway_takes_no_session:
  "case turn_off_unlocked E M tgt force actor now s of
     (Inl _, _) \<Rightarrow> True
   | (Inr out, t) \<Rightarrow>
       (case claim_bootstrap E M auth claim now'
           (t\<lparr>session_files := leases, water_files := waters, fresh_secrets := secrets, lock_script := locks\<rparr>) of
          (Inl _, _) \<Rightarrow> True
        | (Inr c, _) \<Rightarrow>
            let l = snapshot_lease (claimed_lease c) in
            if sha256_length E \<and> requires_gateway_routing (exposure_profile (desired_exposure l)) \<and> target_matches tgt l
            then \<exists>m\<in>covering_modes E M (lease_provider l) (lease_repository_key l) (lease_workspace_key l) t.
              mode_admission_open m \<and> specificity tgt < specificity (mode_target m)
            else True)"
proof -
  let ?u = "\<lambda>t. t\<lparr>session_files := leases, water_files := waters, fresh_secrets := secrets, lock_script := locks\<rparr>"
  have "\<exists>m\<in>covering_modes E M (lease_provider l) (lease_repository_key l) (lease_workspace_key l) t.
      mode_admission_open m \<and> specificity tgt < specificity (mode_target m)"
    if off: "turn_off_unlocked E M tgt force actor now s = (Inr out, t)"
      and claim: "claim_bootstrap E M auth claim now' (?u t) = (Inr c, t')" and l: "l = snapshot_lease (claimed_lease c)"
      and routed: "sha256_length E" "requires_gateway_routing (exposure_profile (desired_exposure l))" "target_matches tgt l"
    for out t c t' l
  proof -
    from off obtain path v where path: "mode_path E M tgt = Inr path" and v: "stored_mode E t path = Inr (Some v)"
      "snapshot_value v = outcome_mode out" and out: "mode_target (outcome_mode out) = tgt"
      "\<not> mode_admission_open (outcome_mode out)"
      by (rule turn_off_ok)
    obtain s1 s2 where modes: "mode_files s1 = mode_files t"
      and open_: "gateway_admission_blocked E M (lease_provider l) (lease_repository_key l) (lease_workspace_key l) s1 =
        (Inr False, s2)"
      by (rule claim_gateway [OF claim]) (use l routed in auto)
    let ?C = "covering_modes E M (lease_provider l) (lease_repository_key l) (lease_workspace_key l)"
    have same: "?C s1 = ?C t" by (simp add: covering_modes_def modes)
    have mem: "outcome_mode out \<in> ?C t"
      using mode_path_ok [OF path] v out(1) routed by (auto simp: covering_modes_def target_matches_def)
    from gateway_admission_ok [OF open_, unfolded same] mem obtain m where
      m: "{m. is_arg_max (\<lambda>m. specificity (mode_target m)) (\<lambda>m. m \<in> ?C t) m} = {m}" "mode_admission_open m"
      by (auto split: if_splits)
    then have top: "is_arg_max (\<lambda>m. specificity (mode_target m)) (\<lambda>m. m \<in> ?C t) m" by auto
    then have "m \<in> ?C t" "specificity tgt \<le> specificity (mode_target m)"
      using mem out(1) by (auto simp: is_arg_max_linorder)
    moreover have "specificity tgt \<noteq> specificity (mode_target m)"
    proof
      assume "specificity tgt = specificity (mode_target m)"
      with top mem out(1) have "is_arg_max (\<lambda>m. specificity (mode_target m)) (\<lambda>m. m \<in> ?C t) (outcome_mode out)"
        by (simp add: is_arg_max_linorder)
      with m out(2) show False by auto
    qed
    ultimately show ?thesis using m(2) by fastforce
  qed
  then show ?thesis by (auto simp: Let_def split: prod.split sum.split)
qed

text \<open>The leases that route through the target are stopped by draining them.\<close>

lemma matching_drained:
  fixes leases :: "lease_snapshot list" and tgt :: gateway_mode_target
  defines "matching \<equiv> filter (\<lambda>l. routes_through tgt (snapshot_lease l)) leases"
  defines "ids \<equiv> (lease_session_id \<circ> snapshot_lease) ` set matching"
  assumes list: "list_unlocked E M s = (Inr leases, s1)" and force: "force = ForceYes \<or> matching = []"
    and same: "session_files s2 = session_files s1"
    and drain: "(if force = ForceYes then drain_each E M actor now matching else pure_exec (Inr [])) s2 =
      (Inr drained, s3)"
  shows "drained_further E M ids s2 s3 \<and> (\<forall>x\<in>set matching. inactive E M s3 (lease_session_id (snapshot_lease x)))"
proof (cases "force = ForceYes")
  case True
  note listed = list_unlocked_ok [OF list]
  have records: "stored_record E s2 q = stored_record E s1 q" for q
    using same by (simp add: stored_record_def)
  have filed: "filed_leases E M s2" using listed(1) records by (simp add: filed_leases_def)
  have start: "\<forall>x\<in>set matching. lease_session_id (snapshot_lease x) \<noteq> [] \<and>
    (lease_lifecycle (snapshot_lease x) = LeaseActive \<or> inactive E M s2 (lease_session_id (snapshot_lease x)))"
  proof (intro ballI conjI)
    fix x
    assume "x \<in> set matching"
    then have "x \<in> set leases" "contributes_active_intent (lease_lifecycle (snapshot_lease x))"
      by (auto simp: routes_through_def matching_def)
    from listed(4) [OF this(1)] show "lease_session_id (snapshot_lease x) \<noteq> []"
      "lease_lifecycle (snapshot_lease x) = LeaseActive \<or> inactive E M s2 (lease_session_id (snapshot_lease x))"
      by (auto simp: inactive_def records)
  qed
  from True drain have "drain_each E M actor now matching s2 = (Inr drained, s3)" by simp
  from drain_each_step [OF this filed start] show ?thesis by (simp add: ids_def)
next
  case False
  note listed = list_unlocked_ok [OF list]
  have "filed_leases E M s2" using listed(1) same by (simp add: filed_leases_def stored_record_def)
  with False force drain show ?thesis by (auto intro: drained_further_refl)
qed

lemma turn_off_stops:
  assumes off: "turn_off_unlocked E M tgt force actor now s = (Inr out, t)"
    and v: "i \<noteq> []" "stored_record E t (lease_file M i) = Inr (Some v)" "snapshot_value v = Established l"
      "target_matches tgt l" "requires_gateway_routing (exposure_profile (desired_exposure l))"
  shows "lease_lifecycle l \<noteq> LeaseActive"
proof
  assume active: "lease_lifecycle l = LeaseActive"
  let ?matching = "filter (\<lambda>l. routes_through tgt (snapshot_lease l))"
  from off obtain leases s1 fenced s2 drained s3 final where
    list: "list_unlocked E M s = (Inr leases, s1)" and force: "force = ForceYes \<or> ?matching leases = []"
    and fence: "update_mode E M tgt actor now (fence_change (?matching leases = [])) s1 = (Inr fenced, s2)"
    and drain: "(if force = ForceYes then drain_each E M actor now (?matching leases) else pure_exec (Inr [])) s2 =
      (Inr drained, s3)"
    and final: "(if sort drained = [] \<and> mode_routing (snapshot_mode fenced) \<noteq> RoutingOff
      then update_mode E M tgt actor now off_change else pure_exec (Inr fenced)) s3 = (Inr final, t)"
    by (rule turn_off_unlocked_ok)
  note listed = list_unlocked_ok [OF list]
  have s2: "session_files s2 = session_files s1"
    using fence by (rule update_mode_ok) simp
  have t: "session_files t = session_files s3"
    using final by (auto split: if_splits elim: update_mode_ok)
  have records: "stored_record E s2 q = stored_record E s1 q" "stored_record E t q = stored_record E s3 q" for q
    using s2 t by (simp_all add: stored_record_def)
  let ?ids = "(lease_session_id \<circ> snapshot_lease) ` set (?matching leases)"
  note further = matching_drained [OF list force s2 drain]
  show False
  proof (cases "i \<in> ?ids")
    case True
    then have "inactive E M s3 i" using further by auto
    with v active records(2) show False by (simp add: inactive_def)
  next
    case False
    then have stored: "stored_record E s1 (lease_file M i) = Inr (Some v)"
      using further v(2) records by (simp add: drained_further_def)
    have id: "lease_session_id l = i" using listed(1) v(1,3) stored unfolding filed_leases_def by blast
    from listed(3) [OF v(1) stored v(3)] id obtain x where
      x: "x \<in> set leases" "snapshot_lease x = l" "lease_session_id l = i" by blast
    then have "x \<in> set (?matching leases)"
      using v(4,5) active by (simp add: routes_through_def contributes_active_intent_def)
    with x False show False by force
  qed
qed

text \<open>
  C36: Turning off a gateway stops the sessions that route through it. When it succeeds, by force or
  because it was idle, no lease stored under a session id that the target covers and whose profile
  needs the gateway is active any more; the mode record is closed, and routing is off unless
  stopped sessions still have calls in flight.
\<close>

theorem turned_off_gateway_leaves_no_session:
  "case turn_off_unlocked E M tgt force actor now s of
     (Inl _, _) \<Rightarrow> True
   | (Inr out, t) \<Rightarrow>
       \<not> mode_admission_open (outcome_mode out) \<and>
       (if draining_sessions out = [] then mode_routing (outcome_mode out) = RoutingOff else True) \<and>
       \<not> (\<exists>i v l. i \<noteq> [] \<and> stored_record E t (lease_file M i) = Inr (Some v) \<and> snapshot_value v = Established l \<and>
          target_matches tgt l \<and> requires_gateway_routing (exposure_profile (desired_exposure l)) \<and>
          lease_lifecycle l = LeaseActive)"
proof (cases "turn_off_unlocked E M tgt force actor now s")
  case (Pair r t)
  show ?thesis
  proof (cases r)
    case (Inr out)
    have off: "turn_off_unlocked E M tgt force actor now s = (Inr out, t)" using Pair Inr by simp
    then have "\<not> mode_admission_open (outcome_mode out) \<and>
        (mode_routing (outcome_mode out) = RoutingOff \<or> draining_sessions out \<noteq> [])"
      by (rule turn_off_ok) blast
    with turn_off_stops [OF off] show ?thesis unfolding Pair Inr by auto
  qed (simp add: Pair)
qed

end
