(* ===== verification/Provider_Reach.thy ===== *)
theory Provider_Reach
  imports Providers "HOL-Library.Product_Lexorder" "HOL-Library.Option_ord"
begin

text \<open>
  \<open>provider_reach.rs\<close>: which providers an operation may touch. A connection is a boundary, a request asks
  for a reach inside it, and the two are reconciled before discovery and again once the target is
  known. Derived targets are filtered by the reach with a record of every exclusion, and the outcome
  of an operation is classified. A panic of the code (an \<open>expect\<close>) is \<open>None\<close>.
\<close>

section \<open>Boundaries, authority and reach\<close>

datatype connection_boundary = BoundaryAll | BoundaryPinned provider_id

fun boundary_provider :: "connection_boundary \<Rightarrow> provider_id option" where
  "boundary_provider BoundaryAll = None"
| "boundary_provider (BoundaryPinned p) = Some p"

fun boundary_allows :: "connection_boundary \<Rightarrow> provider_id \<Rightarrow> bool" where
  "boundary_allows BoundaryAll q \<longleftrightarrow> True"
| "boundary_allows (BoundaryPinned p) q \<longleftrightarrow> p = q"

datatype authority_provenance = ExplicitInput | TuiControl | PinnedMcpBoundary | ExactIndividualTarget

fun provenance_rank :: "authority_provenance \<Rightarrow> nat" where
  "provenance_rank ExplicitInput = 0"
| "provenance_rank TuiControl = 1"
| "provenance_rank PinnedMcpBoundary = 2"
| "provenance_rank ExactIndividualTarget = 3"

record provider_authority =
  auth_provider :: provider_id
  auth_provenance :: authority_provenance

text \<open>The derived order: by provider, then by provenance.\<close>

definition authority_key_of :: "provider_authority \<Rightarrow> provider_id \<times> nat" where
  "authority_key_of a = (auth_provider a, provenance_rank (auth_provenance a))"

definition min_authority :: "provider_authority \<Rightarrow> provider_authority \<Rightarrow> provider_authority" where
  "min_authority a b = (if authority_key_of a \<le> authority_key_of b then a else b)"

datatype reach_input = ReachOmitted | ReachInputAll | ReachInputSelected provider_id authority_provenance

datatype target_kind = IndividualTarget | GroupTarget | BulkTarget | ProfileTarget

datatype provider_reach = ReachAll | ReachSelected provider_id authority_provenance

fun reach_provider :: "provider_reach \<Rightarrow> provider_id option" where
  "reach_provider ReachAll = None"
| "reach_provider (ReachSelected p _) = Some p"

fun reach_provenance :: "provider_reach \<Rightarrow> authority_provenance option" where
  "reach_provenance ReachAll = None"
| "reach_provenance (ReachSelected _ v) = Some v"

fun reach_allows :: "provider_reach \<Rightarrow> provider_id \<Rightarrow> bool" where
  "reach_allows ReachAll q \<longleftrightarrow> True"
| "reach_allows (ReachSelected p _) q \<longleftrightarrow> p = q"

record reach_request =
  req_boundary :: connection_boundary
  req_reach :: reach_input
  req_target_kind :: target_kind
  req_candidates :: "provider_authority list"

record reach_preflight =
  pre_boundary :: connection_boundary
  pre_target_kind :: target_kind
  pre_reach :: "provider_reach option"
  pre_authority :: "provider_authority option"

record reach_resolution =
  res_reach :: provider_reach
  res_selected :: "provider_authority option"

datatype reach_error =
    BoundaryWidening provider_id
  | BoundaryConflict provider_id provider_id
  | ConflictingAuthority provider_id provider_id
  | MissingSelectedProvider
  | MissingExactTargetProvider
  | ExactTargetConflict provider_id provider_id

section \<open>Before discovery\<close>

text \<open>The candidates must agree with each other and with the boundary; the least one is kept.\<close>

fun merge_candidates ::
  "provider_id option \<Rightarrow> provider_authority list \<Rightarrow> provider_authority option \<Rightarrow>
     reach_error + provider_authority option" where
  "merge_candidates pinned [] found = Inr found"
| "merge_candidates pinned (c # cs) found =
     and_then (if_some pinned (\<lambda>p. ensure (auth_provider c = p) (BoundaryConflict p (auth_provider c)))) (\<lambda>_.
     and_then (if_some found (\<lambda>e. ensure (auth_provider e = auth_provider c)
        (ConflictingAuthority (auth_provider e) (auth_provider c)))) (\<lambda>_.
     merge_candidates pinned cs (Some (case found of None \<Rightarrow> c | Some e \<Rightarrow> min_authority e c))))"

definition requested_candidates :: "reach_request \<Rightarrow> provider_authority list" where
  "requested_candidates req =
     req_candidates req @
     (case req_reach req of
        ReachInputSelected p v \<Rightarrow> [\<lparr>auth_provider = p, auth_provenance = v\<rparr>] | _ \<Rightarrow> [])"

definition pinned_authority :: "provider_id \<Rightarrow> provider_authority" where
  "pinned_authority p = \<lparr>auth_provider = p, auth_provenance = PinnedMcpBoundary\<rparr>"

definition resolve_reach ::
  "provider_id option \<Rightarrow> provider_authority option \<Rightarrow> reach_input \<Rightarrow> provider_reach option" where
  "resolve_reach pinned found input =
     (case input of
        ReachInputAll \<Rightarrow> Some ReachAll
      | ReachInputSelected p v \<Rightarrow>
          Some (ReachSelected p (case pinned of None \<Rightarrow> v | Some _ \<Rightarrow> PinnedMcpBoundary))
      | ReachOmitted \<Rightarrow> map_option (\<lambda>a. ReachSelected (auth_provider a) (auth_provenance a)) found)"

definition validate_before_discovery :: "reach_request \<Rightarrow> reach_error + reach_preflight" where
  "validate_before_discovery req =
     (let pinned = boundary_provider (req_boundary req) in
      and_then (if req_reach req = ReachInputAll
         then if_some pinned (\<lambda>p. Inl (BoundaryWidening p)) else Inr ()) (\<lambda>_.
      and_then (merge_candidates pinned (requested_candidates req) None) (\<lambda>merged.
      (let found = (case pinned of None \<Rightarrow> merged | Some p \<Rightarrow> Some (pinned_authority p));
           reach = resolve_reach pinned found (req_reach req) in
       and_then (ensure (\<not> (reach = None \<and> req_target_kind req \<noteq> IndividualTarget)) MissingSelectedProvider) (\<lambda>_.
       Inr \<lparr>pre_boundary = req_boundary req, pre_target_kind = req_target_kind req, pre_reach = reach,
            pre_authority = found\<rparr>)))))"

section \<open>After the target is known\<close>

definition exact_resolution :: "reach_preflight \<Rightarrow> provider_id \<Rightarrow> reach_resolution" where
  "exact_resolution pre p =
     (let reach = (case pre_reach pre of None \<Rightarrow> ReachSelected p ExactIndividualTarget | Some r \<Rightarrow> r) in
      \<lparr>res_reach = reach,
       res_selected =
         (case pre_authority pre of
            Some a \<Rightarrow> Some a
          | None \<Rightarrow>
              if reach_provider reach = Some p
              then Some \<lparr>auth_provider = p,
                auth_provenance = (case reach_provenance reach of None \<Rightarrow> ExactIndividualTarget | Some v \<Rightarrow> v)\<rparr>
              else None)\<rparr>)"

definition reconcile_exact_target ::
  "reach_preflight \<Rightarrow> provider_id option \<Rightarrow> (reach_error + reach_resolution) option" where
  "reconcile_exact_target pre exact =
     (if pre_target_kind pre \<noteq> IndividualTarget
      then map_option (\<lambda>r. Inr \<lparr>res_reach = r, res_selected = pre_authority pre\<rparr>) (pre_reach pre)
      else
       (case exact of
          None \<Rightarrow> Some (Inl MissingExactTargetProvider)
        | Some p \<Rightarrow>
            if \<not> boundary_allows (pre_boundary pre) p
            then map_option (\<lambda>b. Inl (BoundaryConflict b p)) (boundary_provider (pre_boundary pre))
            else Some (and_then (if_some (pre_authority pre) (\<lambda>a.
                ensure (auth_provider a = p) (ExactTargetConflict (auth_provider a) p))) (\<lambda>_.
              Inr (exact_resolution pre p)))))"

section \<open>Filtering derived targets\<close>

datatype reach_reason =
  OutOfProviderReach | MissingTarget | ReadOnlyTarget | BlockedTarget | ProtectedTarget | NonMemberFanOut
  | SharedSourceCrossesReach

fun reason_rank :: "reach_reason \<Rightarrow> nat" where
  "reason_rank OutOfProviderReach = 0"
| "reason_rank MissingTarget = 1"
| "reason_rank ReadOnlyTarget = 2"
| "reason_rank BlockedTarget = 3"
| "reason_rank ProtectedTarget = 4"
| "reason_rank NonMemberFanOut = 5"
| "reason_rank SharedSourceCrossesReach = 6"

record coverage_entry =
  cov_provider :: provider_id
  cov_target_id :: string
  cov_included :: bool
  cov_reason :: "reach_reason option"

definition included_entry :: "provider_id \<Rightarrow> string \<Rightarrow> coverage_entry" where
  "included_entry p i = \<lparr>cov_provider = p, cov_target_id = i, cov_included = True, cov_reason = None\<rparr>"

definition excluded_entry :: "provider_id \<Rightarrow> string \<Rightarrow> coverage_entry" where
  "excluded_entry p i =
     \<lparr>cov_provider = p, cov_target_id = i, cov_included = False, cov_reason = Some OutOfProviderReach\<rparr>"

definition is_excluded :: "coverage_entry \<Rightarrow> bool" where
  "is_excluded e \<longleftrightarrow> \<not> cov_included e"

definition is_reach_exclusion :: "coverage_entry \<Rightarrow> bool" where
  "is_reach_exclusion e \<longleftrightarrow> is_excluded e \<and> cov_reason e = Some OutOfProviderReach"

text \<open>The derived order of entries, and \<open>sort\<close> with \<open>dedup\<close>.\<close>

definition coverage_key :: "coverage_entry \<Rightarrow> provider_id \<times> string \<times> bool \<times> nat option" where
  "coverage_key e = (cov_provider e, cov_target_id e, cov_included e, map_option reason_rank (cov_reason e))"

definition new_coverage :: "coverage_entry list \<Rightarrow> coverage_entry list" where
  "new_coverage es = remdups_adj (sort_key coverage_key es)"

definition reach_excluded_count :: "coverage_entry list \<Rightarrow> nat" where
  "reach_excluded_count es = length (filter is_reach_exclusion es)"

record 't filtered_targets =
  flt_included :: "'t list"
  flt_excluded :: "coverage_entry list"
  flt_coverage :: "coverage_entry list"

definition no_targets_in_reach :: "'t filtered_targets \<Rightarrow> bool" where
  "no_targets_in_reach f \<longleftrightarrow> flt_included f = [] \<and> flt_excluded f \<noteq> []"

text \<open>The targets of an operation, with \<open>provider_id\<close> and \<open>target_id\<close> of the trait.\<close>

fun split_targets ::
  "('t \<Rightarrow> provider_id) \<Rightarrow> ('t \<Rightarrow> string) \<Rightarrow> provider_reach \<Rightarrow> 't list \<Rightarrow> 't list \<times> coverage_entry list" where
  "split_targets prov tid reach [] = ([], [])"
| "split_targets prov tid reach (t # ts) =
     (case split_targets prov tid reach ts of (inc, cov) \<Rightarrow>
        if reach_allows reach (prov t) then (t # inc, included_entry (prov t) (tid t) # cov)
        else (inc, excluded_entry (prov t) (tid t) # cov))"

definition filter_derived_targets ::
  "('t \<Rightarrow> provider_id) \<Rightarrow> ('t \<Rightarrow> string) \<Rightarrow> provider_reach \<Rightarrow> 't list \<Rightarrow> 't filtered_targets" where
  "filter_derived_targets prov tid reach ts =
     (case split_targets prov tid reach ts of (inc, cov) \<Rightarrow>
        (let coverage = new_coverage cov in
         \<lparr>flt_included = inc, flt_excluded = filter is_excluded coverage, flt_coverage = coverage\<rparr>))"

section \<open>Classifying the outcome\<close>

datatype target_outcome = OutcomeApplied | OutcomeNoOp | OutcomeBlocked | OutcomeFailed

record lifecycle_evidence =
  ev_outcomes :: "target_outcome list"
  ev_coverage :: "coverage_entry list"
  ev_writes_started :: bool

datatype reach_lifecycle =
  ReachApplied | ReachPartial | ReachNoOp | NoTargetsInProviderReach | ReachBlocked | ReachRecoveryRequired

definition new_evidence :: "target_outcome list \<Rightarrow> coverage_entry list \<Rightarrow> bool \<Rightarrow> lifecycle_evidence" where
  "new_evidence outcomes cov started =
     \<lparr>ev_outcomes = outcomes, ev_coverage = new_coverage cov, ev_writes_started = started\<rparr>"

definition evidence_from_filter :: "'t filtered_targets \<Rightarrow> target_outcome list \<Rightarrow> bool \<Rightarrow> lifecycle_evidence" where
  "evidence_from_filter f outcomes started =
     \<lparr>ev_outcomes = outcomes, ev_coverage = flt_coverage f, ev_writes_started = started\<rparr>"

definition classify_lifecycle :: "lifecycle_evidence \<Rightarrow> reach_lifecycle" where
  "classify_lifecycle ev =
     (let excluded = filter is_excluded (ev_coverage ev);
          has_exclusions = list_ex is_reach_exclusion excluded;
          has_nonreach_exclusions = list_ex (\<lambda>e. \<not> is_reach_exclusion e) excluded;
          has_blocker = list_ex (\<lambda>r. r \<in> {OutcomeBlocked, OutcomeFailed}) (ev_outcomes ev) in
      if has_blocker then (if ev_writes_started ev then ReachRecoveryRequired else ReachBlocked)
      else if has_nonreach_exclusions then (if ev_writes_started ev then ReachRecoveryRequired else ReachBlocked)
      else if ev_outcomes ev = [] then (if has_exclusions then NoTargetsInProviderReach else ReachBlocked)
      else if has_exclusions then ReachPartial
      else if list_all (\<lambda>r. r = OutcomeNoOp) (ev_outcomes ev) then ReachNoOp
      else ReachApplied)"

section \<open>Lemmas\<close>

lemma reason_rank_inject [simp]: "reason_rank a = reason_rank b \<longleftrightarrow> a = b"
  by (cases a; cases b) simp_all

lemma coverage_key_inject [simp]: "coverage_key a = coverage_key b \<longleftrightarrow> a = b"
  by (cases a; cases b) (auto simp: coverage_key_def option.inj_map_strong dest!: option.inj_map_strong [rotated])

lemma set_new_coverage [simp]: "set (new_coverage es) = set es"
  by (simp add: new_coverage_def)

lemma remdups_adj_sorted_distinct:
  "sorted (map f xs) \<Longrightarrow> inj f \<Longrightarrow> distinct (remdups_adj xs)"
proof (induction xs rule: remdups_adj.induct)
  case (3 x y xs)
  show ?case
  proof (cases "x = y")
    case False
    have "f x < f y" using 3 False by (auto simp: inj_def less_le)
    then have "x \<notin> set (y # xs)" using "3.prems"(1) by auto
    with 3 False show ?thesis by auto
  qed (use 3 in auto)
qed auto

lemma new_coverage_distinct: "distinct (new_coverage es)"
  unfolding new_coverage_def by (rule remdups_adj_sorted_distinct [where f = coverage_key]) (simp_all add: inj_def)

lemma remdups_adj_sorted: "sorted (map f xs) \<Longrightarrow> sorted (map f (remdups_adj xs))"
  by (induction xs rule: remdups_adj.induct) auto

lemma new_coverage_sorted: "sorted (map coverage_key (new_coverage es))"
  by (simp add: new_coverage_def remdups_adj_sorted)

text \<open>The coverage, and so the fingerprint over it, depends only on which entries there are.\<close>

lemma new_coverage_canonical: "set es = set fs \<Longrightarrow> new_coverage es = new_coverage fs"
  using new_coverage_sorted new_coverage_distinct
  by (intro map_injective [of coverage_key] sorted_distinct_set_unique) (auto simp: inj_def distinct_map inj_on_def)

lemma split_targets_eq:
  "split_targets prov tid reach ts =
     (filter (\<lambda>t. reach_allows reach (prov t)) ts,
      map (\<lambda>t. (if reach_allows reach (prov t) then included_entry else excluded_entry) (prov t) (tid t)) ts)"
  by (induction ts) auto

lemma min_authority_provider:
  "auth_provider a = auth_provider b \<Longrightarrow> auth_provider (min_authority a b) = auth_provider b"
  by (simp add: min_authority_def)

lemma merge_candidates_step:
  assumes "merge_candidates pinned (c # cs) found = Inr merged"
  obtains e where "merge_candidates pinned cs (Some e) = Inr merged" "auth_provider e = auth_provider c"
    "\<And>p. pinned = Some p \<Longrightarrow> auth_provider c = p" "\<And>e. found = Some e \<Longrightarrow> auth_provider e = auth_provider c"
proof (cases found)
  case None
  have pin: "\<forall>p. pinned = Some p \<longrightarrow> auth_provider c = p" and rest: "merge_candidates pinned cs (Some c) = Inr merged"
    using assms unfolding None by (cases pinned; simp)+
  show thesis
  proof (rule that [OF rest refl])
    show "auth_provider c = p" if "pinned = Some p" for p using pin that by blast
    show "auth_provider e = auth_provider c" if "found = Some e" for e using None that by simp
  qed
next
  case (Some e)
  have agree: "auth_provider e = auth_provider c" and pin: "\<forall>p. pinned = Some p \<longrightarrow> auth_provider c = p"
    and rest: "merge_candidates pinned cs (Some (min_authority e c)) = Inr merged"
    using assms unfolding Some by (cases pinned; simp)+
  show thesis
  proof (rule that [OF rest])
    show "auth_provider (min_authority e c) = auth_provider c" by (rule min_authority_provider [OF agree])
    show "auth_provider c = p" if "pinned = Some p" for p using pin that by blast
    show "auth_provider e' = auth_provider c" if "found = Some e'" for e' using Some agree that by blast
  qed
qed

lemma merge_candidates_ok:
  assumes "merge_candidates pinned cs found = Inr merged"
  shows "\<forall>p. pinned = Some p \<longrightarrow> (\<forall>c\<in>set cs. auth_provider c = p)"
    and "merged = None \<longleftrightarrow> cs = [] \<and> found = None"
    and "\<forall>a c. merged = Some a \<longrightarrow> c \<in> set cs \<or> found = Some c \<longrightarrow> auth_provider c = auth_provider a"
proof -
  have "(\<forall>p. pinned = Some p \<longrightarrow> (\<forall>c\<in>set cs. auth_provider c = p)) \<and> (merged = None \<longleftrightarrow> cs = [] \<and> found = None) \<and>
    (\<forall>a c. merged = Some a \<longrightarrow> c \<in> set cs \<or> found = Some c \<longrightarrow> auth_provider c = auth_provider a)"
    using assms
  proof (induction cs arbitrary: found)
    case (Cons c cs)
    from Cons.prems obtain e where rest: "merge_candidates pinned cs (Some e) = Inr merged"
      and e: "auth_provider e = auth_provider c" "\<And>p. pinned = Some p \<Longrightarrow> auth_provider c = p"
        "\<And>e. found = Some e \<Longrightarrow> auth_provider e = auth_provider c"
      by (rule merge_candidates_step) blast
    note IH = Cons.IH [OF rest]
    have "auth_provider x = auth_provider a" if "merged = Some a" "x \<in> set (c # cs) \<or> found = Some x" for a x
    proof -
      have "auth_provider c = auth_provider a" using IH e(1) that(1) by metis
      with IH e(3) that show ?thesis by (metis set_ConsD)
    qed
    note same = this
    show ?case
    proof (intro conjI allI impI ballI)
      fix p x
      assume "pinned = Some p" "x \<in> set (c # cs)"
      with IH e(2) [of p] show "auth_provider x = p" by auto
    next
      show "(merged = None) = (c # cs = [] \<and> found = None)" using IH by simp
    qed (use same in blast)
  qed auto
  then show "\<forall>p. pinned = Some p \<longrightarrow> (\<forall>c\<in>set cs. auth_provider c = p)"
    and "merged = None \<longleftrightarrow> cs = [] \<and> found = None"
    and "\<forall>a c. merged = Some a \<longrightarrow> c \<in> set cs \<or> found = Some c \<longrightarrow> auth_provider c = auth_provider a"
    by blast+
qed

section \<open>Properties\<close>

text \<open>What the reconciliation with the exact target can give.\<close>

lemma reconcile_cases:
  assumes "reconcile_exact_target pre exact = Some (Inr res)"
  shows "case pre_reach pre of
     Some r \<Rightarrow> res_reach res = r
   | None \<Rightarrow> pre_target_kind pre = IndividualTarget \<and>
       (\<exists>q. exact = Some q \<and> boundary_allows (pre_boundary pre) q \<and> res_reach res = ReachSelected q ExactIndividualTarget)"
  using assms
  by (auto simp: reconcile_exact_target_def exact_resolution_def Let_def split: if_splits option.splits)

lemma reconcile_no_panic:
  "pre_reach pre = None \<longrightarrow> pre_target_kind pre = IndividualTarget \<Longrightarrow> reconcile_exact_target pre exact \<noteq> None"
  by (cases "pre_boundary pre") (auto simp: reconcile_exact_target_def split: option.split)

lemma reconcile_error:
  "reconcile_exact_target pre exact = Some (Inl e) \<Longrightarrow> pre_target_kind pre = IndividualTarget"
  by (auto simp: reconcile_exact_target_def split: if_splits)

text \<open>What the check before discovery lets through.\<close>

lemma preflight_reach:
  assumes "validate_before_discovery req = Inr pre"
  shows "pre_boundary pre = req_boundary req" "pre_target_kind pre = req_target_kind req"
    "pre_reach pre = None \<longrightarrow> req_target_kind req = IndividualTarget \<and> requested_candidates req = [] \<and>
       req_boundary req = BoundaryAll \<and> req_reach req = ReachOmitted"
    "pre_reach pre = Some ReachAll \<longrightarrow> req_boundary req = BoundaryAll \<and> req_reach req = ReachInputAll"
    "pre_reach pre = Some (ReachSelected p v) \<longrightarrow> req_reach req \<noteq> ReachInputAll \<and>
       auth_provider ` set (requested_candidates req) \<subseteq> {p} \<and>
       (p \<in> auth_provider ` set (requested_candidates req) \<or> req_boundary req = BoundaryPinned p) \<and>
       boundary_allows (req_boundary req) p"
proof -
  let ?pinned = "boundary_provider (req_boundary req)"
  let ?cs = "requested_candidates req"
  from assms obtain merged where merged: "merge_candidates ?pinned ?cs None = Inr merged"
    and widening: "req_reach req = ReachInputAll \<longrightarrow> ?pinned = None"
    and pre: "pre_boundary pre = req_boundary req" "pre_target_kind pre = req_target_kind req"
      "pre_reach pre = resolve_reach ?pinned (case ?pinned of None \<Rightarrow> merged | Some p \<Rightarrow> Some (pinned_authority p))
         (req_reach req)"
      "pre_reach pre = None \<longrightarrow> req_target_kind req = IndividualTarget"
    by (auto simp: validate_before_discovery_def Let_def split: if_splits)
  note cs = merge_candidates_ok [OF merged]
  show "pre_boundary pre = req_boundary req" "pre_target_kind pre = req_target_kind req" by (fact pre(1,2))+
  show "pre_reach pre = None \<longrightarrow> req_target_kind req = IndividualTarget \<and> ?cs = [] \<and>
       req_boundary req = BoundaryAll \<and> req_reach req = ReachOmitted"
    using pre(3,4) cs(2) by (cases "req_boundary req"; cases "req_reach req") (auto simp: resolve_reach_def)
  show "pre_reach pre = Some ReachAll \<longrightarrow> req_boundary req = BoundaryAll \<and> req_reach req = ReachInputAll"
    using pre(3) widening by (cases "req_boundary req"; cases "req_reach req") (auto simp: resolve_reach_def)
  show "pre_reach pre = Some (ReachSelected p v) \<longrightarrow> req_reach req \<noteq> ReachInputAll \<and>
       auth_provider ` set ?cs \<subseteq> {p} \<and> (p \<in> auth_provider ` set ?cs \<or> req_boundary req = BoundaryPinned p) \<and>
       boundary_allows (req_boundary req) p"
  proof
    assume reach: "pre_reach pre = Some (ReachSelected p v)"
    show "req_reach req \<noteq> ReachInputAll \<and> auth_provider ` set ?cs \<subseteq> {p} \<and>
       (p \<in> auth_provider ` set ?cs \<or> req_boundary req = BoundaryPinned p) \<and> boundary_allows (req_boundary req) p"
    proof (cases "req_boundary req")
      case (BoundaryPinned q)
      then have "\<forall>c\<in>set ?cs. auth_provider c = q" using cs(1) by simp
      with reach pre(3) BoundaryPinned widening show ?thesis
        by (cases "req_reach req") (auto simp: resolve_reach_def pinned_authority_def requested_candidates_def)
    next
      case BoundaryAll
      have "\<exists>a. merged = Some a \<and> auth_provider a = p \<and> req_reach req \<noteq> ReachInputAll"
      proof (cases "req_reach req")
        case (ReachInputSelected q u)
        then have mem: "\<lparr>auth_provider = q, auth_provenance = u\<rparr> \<in> set ?cs" by (simp add: requested_candidates_def)
        then obtain a where a: "merged = Some a" using cs(2) by (cases merged) auto
        with cs(3) mem have "q = auth_provider a" by fastforce
        with a reach pre(3) ReachInputSelected show ?thesis by (simp add: resolve_reach_def)
      qed (use reach pre(3) BoundaryAll in \<open>auto simp: resolve_reach_def\<close>)
      then obtain a where a: "merged = Some a" "auth_provider a = p" "req_reach req \<noteq> ReachInputAll" by blast
      have "\<forall>c\<in>set ?cs. auth_provider c = p" using cs(3) a(1,2) by blast
      moreover have "?cs \<noteq> []" using cs(2) a(1) by simp
      ultimately have "auth_provider ` set ?cs = {p}" by (cases ?cs) auto
      with a(3) BoundaryAll show ?thesis by simp
    qed
  qed
qed

lemma included_within_reach:
  "prov ` set (flt_included (filter_derived_targets prov tid reach ts)) \<subseteq> {q. reach_allows reach q}"
  by (auto simp: filter_derived_targets_def split_targets_eq Let_def)

text \<open>
  C38: An operation reaches no provider it is not entitled to. A request that passes the check before
  discovery never panics afterwards; the reach it resolves to lies inside the boundary of the
  connection, covers every provider that a candidate named, is all providers exactly when that was
  asked for, and otherwise is one provider: the selected one, a candidate, the boundary's or the exact
  target's. No target of a provider outside the boundary is included.
\<close>

theorem reach_stays_within_authority:
  "case validate_before_discovery req of
     Inl _ \<Rightarrow> True
   | Inr pre \<Rightarrow>
       (case reconcile_exact_target pre exact of
          None \<Rightarrow> False
        | Some (Inl _) \<Rightarrow> req_target_kind req = IndividualTarget
        | Some (Inr res) \<Rightarrow>
            let reached = {q. reach_allows (res_reach res) q};
                allowed = {q. boundary_allows (req_boundary req) q};
                named = auth_provider ` set (requested_candidates req) in
            named \<subseteq> reached \<and> reached \<subseteq> allowed \<and>
            prov ` set (flt_included (filter_derived_targets prov tid (res_reach res) ts)) \<subseteq> allowed \<and>
            (if req_reach req = ReachInputAll then res_reach res = ReachAll
             else \<exists>p. reached = {p} \<and> (p \<in> named \<or> req_boundary req = BoundaryPinned p \<or> exact = Some p)))"
proof (cases "validate_before_discovery req")
  case (Inr pre)
  note pre = preflight_reach [OF Inr]
  have total: "reconcile_exact_target pre exact \<noteq> None"
    by (rule reconcile_no_panic) (use pre(2,3) in simp)
  have done_: "named \<subseteq> reached \<and> reached \<subseteq> {q. boundary_allows (req_boundary req) q} \<and>
      (if req_reach req = ReachInputAll then res_reach res = ReachAll
       else \<exists>p. reached = {p} \<and> (p \<in> named \<or> req_boundary req = BoundaryPinned p \<or> exact = Some p))"
    if res: "reconcile_exact_target pre exact = Some (Inr res)" and reached: "reached = {q. reach_allows (res_reach res) q}"
      and named: "named = auth_provider ` set (requested_candidates req)" for res reached named
  proof (cases "pre_reach pre")
    case None
    with reconcile_cases [OF res] pre(1,3) obtain q where
      "exact = Some q" "res_reach res = ReachSelected q ExactIndividualTarget" by auto
    with None pre(3) reached named show ?thesis by auto
  next
    case (Some r)
    with reconcile_cases [OF res] have r: "res_reach res = r" by simp
    show ?thesis
    proof (cases r)
      case ReachAll
      with Some pre(4) r reached show ?thesis by auto
    next
      case (ReachSelected p v)
      with Some pre(5) [of p v] r reached named show ?thesis by auto
    qed
  qed
  show ?thesis
  proof (cases "reconcile_exact_target pre exact")
    case (Some x)
    show ?thesis
    proof (cases x)
      case (Inl e)
      with Some reconcile_error pre(2) Inr show ?thesis by auto
    next
      case (Inr res)
      let ?reached = "{q. reach_allows (res_reach res) q}"
      have "prov ` set (flt_included (filter_derived_targets prov tid (res_reach res) ts)) \<subseteq> ?reached"
        by (rule included_within_reach)
      with done_ [OF Some [unfolded Inr] refl refl]
      have "auth_provider ` set (requested_candidates req) \<subseteq> ?reached \<and> ?reached \<subseteq> {q. boundary_allows (req_boundary req) q} \<and>
        prov ` set (flt_included (filter_derived_targets prov tid (res_reach res) ts)) \<subseteq>
          {q. boundary_allows (req_boundary req) q} \<and>
        (if req_reach req = ReachInputAll then res_reach res = ReachAll
         else \<exists>p. ?reached = {p} \<and> (p \<in> auth_provider ` set (requested_candidates req) \<or>
           req_boundary req = BoundaryPinned p \<or> exact = Some p))" by blast
      then show ?thesis
        by (simp add: \<open>validate_before_discovery req = Inr pre\<close> Some Inr Let_def)
    qed
  qed (use total in simp)
qed simp

lemma coverage_sorted:
  "sorted (map (\<lambda>e. (cov_provider e, cov_target_id e)) (new_coverage es))"
  using new_coverage_sorted [of es] unfolding sorted_map
  by (rule sorted_wrt_mono_rel [rotated]) (auto simp: coverage_key_def)

text \<open>
  C19: Filtering loses and invents no target. The included targets are, in their order, exactly those
  whose provider is within reach: any provider, or the selected one. The coverage has one entry for
  every derived target and no other, in the order of providers and target ids, which says whether the
  target is included and otherwise that it is out of reach; the excluded entries are those of the targets out
  of reach. No target is in reach exactly when there were targets and none is included. The coverage
  does not depend on the order in which the targets were derived, nor on duplicates.
\<close>

theorem coverage_accounts_for_every_target:
  "let f = filter_derived_targets prov tid reach ts;
       inside = (case reach of ReachAll \<Rightarrow> UNIV | ReachSelected p _ \<Rightarrow> {p});
       entry = (\<lambda>t. \<lparr>cov_provider = prov t, cov_target_id = tid t, cov_included = (prov t \<in> inside),
         cov_reason = (if prov t \<in> inside then None else Some OutOfProviderReach)\<rparr>) in
     flt_included f = filter (\<lambda>t. prov t \<in> inside) ts \<and>
     distinct (flt_coverage f) \<and> set (flt_coverage f) = entry ` set ts \<and>
     sorted (map (\<lambda>e. (cov_provider e, cov_target_id e)) (flt_coverage f)) \<and>
     distinct (flt_excluded f) \<and> set (flt_excluded f) = entry ` {t \<in> set ts. prov t \<notin> inside} \<and>
     (no_targets_in_reach f \<longleftrightarrow> ts \<noteq> [] \<and> prov ` set ts \<inter> inside = {}) \<and>
     (if set us = set ts then flt_coverage (filter_derived_targets prov tid reach us) = flt_coverage f else True)"
proof -
  define inside where "inside = (case reach of ReachAll \<Rightarrow> UNIV | ReachSelected p _ \<Rightarrow> {p})"
  have reach: "reach_allows reach p \<longleftrightarrow> p \<in> inside" for p
    by (cases reach) (auto simp: inside_def)
  have entry: "(if prov t \<in> inside then included_entry else excluded_entry) (prov t) (tid t) =
      \<lparr>cov_provider = prov t, cov_target_id = tid t, cov_included = (prov t \<in> inside),
         cov_reason = (if prov t \<in> inside then None else Some OutOfProviderReach)\<rparr>" for t
    by (simp add: included_entry_def excluded_entry_def)
  have cov: "flt_coverage (filter_derived_targets prov tid reach us) =
      new_coverage (map (\<lambda>t. \<lparr>cov_provider = prov t, cov_target_id = tid t, cov_included = (prov t \<in> inside),
         cov_reason = (if prov t \<in> inside then None else Some OutOfProviderReach)\<rparr>) us)" for us
    by (simp add: filter_derived_targets_def split_targets_eq Let_def reach entry)
  have inc: "flt_included (filter_derived_targets prov tid reach ts) = filter (\<lambda>t. prov t \<in> inside) ts"
    by (simp add: filter_derived_targets_def split_targets_eq Let_def reach)
  have exc: "flt_excluded (filter_derived_targets prov tid reach ts) =
      filter is_excluded (flt_coverage (filter_derived_targets prov tid reach ts))"
    by (simp add: filter_derived_targets_def split_targets_eq Let_def)
  have excluded: "set (flt_excluded (filter_derived_targets prov tid reach ts)) =
      (\<lambda>t. \<lparr>cov_provider = prov t, cov_target_id = tid t, cov_included = (prov t \<in> inside),
         cov_reason = (if prov t \<in> inside then None else Some OutOfProviderReach)\<rparr>) ` {t \<in> set ts. prov t \<notin> inside}"
    unfolding exc cov by (auto simp: is_excluded_def)
  have "no_targets_in_reach (filter_derived_targets prov tid reach ts) \<longleftrightarrow> ts \<noteq> [] \<and> prov ` set ts \<inter> inside = {}"
    unfolding no_targets_in_reach_def inc set_empty [symmetric] excluded
    by (cases ts) (auto simp: filter_empty_conv)
  moreover have "flt_coverage (filter_derived_targets prov tid reach us) =
      flt_coverage (filter_derived_targets prov tid reach ts)" if "set us = set ts"
    unfolding cov by (rule new_coverage_canonical) (simp add: that)
  ultimately show ?thesis
    unfolding Let_def inside_def [symmetric] using inc excluded
    by (simp add: cov exc new_coverage_distinct coverage_sorted)
qed

text \<open>
  C39: The lifecycle of an operation tells what happened: applied and no-op mean that no target was
  excluded, blocked or failed, and that some or none changed; partial and no-targets mean that targets were
  left out only because they are out of reach; recovery is required exactly when writes had started
  and a target was blocked, failed or excluded for another reason.
\<close>

theorem lifecycle_tells_what_happened:
  "let excluded = filter is_excluded (ev_coverage ev);
       trouble = (list_ex (\<lambda>r. r \<in> {OutcomeBlocked, OutcomeFailed}) (ev_outcomes ev) \<or>
         list_ex (\<lambda>e. cov_reason e \<noteq> Some OutOfProviderReach) excluded) in
   case classify_lifecycle ev of
     ReachApplied \<Rightarrow> excluded = [] \<and> \<not> trouble \<and> OutcomeApplied \<in> set (ev_outcomes ev)
   | ReachNoOp \<Rightarrow> excluded = [] \<and> set (ev_outcomes ev) = {OutcomeNoOp}
   | ReachPartial \<Rightarrow> excluded \<noteq> [] \<and> \<not> trouble \<and> ev_outcomes ev \<noteq> []
   | NoTargetsInProviderReach \<Rightarrow> excluded \<noteq> [] \<and> \<not> trouble \<and> ev_outcomes ev = []
   | ReachBlocked \<Rightarrow> if trouble then \<not> ev_writes_started ev else excluded = [] \<and> ev_outcomes ev = []
   | ReachRecoveryRequired \<Rightarrow> trouble \<and> ev_writes_started ev"
proof -
  let ?excluded = "filter is_excluded (ev_coverage ev)"
  let ?other = "list_ex (\<lambda>e. cov_reason e \<noteq> Some OutOfProviderReach) ?excluded"
  have other: "list_ex (\<lambda>e. \<not> is_reach_exclusion e) ?excluded \<longleftrightarrow> ?other"
    by (auto simp: list_ex_iff is_reach_exclusion_def)
  have reach: "list_ex is_reach_exclusion ?excluded \<longleftrightarrow> ?excluded \<noteq> []" if "\<not> ?other"
    using that by (cases ?excluded) (auto simp: list_ex_iff is_reach_exclusion_def filter_eq_Cons_iff)
  have noop: "set rs = {OutcomeNoOp}" if "rs \<noteq> []" "list_all (\<lambda>r. r = OutcomeNoOp) rs" for rs
    using that by (cases rs) (auto simp: list_all_iff)
  have applied: "OutcomeApplied \<in> set rs"
    if "\<not> list_ex (\<lambda>r. r \<in> {OutcomeBlocked, OutcomeFailed}) rs" "\<not> list_all (\<lambda>r. r = OutcomeNoOp) rs" for rs
  proof -
    from that(2) obtain x where "x \<in> set rs" "x \<noteq> OutcomeNoOp" by (auto simp: list_all_iff)
    with that(1) show ?thesis by (cases x) (auto simp: list_ex_iff)
  qed
  show ?thesis
    unfolding classify_lifecycle_def Let_def other
    using reach noop [of "ev_outcomes ev"] applied [of "ev_outcomes ev"] by simp
qed

end
