(* ===== verification/Spec2Isabelle.thy ===== *)
theory Spec2Isabelle
  imports Mock_Backend Workflow Gateway_Safety Provider_Reach
begin

text \<open>
  A verification library of unpin's core crate (\<open>src/crates/unpin-core/src\<close>): the machinery that
  lets a human approve a change of provider configuration and carries it out so that a crash, a
  concurrent writer or a failing provider never leaves an unrecorded half-written state.

  \<^bold>\<open>Parts.\<close> \<open>Prelude\<close> holds the result and state combinators (\<open>and_then\<close> for Rust's \<open>?\<close>,
  \<open>bind_exec\<close> for \<open>?\<close> over an explicit state), a Hoare triple over them, and lemmas on words,
  sorted lists and ordered maps (\<open>btree\<close>, a \<open>BTreeMap\<close> as its sorted association list).
  \<open>Encoding\<close> models the string helpers of \<open>lib.rs\<close>, the identifier checks and the paths of
  \<open>config.rs\<close>; \<open>Providers\<close> the enumeration of \<open>providers/mod.rs\<close>. \<open>Atomic_Json\<close> is the
  versioned document store of \<open>state/atomic_json.rs\<close>; its contract is the locale
  \<open>fenced_register\<close>, interpreted on the model of \<open>compare_and_swap\<close>. \<open>Transition_Plan\<close>
  (\<open>transitions/plan.rs\<close>) is the reviewed effect graph, \<open>Approval\<close> and \<open>Nonce_Ledger\<close>
  (\<open>approval.rs\<close>) the signed receipt and its replay protection, \<open>Transition_Journal\<close>
  (\<open>transitions/journal.rs\<close>) the write-ahead journal with its audit chain, and
  \<open>Transition_Coordinator\<close> (\<open>transitions/coordinator.rs\<close>) the execution of a plan against a
  backend. \<open>Coordinator_Safety\<close> proves what executing guarantees, under the locales
  \<open>framed_backend\<close> and \<open>backed_up_backend\<close>; \<open>Mock_Backend\<close> interprets both on the backend of the
  repository's transition tests. \<open>Json_Value\<close> is \<open>serde_json::Value\<close>. \<open>Catalog\<close> (\<open>catalog/model.rs\<close>,
  \<open>mod.rs\<close>, \<open>store.rs\<close>) turns discovered items into capability records and publishes them to a
  content-addressed store over \<open>Atomic_Json\<close>. \<open>Profile\<close> (\<open>profiles/model.rs\<close>) compiles a profile
  definition against a catalog; \<open>Profile_Safety\<close> proves what a compiled revision promises. \<open>Policy\<close>
  (\<open>profiles/resolver.rs\<close>, \<open>locks.rs\<close>) resolves which profile, gateway mode and locks apply to a
  provider, \<open>Policy_Store\<close> (\<open>policy_store.rs\<close>, \<open>store.rs\<close>) keeps policies and revisions over
  \<open>Atomic_Json\<close>, and \<open>Profile_Proposal\<close> (\<open>inference.rs\<close>) ranks profiles for a prompt.
  \<open>Workflow\<close> (\<open>workflows/model.rs\<close>, \<open>compiler.rs\<close>) compiles the modes of a workflow over a baseline
  profile, the catalog and the locks. \<open>Session_Lease\<close> (\<open>sessions/lease.rs\<close>) holds the leases of running
  agent sessions and the bootstraps they start from, \<open>High_Water\<close> (\<open>sessions/workflow_router.rs\<close>) the record
  that keeps an old lease of a workflow from being put back, \<open>Session_State\<close> (\<open>sessions/mode.rs\<close>,
  \<open>config.rs\<close>) the mode records and the state of the machine, \<open>Session_Manager\<close> and \<open>Session_Registry\<close>
  (\<open>sessions/manager.rs\<close>) the operations on one lease and on all of them; \<open>Session_Safety\<close> proves what
  they guarantee. \<open>Gateway_Mode\<close> (\<open>sessions/mode.rs\<close>) holds the operations of the mode manager, which fence,
  drain and close a gateway over the same state; \<open>Gateway_Safety\<close> proves what turning one off means for
  the sessions. \<open>Provider_Reach\<close> (\<open>provider_reach.rs\<close>) decides which providers an operation may reach, filters
  its targets and classifies its outcome.

  \<^bold>\<open>How code and model correspond.\<close> Structures are records, enumerations datatypes with the
  source's constructors, \<open>Result\<close> is a sum with the error on the left, \<open>String\<close> a list of UTF-8
  bytes, \<open>u32\<close> and \<open>u64\<close> are words, \<open>i64\<close> times are integers with the overflow of checked and
  saturating operations written out. An operation on files takes and returns the disk it changes.
  What the operating system may do to it (an unreadable directory, a failed write, a lost
  directory sync) comes from a script of faults in the state, so every theorem over an
  arbitrary state holds for every such schedule. SHA-256, HMAC and the JSON printers are fields of
  an environment record; nothing is assumed of them except where a theorem names a collision.
  A retry loop of the code runs \<open>nonce_ledger_update_attempts\<close> (32) times, as in the source.

  \<^bold>\<open>What is shown.\<close> The store loses no update and hands ownership only forward. A plan verifies
  exactly when it is well shaped and carries its digest; a receipt exactly when it is canonical,
  authentic, unexpired and bound to the expectation; a consumed nonce is not consumed again. The
  audit chain only grows and is tamper evident; an unfinished operation on a shared resource is
  found; outcomes tell the truth about the backend; no provider write precedes the durable
  decision and backup; terminal operations are final; locks exclude each other. Cataloguing loses
  no discovered item, a published catalog is read back, and a compiled profile selects exactly what
  was asked for with complete dependencies and atomic groups and unambiguous names. The loop that
  pulls in atomic contributions ends within one round more than the catalog names children. The
  innermost scope decides, locks override profiles, a resolved revision is verified and admissible
  for its scope, and what a session selects is exactly what is exposed; stored policies are kept
  apart, checkpoints undo saves, and published revisions never change. A compiled workflow passes its own
  checks and gives each mode the baseline's and the mode's capabilities under the locks. A bootstrap
  becomes a lease once, for the process and connection it names; no operation reopens a lease, drops
  its workflow or rebinds it; an older lease of a workflow is not loaded; a plan is kept off the
  resources of active leases. A gateway that was turned off keeps no routed session and takes none,
  and the most specific mode record decides whether one is admitted. The reach of an operation stays
  within the boundary of its connection, the coverage accounts for every target, and the lifecycle
  tells what happened to them.

  \<^bold>\<open>Independent specifications.\<close> Where a property states what an operation computes, it is stated against a
  definition that the operation does not use: \<open>may_follow\<close> orders owners by generation, \<open>claims_ok\<close> lists what
  a receipt must hold, \<open>decided\<close> is the chain of scopes and \<open>usable\<close> what a reference to a revision needs,
  \<open>innermost\<close>, \<open>better\<close> and \<open>candidate_of\<close> are the competitors, order and entries of a proposal,
  \<open>claimable\<close> the stored bootstrap that a claim may take, \<open>admissible\<close> the table of origins and scopes.

  \<^bold>\<open>Not modelled.\<close> Path resolution, permissions and symbolic-link checks (operating-system calls,
  folded into faults), panics other than the \<open>expect\<close> calls of \<open>compile_profile\<close>
  and of the conflict check of leases, the inspection of \<open>/proc\<close>, the controllers over sessions and modes,
  the reach-aware envelope (a type parameter of the journal), the
  discovery and mutation of provider file formats, the gateway's network code and the user
  interfaces.
\<close>

section \<open>A small instance of the parameters\<close>

text \<open>
  A hash, printers and a backend with one resource, at which the properties below are applied. The
  hash tells the two contents of the resource apart and nothing else; no property needs more.
\<close>

definition toy_env :: "unit coordinator_env" where
  "toy_env = \<lparr>sha256 = (\<lambda>str. replicate 32 (if str = ''after'' then CHR 0x01 else CHR 0x00)),
     plan_json = (\<lambda>_. Inr ''plan''), hmac_sha256 = (\<lambda>_ _. ''mac''), claims_json = (\<lambda>_. Inr ''claims''),
     receipt_json = (\<lambda>_. ''receipt''), ledger_render = (\<lambda>_. Inr ''ledger''),
     legacy_render = (\<lambda>_. Inr ''nonce''), coordinator_journal_render = (\<lambda>_. Inr ''journal''),
     coordinator_envelope_sealed = (\<lambda>_. Inr ())\<rparr>"

definition toy_effect :: transition_effect where
  "toy_effect = \<lparr>effect_id = ''effect'', effect_kind = PublishView, resource_id = ''resource'',
     target_type = ''file'', summary = ''write the file'', authority = UserManaged, activation = Live,
     expected_pre_fingerprint = Some (sha256_digest toy_env ''before''),
     expected_post_fingerprint = Some (sha256_digest toy_env ''after''), provider_views = [Claude]\<rparr>"

definition toy_plan :: transition_plan where
  "toy_plan = \<lparr>schema_version = 1, operation_id = ''operation'', plan_kind = ApplyProfile,
     plan_context = \<lparr>repository_key = ''repository'', workspace_key = ''workspace'',
       session_id = None, profile_digest = None\<rparr>,
     effects = [toy_effect], effect_graph_digest = sha256_digest toy_env ''plan''\<rparr>"

definition toy_coordinator :: transition_coordinator where
  "toy_coordinator = \<lparr>app_state_root = [''state''], approval_issuer = ''unpin-cli-human'',
     approval_audience = ''unpin-core-control'', conflict_checker = (\<lambda>_. Inr ())\<rparr>"

definition toy_world :: mock_world where
  "toy_world = \<lparr>mock_state = [(''resource'', ''before'')], mock_desired = [(''effect'', ''after'')],
     mock_backups = [], mock_backup_calls = 0, mock_apply_calls = [], mock_rollback_calls = [],
     mock_fail_apply = None, mock_drift_on_failure = None\<rparr>"

definition toy_state :: "(unit, mock_world) coordinator_state" where
  "toy_state = \<lparr>journals = \<lparr>files = [], faults = []\<rparr>,
     approvals = \<lparr>ledgers = \<lparr>files = [], faults = []\<rparr>, legacies = \<lparr>files = [], faults = []\<rparr>\<rparr>,
     world = toy_world, held_locks = [], lock_faults = [], legacy_lock = None\<rparr>"

definition toy_owner :: owner_generation where
  "toy_owner = \<lparr>owner_id = ''cli'', generation = 1\<rparr>"

text \<open>The state after the operation committed: its journal is on disk.\<close>

definition toy_event :: journal_event where
  "toy_event = \<lparr>event_sequence = 1, event_lifecycle = Committed, event_code = ''committed'',
     event_effect_id = None, event_previous = None,
     event_digest_of = event_digest toy_env 1 Committed ''committed'' None None\<rparr>"

definition toy_journal :: "unit transition_journal" where
  "toy_journal = (initial_journal toy_env toy_plan)\<lparr>lifecycle := Committed, audit := [toy_event]\<rparr>"

definition toy_committed :: "(unit, mock_world) coordinator_state" where
  "toy_committed = toy_state\<lparr>journals := \<lparr>files = [(get_transition_journal_path [''state''] ''operation'',
     Regular ''journal'' (Inr \<lparr>doc_schema_version = 1, doc_revision = 1, doc_owner = toy_owner,
       doc_value = toy_journal\<rparr>))], faults = []\<rparr>\<rparr>"

section \<open>Executing a plan\<close>

text \<open>
  C1: Outcomes tell the truth. When executing a plan returns an outcome, a commit means that every
  effect of the plan reads its expected post state from the backend at the end, and a rollback that
  every effect reads its pre state, whatever failed or was resumed on the way and whichever faults
  the store injected. The backend only has to keep its successful writes to their own resource.
\<close>

theorem outcomes_tell_the_truth:
  assumes "framed_backend B"
  shows "case execute_with_recovery_policy E C B plan receipt key now owner policy s of
      (Inr out, t) \<Rightarrow> truthful B plan out (world t)
    | (Inl _, _) \<Rightarrow> True"
proof (cases "execute_with_recovery_policy E C B plan receipt key now owner policy s")
  case (Pair r t)
  then show ?thesis using framed_backend.execute_truthful [OF assms] by (cases r) auto
qed

theorem outcomes_tell_the_truth_witness:
  "case execute_with_recovery_policy toy_env toy_coordinator (mock_backend toy_env) toy_plan None ''key''
      150 toy_owner ResumeSafe toy_state of
      (Inr out, t) \<Rightarrow> truthful (mock_backend toy_env) toy_plan out (world t)
    | (Inl _, _) \<Rightarrow> True"
  by (rule outcomes_tell_the_truth) (rule mock.framed_backend_axioms)

text \<open>
  C2: Nothing is written to a provider before the approval and the backup are durable: after any
  run, successful or not, either no effect's observed state has changed, or the operation's journal
  is on disk with a recorded human decision and an authenticated backup manifest.
\<close>

theorem writes_follow_decision_and_backup:
  assumes "backed_up_backend B"
  shows "guarded E (app_state_root C) (operation_id plan) B s
    (snd (execute_with_recovery_policy E C B plan receipt key now owner policy s))"
  using backed_up_backend.execute_guarded [OF assms] by (metis prod.collapse)

theorem writes_follow_decision_and_backup_witness:
  "guarded toy_env (app_state_root toy_coordinator) (operation_id toy_plan) (mock_backend toy_env) toy_state
    (snd (execute_with_recovery_policy toy_env toy_coordinator (mock_backend toy_env) toy_plan None ''key''
      150 toy_owner ResumeSafe toy_state))"
  by (rule writes_follow_decision_and_backup) (rule mock_backed.backed_up_backend_axioms)

text \<open>
  C7: A terminal operation is final. Executing a plan whose journal is terminal changes neither the
  backend nor the journal, whatever receipt and policy it is called with; it fails or returns the
  outcome the journal records.
\<close>

theorem terminal_operations_are_final:
  assumes "journal_at E (app_state_root C) (operation_id plan) (journals s) = Some j"
    and "is_terminal (lifecycle j)"
  shows "case execute_with_recovery_policy E C B plan receipt key now owner policy s of
      (r, t) \<Rightarrow> world t = world s \<and>
        journal_at E (app_state_root C) (operation_id plan) (journals t) = Some j \<and>
        ((\<exists>e. r = Inl e) \<or> r = terminal_outcome j)"
  using execute_terminal [OF _ assms] by (auto split: prod.split)

theorem terminal_operations_are_final_witness:
  "case execute_with_recovery_policy toy_env toy_coordinator (mock_backend toy_env) toy_plan None ''key''
      150 toy_owner ResumeSafe toy_committed of
      (r, t) \<Rightarrow> world t = world toy_committed \<and>
        journal_at toy_env (app_state_root toy_coordinator) (operation_id toy_plan) (journals t) =
          Some toy_journal \<and>
        ((\<exists>e. r = Inl e) \<or> r = terminal_outcome toy_journal)"
proof (rule terminal_operations_are_final)
  show "journal_at toy_env (app_state_root toy_coordinator) (operation_id toy_plan)
      (journals toy_committed) = Some toy_journal"
    by (simp add: journal_at_def held_def toy_committed_def toy_coordinator_def toy_plan_def
        read_snapshot_def read_snapshot_compatible_def validate_owner_generation_def toy_owner_def
        blank_def trim_def trim_end_def white1_def white2_def white3_def ensure_def)
  show "is_terminal (lifecycle toy_journal)" by (simp add: toy_journal_def is_terminal_def)
qed

text \<open>
  C11: Two plans that share a resource never hold their locks together: while the locks of one are
  held, acquiring those of the other fails.
\<close>

theorem locks_exclude_each_other:
  "\<not> (\<exists>t u v r. try_acquire H rs s = (Inr (), t) \<and> r \<in> set rs \<and> r \<in> set rs' \<and>
      set (held_locks t) \<subseteq> set (held_locks u) \<and> try_acquire H rs' u = (Inr (), v))"
proof (rule notI, elim exE conjE)
  fix t u v r
  assume a: "try_acquire H rs s = (Inr (), t)" "r \<in> set rs" "r \<in> set rs'"
    "set (held_locks t) \<subseteq> set (held_locks u)" "try_acquire H rs' u = (Inr (), v)"
  have "lock_name H r \<in> set (held_locks u)"
    using try_acquire_holds(1) [OF a(1)] a(2,4) by auto
  with try_acquire_holds(2) [OF a(5)] a(3) show False by blast
qed

text \<open>
  C40: A backend failure code longer than 122 bytes, which \<open>BackendFailure\<close> admits up to 128,
  makes the prefixed event code too long: the run stops with \<open>InvalidEventCode\<close> and the
  rollback of the effects already applied is not started.
\<close>

theorem long_failure_code_skips_rollback:
  assumes "apply_effect B eff (world s) = (Inl c, w)" "122 < length c"
    and "current_fingerprint B eff (world s) = Inr (expected_pre_fingerprint eff)"
    and "expected_pre_fingerprint eff \<noteq> expected_post_fingerprint eff"
    and "checkpoint_status (checkpoints (handle_journal h) ! i) = EffectBackedUp"
    and "\<not> is_terminal (lifecycle (handle_journal h))"
  shows "apply_loop E root B plan ((i, eff) # rest) h s =
    (Inl (CoordJournal InvalidEventCode), s\<lparr>world := w\<rparr>)"
proof -
  have "\<not> valid_code (''apply-'' @ c)" using assms(2) by (simp add: valid_code_def)
  then have "record_event E Cancelling (''apply-'' @ c) (Some (effect_id eff)) (handle_journal h) =
      Inl InvalidEventCode"
    using assms(6) by (simp add: record_event_def validate_event_code_def ensure_def and_then_def)
  then show ?thesis
    using assms(1,3-5)
    by (simp add: on_world_def record_and_save_def record_in_def and_then_def map_err_def bind_exec_pure)
qed

theorem long_failure_code_skips_rollback_witness:
  "apply_loop toy_env [] \<lparr>current_fingerprint = (\<lambda>eff w. Inr (expected_pre_fingerprint eff)),
       backup_transition = (\<lambda>plan i w. (Inr [], w)),
       apply_effect = (\<lambda>eff w. (Inl (replicate 123 (CHR ''x'')), w)),
       rollback_effect = (\<lambda>eff i w. (Inr (), w))\<rparr> toy_plan [(0, toy_effect)]
     \<lparr>handle_journal = toy_journal\<lparr>lifecycle := Applying,
         checkpoints := [(pending_checkpoint toy_effect)\<lparr>checkpoint_status := EffectBackedUp\<rparr>]\<rparr>,
       handle_revision = \<lparr>sequence = 1, fingerprint = []\<rparr>, handle_owner = toy_owner\<rparr> toy_state =
   (Inl (CoordJournal InvalidEventCode), toy_state\<lparr>world := world toy_state\<rparr>)"
  by (rule long_failure_code_skips_rollback [where c = "replicate 123 (CHR ''x'')"])
    (simp_all add: toy_effect_def sha256_digest_def toy_env_def encode_lower_hex_inject is_terminal_def)

end
